theory Spec2Isabelle
  imports Main
begin

section \<open>Strings\<close>

text \<open>
  The parser module \<^verbatim>\<open>src/lib/rssParser.ts\<close> works on JavaScript strings. They are
  modelled as \<^typ>\<open>string\<close>: a list of code units, each below 256. The white space
  that \<^verbatim>\<open>String.prototype.trim\<close> removes is, in that range, TAB, LF, VT, FF, CR,
  SPACE and NBSP.
\<close>

definition isWhiteSpace :: "char \<Rightarrow> bool" where
  "isWhiteSpace c = (of_char c \<in> {9, 10, 11, 12, 13, 32, 160 :: nat})"

definition trim :: "string \<Rightarrow> string" where
  "trim s = rev (dropWhile isWhiteSpace (rev (dropWhile isWhiteSpace s)))"

text \<open>
  \<^verbatim>\<open>s.replace(/<[^>]*>/g, '')\<close>: the scan goes left to right; at a \<^verbatim>\<open><\<close> the match
  runs to the next \<^verbatim>\<open>>\<close> (any other character, a line break or a further \<^verbatim>\<open><\<close>
  included, is matched by \<^verbatim>\<open>[^>]\<close>); when no \<^verbatim>\<open>>\<close> follows, there is no match at
  this position, the \<^verbatim>\<open><\<close> stays and the scan moves on by one character.
\<close>

function removeTags :: "string \<Rightarrow> string" where
  "removeTags [] = []"
| "removeTags (c # cs) =
     (if c = CHR ''<'' then
        (case dropWhile (\<lambda>x. x \<noteq> CHR ''>'') cs of
           [] \<Rightarrow> c # removeTags cs
         | _ # rest \<Rightarrow> removeTags rest)
      else c # removeTags cs)"
  by pat_completeness auto
termination
proof (relation "measure length")
  fix c :: char and cs x y
  assume "dropWhile (\<lambda>x. x \<noteq> CHR ''>'') cs = x # y"
  then have "length (x # y) \<le> length cs"
    by (metis length_dropWhile_le)
  then show "(y, c # cs) \<in> measure length" by simp
qed auto

text \<open>
  \<^verbatim>\<open>s.replace(/pat/g, rep)\<close> for a pattern of literal characters: every occurrence
  found by one left-to-right scan is replaced, and the scan resumes after the
  occurrence, in the original text (the replacement is never scanned again by the
  same call).
\<close>

function replaceAll :: "string \<Rightarrow> string \<Rightarrow> string \<Rightarrow> string" where
  "replaceAll pat rep [] = []"
| "replaceAll pat rep (c # cs) =
     (if pat \<noteq> [] \<and> take (length pat) (c # cs) = pat
      then rep @ replaceAll pat rep (drop (length pat) (c # cs))
      else c # replaceAll pat rep cs)"
  by pat_completeness auto
termination
  by (relation "measure (\<lambda>(pat, rep, s). length s)") auto

section \<open>Text cleaning: \<^verbatim>\<open>cleanHtmlContent\<close>\<close>

text \<open>
  The argument has the type \<^verbatim>\<open>string | null | undefined\<close>; the result is a string
  or \<^verbatim>\<open>undefined\<close> (\<^const>\<open>None\<close>). \<^verbatim>\<open>!content\<close> holds of \<^verbatim>\<open>null\<close>, of
  \<^verbatim>\<open>undefined\<close> and of the empty string.
\<close>

datatype content = Null | Undefined | Str string

definition stripAndDecode :: "string \<Rightarrow> string" where
  \<comment> \<open>the chain of \<^verbatim>\<open>replace\<close> calls of lines 123 to 131, in the order of the source\<close>
  "stripAndDecode s =
     replaceAll ''&apos;'' [CHR 0x27]
       (replaceAll ''&#x27;'' [CHR 0x27]
         (replaceAll ''&#39;'' [CHR 0x27]
           (replaceAll ''&quot;'' [CHR 0x22]
             (replaceAll ''&gt;'' ''>''
               (replaceAll ''&lt;'' ''<''
                 (replaceAll ''&amp;'' ''&''
                   (replaceAll ''&nbsp;'' '' ''
                     (removeTags s))))))))"

definition cleanHtmlContent :: "content \<Rightarrow> string option" where
  "cleanHtmlContent content =
     (case content of
        Null \<Rightarrow> None
      | Undefined \<Rightarrow> None
      | Str s \<Rightarrow> if s = [] then None else Some (trim (stripAndDecode s)))"

section \<open>The retry wrapper: \<^verbatim>\<open>withRetry\<close>\<close>

text \<open>
  What the code throws: an \<^verbatim>\<open>Error\<close> or a \<^verbatim>\<open>TypeError\<close> with its message, or the
  value \<^verbatim>\<open>undefined\<close> (the unassigned \<^verbatim>\<open>lastError\<close> of \<^verbatim>\<open>withRetry\<close>). A promise
  is modelled by the value it settles with: \<^term>\<open>Inl e\<close> when it rejects with
  \<open>e\<close>, \<^term>\<open>Inr v\<close> when it fulfils with \<open>v\<close>.
\<close>

datatype error = ThrownUndefined | Error string | TypeError string

text \<open>
  The options object; a missing field (\<^const>\<open>None\<close>) takes the default of the
  destructuring in line 90: 3 attempts, 1000 ms, no callback. The callback is
  caller code of type \<^verbatim>\<open>(attempt, error) => void\<close>: it returns, and what it has
  done is recorded as a value of type \<open>'n\<close> in the trace (\<^const>\<open>Inr\<close>), or it
  throws (\<^const>\<open>Inl\<close>).
\<close>

record 'n RetryOptions =
  maxRetries :: "int option"
  delay :: "int option"
  onRetry :: "(int \<Rightarrow> error \<Rightarrow> error + 'n) option"

text \<open>
  What a run of \<^verbatim>\<open>withRetry\<close> does besides returning, in order: the operation is
  invoked (in the attempt of that number), the callback is invoked and returns or
  throws, the timer is set (\<^verbatim>\<open>setTimeout\<close> with that many milliseconds, or with a
  value that is not a finite number) and awaited.
\<close>

datatype 'n event =
  Invoked int | Notified 'n | CallbackThrew error | Waited int | WaitedNotFinite

text \<open>
  The delay \<^verbatim>\<open>delay * Math.pow(2, attempt - 1)\<close> of line 108 is computed in doubles.
  The base delay is an integer number of milliseconds. Multiplying a double by a
  power of two changes its exponent only, so the product is exact as long as it
  is finite, that is, below \<open>2 ^ 1024\<close> in magnitude; beyond that the code has
  \<^verbatim>\<open>Infinity\<close>, and \<^verbatim>\<open>NaN\<close> for \<^verbatim>\<open>0 * Infinity\<close> once the power itself is infinite.
\<close>

definition finiteBackoff :: "int \<Rightarrow> int \<Rightarrow> bool" where
  "finiteBackoff dly attempt =
     (attempt - 1 < 1024 \<and> \<bar>dly\<bar> * 2 ^ nat (attempt - 1) < 2 ^ 1024)"

text \<open>
  The operation \<^verbatim>\<open>fn\<close> is a thunk with effects: it may answer differently each
  time it is invoked. It is modelled by the function from the number of its
  earlier invocations to the way its promise settles. The \<^verbatim>\<open>for\<close> loop of lines
  93 to 111 is the recursion on \<open>attempt\<close>; the statement after the loop
  (line 113) throws \<^verbatim>\<open>lastError\<close>. The call of the callback in line 104 is inside
  the \<^verbatim>\<open>catch\<close> block and has no \<^verbatim>\<open>try\<close> of its own: what the callback throws
  leaves the loop and rejects the promise of \<^verbatim>\<open>withRetry\<close>, before any wait.
\<close>

function withRetry_loop ::
  "(nat \<Rightarrow> error + 'a) \<Rightarrow> int \<Rightarrow> int \<Rightarrow> (int \<Rightarrow> error \<Rightarrow> error + 'n) option
     \<Rightarrow> int \<Rightarrow> nat \<Rightarrow> error \<Rightarrow> (error + 'a) \<times> 'n event list" where
  "withRetry_loop fn maxR dly cb attempt calls lastError =
     (if attempt \<le> maxR then
        (case fn calls of
           Inr v \<Rightarrow> (Inr v, [Invoked attempt])
         | Inl e \<Rightarrow>
             if attempt = maxR then (Inl e, [Invoked attempt])
             else
               (case (case cb of
                        None \<Rightarrow> Inr []
                      | Some f \<Rightarrow>
                          (case f attempt e of
                             Inl thrown \<Rightarrow> Inl thrown
                           | Inr n \<Rightarrow> Inr [Notified n])) of
                  Inl thrown \<Rightarrow> (Inl thrown, [Invoked attempt, CallbackThrew thrown])
                | Inr notified \<Rightarrow>
                    (let backoffDelay = dly * 2 ^ nat (attempt - 1);
                         waited = (if finiteBackoff dly attempt then Waited backoffDelay
                                   else WaitedNotFinite);
                         (r, tr) = withRetry_loop fn maxR dly cb (attempt + 1) (Suc calls) e
                     in (r, Invoked attempt # notified @ waited # tr))))
      else (Inl lastError, []))"
  by pat_completeness auto
termination
  by (relation "measure (\<lambda>(fn, maxR, dly, cb, attempt, calls, lastError).
        nat (maxR + 1 - attempt))") auto

definition withRetry ::
  "(nat \<Rightarrow> error + 'a) \<Rightarrow> 'n RetryOptions \<Rightarrow> (error + 'a) \<times> 'n event list" where
  "withRetry fn options =
     withRetry_loop fn
       (case maxRetries options of None \<Rightarrow> 3 | Some m \<Rightarrow> m)
       (case delay options of None \<Rightarrow> 1000 | Some d \<Rightarrow> d)
       (onRetry options) 1 0 ThrownUndefined"

text \<open>
  For stating what a run leaves behind: the attempt count and base delay in force,
  the condition that every delay of the run is a finite number, a callback that returns whatever it is called with (given by what it records),
  and the part of the trace that belongs to a failed attempt that is followed by
  a retry (the \<open>i\<close>-th invocation, counted from 0, is attempt \<open>i + 1\<close>).
\<close>

definition attemptsOf :: "'n RetryOptions \<Rightarrow> int" where
  "attemptsOf options = (case maxRetries options of None \<Rightarrow> 3 | Some m \<Rightarrow> m)"

definition baseDelayOf :: "'n RetryOptions \<Rightarrow> int" where
  "baseDelayOf options = (case delay options of None \<Rightarrow> 1000 | Some d \<Rightarrow> d)"

definition finiteDelays :: "'n RetryOptions \<Rightarrow> bool" where
  \<comment> \<open>every delay of a run is finite: the last wait is that of attempt \<open>m - 1\<close>\<close>
  "finiteDelays options = finiteBackoff (baseDelayOf options) (attemptsOf options - 1)"

definition returning :: "(int \<Rightarrow> error \<Rightarrow> 'n) option \<Rightarrow> (int \<Rightarrow> error \<Rightarrow> error + 'n) option" where
  "returning cb = map_option (\<lambda>f attempt e. Inr (f attempt e)) cb"

definition failed_attempt ::
  "int \<Rightarrow> (int \<Rightarrow> error \<Rightarrow> 'n) option \<Rightarrow> nat \<Rightarrow> error \<Rightarrow> 'n event list" where
  "failed_attempt dly cb i e =
     Invoked (int i + 1)
     # (case cb of None \<Rightarrow> [] | Some f \<Rightarrow> [Notified (f (int i + 1) e)])
     @ [Waited (dly * 2 ^ i)]"

text \<open>
  The retry wrapper in the words of the specification: execute the operation; on
  failure, if attempts remain, invoke the callback with the attempt number and
  the error, wait \<open>baseDelay * 2 ^ (attempt - 1)\<close> ms and retry; on exhausting
  attempts, propagate the last error; never retry on success. Its callback is a
  notification that returns. It is compared with \<^const>\<open>withRetry\<close> below.
\<close>

function spec_retry ::
  "(nat \<Rightarrow> error + 'a) \<Rightarrow> int \<Rightarrow> int \<Rightarrow> (int \<Rightarrow> error \<Rightarrow> 'n) option
     \<Rightarrow> int \<Rightarrow> nat \<Rightarrow> (error + 'a) \<times> 'n event list" where
  "spec_retry fn maxR dly cb attempt calls =
     (case fn calls of
        Inr v \<Rightarrow> (Inr v, [Invoked attempt])
      | Inl e \<Rightarrow>
          if attempt < maxR then
            (let (r, tr) = spec_retry fn maxR dly cb (attempt + 1) (Suc calls)
             in (r, Invoked attempt
                    # (case cb of None \<Rightarrow> [] | Some f \<Rightarrow> [Notified (f attempt e)])
                    @ Waited (dly * 2 ^ nat (attempt - 1)) # tr))
          else (Inl e, [Invoked attempt]))"
  by pat_completeness auto
termination
  by (relation "measure (\<lambda>(fn, maxR, dly, cb, attempt, calls). nat (maxR - attempt))") auto

section \<open>Numbers and the duration normalizer\<close>

text \<open>
  JavaScript numbers are doubles. An integer below \<open>2 ^ 53\<close> in magnitude is a
  double, and \<^verbatim>\<open>parseInt\<close>, \<^verbatim>\<open>+\<close>, \<^verbatim>\<open>*\<close>, \<^verbatim>\<open>Math.floor(x / 60)\<close>, \<^verbatim>\<open>%\<close>, the comparisons
  and \<^verbatim>\<open>toString\<close> are exact on such integers as long as their results stay below
  \<open>2 ^ 53\<close>. The functions of this section compute with integers; they are used
  for numbers in that range only: track positions, list lengths, HTTP status
  codes, and the numbers of a duration text that is in the range of
  \<open>exactRange\<close> below. \<^verbatim>\<open>NaN\<close> is \<^const>\<open>None\<close>.

  \<^verbatim>\<open>parseInt(s)\<close> without a radix: leading white space is skipped, a sign is read,
  a prefix \<^verbatim>\<open>0x\<close> or \<^verbatim>\<open>0X\<close> selects radix 16, then the longest run of digits of the
  radix is read and whatever follows it is ignored; with no digit the result is
  \<^verbatim>\<open>NaN\<close>.
\<close>

definition isDigit :: "char \<Rightarrow> bool" where
  "isDigit c = (48 \<le> (of_char c :: nat) \<and> (of_char c :: nat) \<le> 57)"

definition digitValue :: "char \<Rightarrow> nat option" where
  "digitValue c =
     (let n = of_char c :: nat in
      if 48 \<le> n \<and> n \<le> 57 then Some (n - 48)
      else if 97 \<le> n \<and> n \<le> 122 then Some (n - 87)
      else if 65 \<le> n \<and> n \<le> 90 then Some (n - 55)
      else None)"

definition isRadixDigit :: "nat \<Rightarrow> char \<Rightarrow> bool" where
  "isRadixDigit radix c = (case digitValue c of None \<Rightarrow> False | Some v \<Rightarrow> v < radix)"

definition digitsValue :: "nat \<Rightarrow> string \<Rightarrow> nat" where
  "digitsValue radix z = foldl (\<lambda>acc c. acc * radix + the (digitValue c)) 0 z"

definition parseInt :: "string \<Rightarrow> int option" where
  "parseInt s =
     (let s1 = dropWhile isWhiteSpace s;
          sign = (if take 1 s1 = ''-'' then - 1 else 1 :: int);
          s2 = (if take 1 s1 = ''-'' \<or> take 1 s1 = ''+'' then drop 1 s1 else s1);
          hex = (take 2 s2 = ''0x'' \<or> take 2 s2 = ''0X'');
          radix = (if hex then 16 else 10 :: nat);
          s3 = (if hex then drop 2 s2 else s2);
          z = takeWhile (isRadixDigit radix) s3
      in if z = [] then None else Some (sign * int (digitsValue radix z)))"

text \<open>\<^verbatim>\<open>Number.prototype.toString\<close> on an integer, and \<^verbatim>\<open>padStart(2, '0')\<close>.\<close>

definition digitChar :: "nat \<Rightarrow> char" where
  "digitChar n = ''0123456789'' ! n"

function natToString :: "nat \<Rightarrow> string" where
  "natToString n =
     (if n < 10 then [digitChar n]
      else natToString (n div 10) @ [digitChar (n mod 10)])"
  by pat_completeness auto
termination
  by (relation "measure id") auto

definition numToString :: "int \<Rightarrow> string" where
  "numToString i = (if i < 0 then CHR ''-'' # natToString (nat (- i)) else natToString (nat i))"

definition padStart2 :: "string \<Rightarrow> string" where
  "padStart2 s = replicate (2 - length s) (CHR ''0'') @ s"

text \<open>
  \<^verbatim>\<open>s.split(sep)\<close> for a non-empty separator (the module splits at \<^verbatim>\<open>':'\<close>, \<^verbatim>\<open>','\<close>
  and \<^verbatim>\<open>' - '\<close>): the pieces between the occurrences found from left to right.
\<close>

function split_from :: "string \<Rightarrow> string \<Rightarrow> string \<Rightarrow> string list" where
  "split_from sep cur [] = [cur]"
| "split_from sep cur (c # cs) =
     (if sep \<noteq> [] \<and> take (length sep) (c # cs) = sep
      then cur # split_from sep [] (drop (length sep) (c # cs))
      else split_from sep (cur @ [c]) cs)"
  by pat_completeness auto
termination
  by (relation "measure (\<lambda>(sep, cur, s). length s)") auto

definition split :: "string \<Rightarrow> string \<Rightarrow> string list" where
  "split s sep = split_from sep [] s"

text \<open>
  A duration text is in the exact range when every number that \<^verbatim>\<open>parseInt\<close> reads
  from one of its parts \<open>n\<close> has \<open>\<bar>n\<bar> * 60 + 60 \<le> 2 ^ 53\<close>: then the seconds, the
  minutes, the hours and \<^verbatim>\<open>hours * 60 + mins\<close> are all integers below \<open>2 ^ 53\<close>.
  (A text without a colon is its own single part.) Beyond that range the numbers
  of the code are rounded and are printed with an exponent from \<open>10 ^ 21\<close> on;
  what the code returns there is not computed by the model but taken from the
  platform, as the function \<open>inDoubles\<close> of the trimmed text.
\<close>

definition exactRange :: "string \<Rightarrow> bool" where
  "exactRange durationStr =
     list_all (\<lambda>part. case parseInt part of
                         None \<Rightarrow> True
                       | Some n \<Rightarrow> \<bar>n\<bar> * 60 + 60 \<le> 2 ^ 53)
       (split durationStr '':'')"

text \<open>
  \<^verbatim>\<open>normalizeDuration\<close>, lines 138 to 182. The parameter \<^verbatim>\<open>trackTitle\<close> is used for a
  console message only. The branches are those of the source: the test
  \<^verbatim>\<open>/^\d+$/\<close>, then \<^verbatim>\<open>includes(':')\<close> with two or three parts; every path that
  does not return inside them reaches the last line, which returns the trimmed
  text itself.
\<close>

definition minutesSeconds :: "int \<Rightarrow> int \<Rightarrow> string" where
  \<comment> \<open>the template \<^verbatim>\<open>`${mins}:${secs.toString().padStart(2, '0')}`\<close>\<close>
  "minutesSeconds mins secs = numToString mins @ '':'' @ padStart2 (numToString secs)"

definition normalizeDuration :: "(string \<Rightarrow> string) \<Rightarrow> string \<Rightarrow> string option \<Rightarrow> string" where
  "normalizeDuration inDoubles duration trackTitle =
     (if duration = [] \<or> trim duration = [] then ''0:00''
      else
        let durationStr = trim duration;
            unparsed = (if durationStr \<noteq> [] then durationStr else ''0:00'')
        in
        if \<not> exactRange durationStr then inDoubles durationStr
        else if durationStr \<noteq> [] \<and> list_all isDigit durationStr then
          (case parseInt durationStr of
             Some seconds \<Rightarrow>
               if seconds > 0 then minutesSeconds (seconds div 60) (seconds mod 60)
               else unparsed
           | None \<Rightarrow> unparsed)
        else if CHR '':'' \<in> set durationStr then
          (let parts = split durationStr '':'' in
           if length parts = 2 then
             (case (parseInt (parts ! 0), parseInt (parts ! 1)) of
                (Some mins, Some secs) \<Rightarrow>
                  if mins \<ge> 0 \<and> secs \<ge> 0 \<and> secs < 60 then minutesSeconds mins secs
                  else unparsed
              | _ \<Rightarrow> unparsed)
           else if length parts = 3 then
             (case (parseInt (parts ! 0), parseInt (parts ! 1), parseInt (parts ! 2)) of
                (Some hours, Some mins, Some secs) \<Rightarrow>
                  if hours \<ge> 0 \<and> mins \<ge> 0 \<and> mins < 60 \<and> secs \<ge> 0 \<and> secs < 60
                  then minutesSeconds (hours * 60 + mins) secs
                  else unparsed
              | _ \<Rightarrow> unparsed)
           else unparsed)
        else unparsed)"

text \<open>
  The canonical form \<^verbatim>\<open>M:SS\<close> of the specification: the minutes in decimal digits,
  a colon, and exactly two digits of seconds.
\<close>

definition canonicalDuration :: "string \<Rightarrow> bool" where
  "canonicalDuration d =
     (let m = takeWhile isDigit d; rest = dropWhile isDigit d
      in m \<noteq> [] \<and> length rest = 3 \<and> take 1 rest = '':''
         \<and> list_all isDigit (drop 1 rest))"

section \<open>The parsed document\<close>

text \<open>
  The module reads the XML document through four DOM operations:
  \<^verbatim>\<open>getElementsByTagName\<close>, \<^verbatim>\<open>getAttribute\<close>, \<^verbatim>\<open>textContent\<close> and indexing of the node
  lists; the cover-art resolver also calls \<^verbatim>\<open>querySelector\<close>, which is taken from
  the environment. A node is an element (tag name as written in the document, prefix
  included, attributes, children) or a piece of text. The document node is an
  element whose only element child is the root.
\<close>

datatype node =
    Element (tagName: string) (attributes: "(string \<times> string) list") (childNodes: "node list")
  | Text string

text \<open>An element and the elements below it, in document order.\<close>

fun elems :: "node \<Rightarrow> node list" where
  "elems (Text s) = []"
| "elems (Element t as cs) = Element t as cs # concat (map elems cs)"

fun children :: "node \<Rightarrow> node list" where
  "children (Text s) = []"
| "children (Element t as cs) = cs"

text \<open>
  \<^verbatim>\<open>n.getElementsByTagName(name)\<close>: the elements below \<open>n\<close>, at any depth, with that
  tag name, in document order (\<open>n\<close> itself is not among them).
\<close>

definition getElementsByTagName :: "node \<Rightarrow> string \<Rightarrow> node list" where
  "getElementsByTagName n name =
     filter (\<lambda>e. tagName e = name) (concat (map elems (children n)))"

fun textContent :: "node \<Rightarrow> string" where
  "textContent (Text s) = s"
| "textContent (Element t as cs) = concat (map textContent cs)"

text \<open>
  \<^verbatim>\<open>getAttribute\<close> gives \<^verbatim>\<open>null\<close> (the older xmldom: the empty string) for a missing
  attribute; the module uses the result only under \<^verbatim>\<open>||\<close>, \<^verbatim>\<open>&&\<close>, \<^verbatim>\<open>if\<close> and
  \<^verbatim>\<open>===\<close> with a non-empty literal, where the two cannot be told apart.
\<close>

definition getAttribute :: "node \<Rightarrow> string \<Rightarrow> string option" where
  "getAttribute e name = map_of (attributes e) name"

text \<open>\<^verbatim>\<open>xs[0]\<close> is \<^verbatim>\<open>undefined\<close> on an empty list.\<close>

definition first :: "'a list \<Rightarrow> 'a option" where
  "first xs = (case xs of [] \<Rightarrow> None | x # _ \<Rightarrow> Some x)"

text \<open>
  Strings that may be \<^verbatim>\<open>null\<close> or \<^verbatim>\<open>undefined\<close> are \<^typ>\<open>string option\<close>. Such a
  value is falsy when it is missing or empty; \<^verbatim>\<open>a || b\<close> is \<open>a\<close> when \<open>a\<close> is truthy,
  else \<open>b\<close>.
\<close>

definition truthy :: "string option \<Rightarrow> bool" where
  "truthy a = (a \<noteq> None \<and> a \<noteq> Some [])"

definition orElse :: "string option \<Rightarrow> string option \<Rightarrow> string option" where
  "orElse a b = (if truthy a then a else b)"

definition orDefault :: "string option \<Rightarrow> string \<Rightarrow> string" where
  "orDefault a d = (case a of None \<Rightarrow> d | Some s \<Rightarrow> if s = [] then d else s)"

definition toContent :: "string option \<Rightarrow> content" where
  "toContent a = (case a of None \<Rightarrow> Undefined | Some s \<Rightarrow> Str s)"

text \<open>\<^verbatim>\<open>n.getElementsByTagName(name)[0]?.textContent?.trim()\<close>\<close>

definition firstText :: "node \<Rightarrow> string \<Rightarrow> string option" where
  "firstText n name = map_option (\<lambda>e. trim (textContent e)) (first (getElementsByTagName n name))"

text \<open>\<^verbatim>\<open>toLowerCase\<close> on code units below 256.\<close>

definition toLowerCase :: "string \<Rightarrow> string" where
  "toLowerCase s =
     map (\<lambda>c. let n = of_char c :: nat in
               if (65 \<le> n \<and> n \<le> 90) \<or> (192 \<le> n \<and> n \<le> 222 \<and> n \<noteq> 215)
               then char_of (n + 32) else c) s"


text \<open>\<^verbatim>\<open>s.startsWith(prefix)\<close>\<close>

definition startsWith :: "string \<Rightarrow> string \<Rightarrow> bool" where
  "startsWith s prefix = (take (length prefix) s = prefix)"

text \<open>
  \<^verbatim>\<open>description.match(/<img[^>]+src=["']([^"']+)["'][^>]*>/i)\<close>, line 250: the first
  group of the leftmost match, or \<^verbatim>\<open>null\<close>. The expression is matched with
  backtracking. After \<^verbatim>\<open><img\<close> the greedy \<^verbatim>\<open>[^>]+\<close> takes the longest run without
  \<^verbatim>\<open>>\<close> and gives characters back one by one, down to one character, until the
  rest matches. The rest matches at a place when \<^verbatim>\<open>src=\<close> and a quote stand there,
  followed by a non-empty run without quotes (the group, which can only be the
  whole run, since a quote has to follow it), a quote, and a \<^verbatim>\<open>>\<close> somewhere
  after it. Letters are compared without case.
\<close>

definition isQuote :: "char \<Rightarrow> bool" where
  "isQuote c = (c = CHR 0x22 \<or> c = CHR 0x27)"

definition srcAttribute :: "string \<Rightarrow> string option" where
  "srcAttribute t =
     (if toLowerCase (take 4 t) = ''src='' then
        (case drop 4 t of
           [] \<Rightarrow> None
         | q # u \<Rightarrow>
             let g = takeWhile (\<lambda>c. \<not> isQuote c) u;
                 v = dropWhile (\<lambda>c. \<not> isQuote c) u
             in if isQuote q \<and> g \<noteq> [] \<and> v \<noteq> [] \<and> CHR ''>'' \<in> set (tl v)
                then Some g else None)
      else None)"

definition imgTag :: "string \<Rightarrow> string option" where
  "imgTag r =
     (let longest = length (takeWhile (\<lambda>c. c \<noteq> CHR ''>'') r)
      in first (List.map_filter (\<lambda>n. srcAttribute (drop n r)) (rev [1..<Suc longest])))"

fun matchImgSrc :: "string \<Rightarrow> string option" where
  "matchImgSrc [] = None"
| "matchImgSrc (c # cs) =
     (if toLowerCase (take 4 (c # cs)) = ''<img'' then
        (case imgTag (drop 4 (c # cs)) of
           Some src \<Rightarrow> Some src
         | None \<Rightarrow> matchImgSrc cs)
      else matchImgSrc cs)"
section \<open>The records of the module\<close>

text \<open>
  The interfaces of lines 17 to 76. A field marked optional (\<^verbatim>\<open>?\<close>) or nullable is
  an \<open>option\<close>; \<^const>\<open>None\<close> stands for \<^verbatim>\<open>undefined\<close>, for \<^verbatim>\<open>null\<close> and for a field
  that is not set.
\<close>

record RSSTrack =
  title :: string
  duration :: string
  url :: "string option"
  trackNumber :: "nat option"
  subtitle :: "string option"
  summary :: "string option"
  image :: "string option"
  explicit :: "bool option"
  "keywords" :: "string list option"

record RSSFunding =
  url :: string
  message :: "string option"

record RSSPodRoll =
  url :: string
  title :: "string option"
  description :: "string option"

record RSSPublisher =
  feedGuid :: string
  feedUrl :: string
  medium :: string

record RSSPublisherItem =
  feedGuid :: string
  feedUrl :: string
  medium :: string
  title :: "string option"

record RSSOwner =
  name :: "string option"
  email :: "string option"

record RSSAlbum =
  title :: string
  artist :: string
  description :: string
  coverArt :: "string option"
  tracks :: "RSSTrack list"
  releaseDate :: string
  duration :: "string option"
  link :: "string option"
  funding :: "RSSFunding list option"
  subtitle :: "string option"
  summary :: "string option"
  "keywords" :: "string list option"
  categories :: "string list option"
  explicit :: "bool option"
  language :: "string option"
  copyright :: "string option"
  owner :: "RSSOwner option"
  podroll :: "RSSPodRoll list option"
  publisher :: "RSSPublisher option"

section \<open>The environment of a call\<close>

text \<open>
  What the module takes from the platform. \<^verbatim>\<open>fetch\<close> settles with a response or
  rejects; its outcome may change from one attempt to the next, so it depends on
  the URL requested and on the number of earlier attempts of the running call.
  \<^verbatim>\<open>DOMParser.parseFromString\<close> gives a document or throws.
  \<^verbatim>\<open>element.querySelector(selector)\<close> gives the first matching element or \<^verbatim>\<open>null\<close>
  in a browser; the elements of \<^verbatim>\<open>@xmldom/xmldom\<close>, the parser imported on the server
  (line 497), have no such method, and the call throws a \<^verbatim>\<open>TypeError\<close> there.
  \<^verbatim>\<open>new URL(s)\<close> throws (\<^const>\<open>None\<close>) or gives an object of which the module reads
  \<^verbatim>\<open>protocol\<close>, \<^verbatim>\<open>host\<close> and \<^verbatim>\<open>pathname\<close>. \<open>durationInDoubles\<close> is what the duration
  normalizer returns for a text outside the exact range of the integers.
\<close>

record response =
  ok :: bool
  status :: int
  statusText :: string
  body :: string

record env =
  isServer :: bool
  fetch :: "string \<Rightarrow> nat \<Rightarrow> error + response"
  encodeURIComponent :: "string \<Rightarrow> string"
  parseFromString :: "string \<Rightarrow> error + node"
  querySelector :: "node \<Rightarrow> string \<Rightarrow> error + node option"
  newURL :: "string \<Rightarrow> (string \<times> string \<times> string) option"
  durationInDoubles :: "string \<Rightarrow> string"
  now :: string

definition messageOr :: "error \<Rightarrow> string \<Rightarrow> string" where
  \<comment> \<open>\<^verbatim>\<open>error instanceof Error ? error.message : d\<close>; a \<^verbatim>\<open>TypeError\<close> is an \<^verbatim>\<open>Error\<close>\<close>
  "messageOr e d = (case e of ThrownUndefined \<Rightarrow> d | Error m \<Rightarrow> m | TypeError m \<Rightarrow> m)"

definition errorToString :: "error \<Rightarrow> string" where
  \<comment> \<open>string conversion of a thrown value, as in a template literal\<close>
  "errorToString e =
     (case e of
        ThrownUndefined \<Rightarrow> ''undefined''
      | Error m \<Rightarrow> ''Error: '' @ m
      | TypeError m \<Rightarrow> ''TypeError: '' @ m)"

text \<open>
  \<^verbatim>\<open>error.message\<close>, as the two retry callbacks of the module read it (lines 293 and
  752): reading a property of \<^verbatim>\<open>undefined\<close> throws a \<^verbatim>\<open>TypeError\<close>.
\<close>

definition errorMessage :: "error \<Rightarrow> error + string" where
  "errorMessage e =
     (case e of
        ThrownUndefined \<Rightarrow>
          Inl (TypeError (''Cannot read properties of undefined (reading '' @ [CHR 0x27]
                          @ ''message'' @ [CHR 0x27] @ '')''))
      | Error m \<Rightarrow> Inr m
      | TypeError m \<Rightarrow> Inr m)"

definition requestUrl :: "env \<Rightarrow> string \<Rightarrow> string" where
  \<comment> \<open>the URL passed to \<^verbatim>\<open>fetch\<close>: the feed URL on the server, the proxy in the browser\<close>
  "requestUrl env feedUrl' =
     (if isServer env then feedUrl'
      else if take (length ''/api/fetch-rss'') feedUrl' = ''/api/fetch-rss'' then feedUrl'
      else ''/api/fetch-rss?url='' @ encodeURIComponent env feedUrl')"

text \<open>
  In the definitions below a local variable of the source whose name is also a
  field name carries a prime (\<open>title'\<close> for \<^verbatim>\<open>title\<close>).
\<close>

section \<open>The single-feed extractor: \<^verbatim>\<open>parseAlbumFeed\<close>\<close>

text \<open>
  Document acquisition, lines 461 to 515: fetch, status check, the two checks of
  the body, XML parsing with the \<^verbatim>\<open>parsererror\<close> check (whose own throw is caught
  and wrapped by the surrounding \<^verbatim>\<open>catch\<close>), and the first \<^verbatim>\<open>channel\<close> element.
  The result is the document and its channel.
\<close>

definition acquireChannel :: "env \<Rightarrow> string \<Rightarrow> nat \<Rightarrow> error + (node \<times> node)" where
  "acquireChannel env feedUrl' attempt =
     (case fetch env (requestUrl env feedUrl') attempt of
        Inl e \<Rightarrow>
          Inl (Error (''Failed to fetch RSS feed: '' @ messageOr e ''Network error''))
      | Inr r \<Rightarrow>
          if \<not> ok r then
            Inl (Error (''Failed to fetch RSS feed: '' @ numToString (status r) @ '' ''
                        @ statusText r))
          else
            let xmlText = body r in
            if xmlText = [] \<or> length (trim xmlText) = 0 then
              Inl (Error ''Empty response from RSS feed'')
            else if CHR ''<'' \<notin> set xmlText \<or> CHR ''>'' \<notin> set xmlText then
              Inl (Error ''Response is not valid XML'')
            else
              (case (case parseFromString env xmlText of
                       Inl e \<Rightarrow> Inl e
                     | Inr xmlDoc \<Rightarrow>
                         (case first (getElementsByTagName xmlDoc ''parsererror'') of
                            Some parserError \<Rightarrow>
                              Inl (Error (''Invalid XML format: '' @ textContent parserError))
                          | None \<Rightarrow> Inr xmlDoc)) of
                 Inl e \<Rightarrow>
                   Inl (Error (''Failed to parse XML content: ''
                               @ messageOr e ''Parse error''))
               | Inr xmlDoc \<Rightarrow>
                   (case getElementsByTagName xmlDoc ''channel'' of
                      [] \<Rightarrow> Inl (Error ''Invalid RSS feed: no channel found'')
                    | channel # _ \<Rightarrow> Inr (xmlDoc, channel))))"

text \<open>
  \<^verbatim>\<open>el?.textContent?.trim().split(',').map(k => k.trim()).filter(k => k) || []\<close>
  for the first \<^verbatim>\<open>itunes:keywords\<close> element below a node.
\<close>

definition keywordList :: "node \<Rightarrow> string list" where
  "keywordList n =
     (case firstText n ''itunes:keywords'' of
        None \<Rightarrow> []
      | Some t \<Rightarrow> filter (\<lambda>k. k \<noteq> []) (map trim (split t '','')))"

definition nonEmptyList :: "'a list \<Rightarrow> 'a list option" where
  \<comment> \<open>\<^verbatim>\<open>xs.length > 0 ? xs : undefined\<close>\<close>
  "nonEmptyList xs = (if length xs > 0 then Some xs else None)"

definition explicitFlag :: "node \<Rightarrow> bool" where
  \<comment> \<open>\<^verbatim>\<open>el?.textContent?.trim().toLowerCase() === 'true'\<close> for the first \<^verbatim>\<open>itunes:explicit\<close>\<close>
  "explicitFlag n =
     (map_option toLowerCase (firstText n ''itunes:explicit'') = Some ''true'')"

text \<open>
  The duration text of an item, lines 587 to 595: that of \<^verbatim>\<open>itunes:duration\<close> when it
  is not blank, else that of \<^verbatim>\<open>duration\<close> when it is not blank, else \<^verbatim>\<open>'0:00'\<close>.
\<close>

definition durationText :: "node \<Rightarrow> string" where
  "durationText item =
     (let itunesDuration = firstText item ''itunes:duration'';
          durationElement = firstText item ''duration''
      in if truthy itunesDuration then the itunesDuration
         else if truthy durationElement then the durationElement
         else ''0:00'')"

text \<open>The body of the loop over the items, lines 583 to 646, for the item at index \<open>i\<close>.\<close>

definition trackOfItem :: "env \<Rightarrow> nat \<Rightarrow> node \<Rightarrow> RSSTrack" where
  "trackOfItem env i item =
     (let trackTitle = orDefault (firstText item ''title'') (''Track '' @ numToString (int i + 1));
          duration' = normalizeDuration (durationInDoubles env) (durationText item)
                        (Some trackTitle);
          url1 = (case first (getElementsByTagName item ''enclosure'') of
                    None \<Rightarrow> None
                  | Some enclosureElement \<Rightarrow> orElse (getAttribute enclosureElement ''url'') None);
          url2 = (if \<not> truthy url1 then
                    (case first (getElementsByTagName item ''link'') of
                       None \<Rightarrow> url1
                     | Some linkElement \<Rightarrow> orElse (Some (trim (textContent linkElement))) None)
                  else url1);
          url3 = (if \<not> truthy url2 then
                    (case first (getElementsByTagName item ''media:content'') of
                       None \<Rightarrow> url2
                     | Some mediaContent \<Rightarrow> orElse (getAttribute mediaContent ''url'') None)
                  else url2);
          trackSubtitle = firstText item ''itunes:subtitle'';
          trackSummary = firstText item ''itunes:summary'';
          trackImage = (case first (getElementsByTagName item ''itunes:image'') of
                          None \<Rightarrow> None
                        | Some trackImageEl \<Rightarrow>
                            orElse (getAttribute trackImageEl ''href'')
                                   (getAttribute trackImageEl ''url''));
          trackExplicit = explicitFlag item;
          trackKeywords = keywordList item
      in \<lparr>RSSTrack.title = trackTitle,
          RSSTrack.duration = duration',
          RSSTrack.url = url3,
          RSSTrack.trackNumber = Some (i + 1),
          RSSTrack.subtitle = cleanHtmlContent (toContent trackSubtitle),
          RSSTrack.summary = cleanHtmlContent (toContent trackSummary),
          RSSTrack.image = orElse trackImage None,
          RSSTrack.explicit = Some trackExplicit,
          RSSTrack.keywords = nonEmptyList trackKeywords\<rparr>)"

text \<open>The loop \<^verbatim>\<open>for (let i = 0; i < items.length; i++)\<close>, pushing one track per item.\<close>

fun tracksFrom :: "env \<Rightarrow> nat \<Rightarrow> node list \<Rightarrow> RSSTrack list" where
  "tracksFrom env i [] = []"
| "tracksFrom env i (item # rest) = trackOfItem env i item # tracksFrom env (Suc i) rest"

text \<open>Funding, lines 654 to 670; one element of either spelling.\<close>

definition fundingOf :: "node \<Rightarrow> RSSFunding list" where
  "fundingOf element =
     (let url' = orElse (getAttribute element ''url'') (Some (trim (textContent element)));
          message' = orElse (Some (trim (textContent element))) (getAttribute element ''message'')
      in if truthy url'
         then [\<lparr>RSSFunding.url = the url', RSSFunding.message = orElse message' None\<rparr>]
         else [])"

text \<open>Pod roll, lines 673 to 699; one remote item of a pod-roll container.\<close>

definition podrollOf :: "node \<Rightarrow> RSSPodRoll list" where
  "podrollOf remoteEl =
     (let feedUrl' = getAttribute remoteEl ''feedUrl'';
          feedGuid' = getAttribute remoteEl ''feedGuid'';
          title' = orElse (getAttribute remoteEl ''title'') (Some (trim (textContent remoteEl)));
          description' = getAttribute remoteEl ''description''
      in if truthy feedUrl'
         then [\<lparr>RSSPodRoll.url = the feedUrl',
                RSSPodRoll.title =
                  Some (orDefault title'
                          (''Feed '' @ (if truthy feedGuid' then take 8 (the feedGuid') @ ''...''
                                        else ''Unknown''))),
                RSSPodRoll.description = orElse description' None\<rparr>]
         else [])"

text \<open>
  The publisher link, lines 702 to 722: \<^verbatim>\<open>find\<close> over
  \<^verbatim>\<open>channel.getElementsByTagName('podcast:remoteItem')\<close>.
\<close>

definition publisherOf :: "node \<Rightarrow> RSSPublisher option" where
  "publisherOf channel =
     (let remoteItems = getElementsByTagName channel ''podcast:remoteItem'' in
      case find (\<lambda>element. getAttribute element ''medium'' = Some ''publisher'') remoteItems of
        None \<Rightarrow> None
      | Some element \<Rightarrow>
          let feedGuid' = getAttribute element ''feedGuid'';
              feedUrl' = getAttribute element ''feedUrl'';
              medium' = getAttribute element ''medium''
          in if truthy feedGuid' \<and> truthy feedUrl' \<and> truthy medium'
             then Some \<lparr>RSSPublisher.feedGuid = the feedGuid',
                        RSSPublisher.feedUrl = the feedUrl',
                        RSSPublisher.medium = the medium'\<rparr>
             else None)"

text \<open>
  The cover-art resolver \<^verbatim>\<open>extractCoverArt\<close>, lines 187 to 268. The variable
  \<^verbatim>\<open>coverArt\<close> is threaded through the five methods; each later method runs only
  while it is falsy. The three calls of \<^verbatim>\<open>querySelector\<close> (lines 194, 203 and 211)
  are not inside a \<^verbatim>\<open>try\<close>: what they throw leaves the function. The \<^verbatim>\<open>try\<close> of
  line 258 covers \<^verbatim>\<open>new URL\<close> only.
\<close>

text \<open>Method 4, lines 222 to 244, for the first item.\<close>

definition itemCoverArt :: "node \<Rightarrow> string option \<Rightarrow> string option" where
  "itemCoverArt firstItem coverArt0 =
     (let coverArt1 = (case first (getElementsByTagName firstItem ''itunes:image'') of
                         Some itemImageElement \<Rightarrow>
                           orElse (getAttribute itemImageElement ''href'') None
                       | None \<Rightarrow> coverArt0);
          coverArt2 = (if \<not> truthy coverArt1 then
                         (case first (getElementsByTagName firstItem ''media:content'') of
                            Some mediaContent \<Rightarrow>
                              if (case getAttribute mediaContent ''type'' of
                                    Some t \<Rightarrow> startsWith t ''image/''
                                  | None \<Rightarrow> False)
                              then orElse (getAttribute mediaContent ''url'') None
                              else coverArt1
                          | None \<Rightarrow> coverArt1)
                       else coverArt1);
          coverArt3 = (if \<not> truthy coverArt2 then
                         (case first (getElementsByTagName firstItem ''enclosure'') of
                            Some enclosure \<Rightarrow>
                              if (case getAttribute enclosure ''type'' of
                                    Some t \<Rightarrow> startsWith t ''image/''
                                  | None \<Rightarrow> False)
                              then orElse (getAttribute enclosure ''url'') None
                              else coverArt2
                          | None \<Rightarrow> coverArt2)
                       else coverArt2)
      in coverArt3)"

definition extractCoverArt :: "env \<Rightarrow> node \<Rightarrow> node list \<Rightarrow> error + string option" where
  "extractCoverArt env channel items =
     (case (case first (getElementsByTagName channel ''itunes:image'') of
              Some e \<Rightarrow> Inr (Some e)
            | None \<Rightarrow> querySelector env channel (''itunes'' @ [CHR 0x5C] @ '':image'')) of
        Inl thrown \<Rightarrow> Inl thrown
      | Inr imageElement \<Rightarrow>
          let coverArt1 = (case imageElement of
                             Some e \<Rightarrow> orElse (getAttribute e ''href'') None
                           | None \<Rightarrow> None)
          in
          (case (if \<not> truthy coverArt1 then
                   (case querySelector env channel ''image url'' of
                      Inl thrown \<Rightarrow> Inl thrown
                    | Inr None \<Rightarrow> Inr coverArt1
                    | Inr (Some imageUrl) \<Rightarrow>
                        Inr (orElse (Some (trim (textContent imageUrl))) None))
                 else Inr coverArt1) of
             Inl thrown \<Rightarrow> Inl thrown
           | Inr coverArt2 \<Rightarrow>
               (case (if \<not> truthy coverArt2 then
                        (case querySelector env channel ''image'' of
                           Inl thrown \<Rightarrow> Inl thrown
                         | Inr None \<Rightarrow> Inr coverArt2
                         | Inr (Some altImageElement) \<Rightarrow>
                             let altUrl = orElse (getAttribute altImageElement ''url'')
                                            (getAttribute altImageElement ''href'')
                             in Inr (if truthy altUrl then altUrl else coverArt2))
                      else Inr coverArt2) of
                  Inl thrown \<Rightarrow> Inl thrown
                | Inr coverArt3 \<Rightarrow>
                    let coverArt4 = (if \<not> truthy coverArt3 \<and> length items > 0
                                     then itemCoverArt (items ! 0) coverArt3
                                     else coverArt3);
                        coverArt5 =
                          (if \<not> truthy coverArt4 then
                             (let description' =
                                    orDefault (map_option textContent
                                      (first (getElementsByTagName channel ''description''))) []
                              in case matchImgSrc description' of
                                   Some src \<Rightarrow> Some src
                                 | None \<Rightarrow> coverArt4)
                           else coverArt4)
                    in Inr (if truthy coverArt5 then
                              (case newURL env (the coverArt5) of
                                 Some (protocol, host, pathname) \<Rightarrow>
                                   Some (protocol @ ''//'' @ host @ pathname)
                               | None \<Rightarrow> coverArt5)
                            else coverArt5))))"

text \<open>
  Field extraction, lines 517 to 746, from the document, its first channel and
  the cover art that \<^verbatim>\<open>extractCoverArt\<close> has returned (line 542).
\<close>

definition albumOf :: "env \<Rightarrow> node \<Rightarrow> node \<Rightarrow> string option \<Rightarrow> RSSAlbum" where
  "albumOf env xmlDoc channel coverArt' =
     (let title' = orDefault (firstText channel ''title'') ''Unknown Album'';
          description' = orDefault (firstText channel ''description'') '''';
          link' = orDefault (firstText channel ''link'') '''';
          authorElements = getElementsByTagName channel ''itunes:author'';
          authorElement = (if length authorElements > 0 then first authorElements
                           else first (getElementsByTagName channel ''author''));
          artist' = (case authorElement of
                       Some a \<Rightarrow> orDefault (Some (trim (textContent a))) ''Unknown Artist''
                     | None \<Rightarrow>
                         let titleParts = split title' '' - '' in
                         if length titleParts > 1 then trim (titleParts ! 0)
                         else ''Unknown Artist'');
          items = getElementsByTagName xmlDoc ''item'';
          subtitle' = firstText channel ''itunes:subtitle'';
          summary' = firstText channel ''itunes:summary'';
          language' = firstText channel ''language'';
          copyright' = firstText channel ''copyright'';
          explicit' = explicitFlag channel;
          keywords' = keywordList channel;
          categories' = map the (filter truthy
                          (map (\<lambda>cat. getAttribute cat ''text'')
                             (getElementsByTagName channel ''itunes:category'')));
          owner' = (case first (getElementsByTagName channel ''itunes:owner'') of
                      None \<Rightarrow> None
                    | Some ownerEl \<Rightarrow>
                        Some \<lparr>RSSOwner.name = firstText ownerEl ''itunes:name'',
                              RSSOwner.email = firstText ownerEl ''itunes:email''\<rparr>);
          tracks' = tracksFrom env 0 items;
          pubDateElement = (case first (getElementsByTagName channel ''pubDate'') of
                              Some e \<Rightarrow> Some e
                            | None \<Rightarrow> first (getElementsByTagName channel ''lastBuildDate''));
          releaseDate' = orDefault (map_option (\<lambda>e. trim (textContent e)) pubDateElement) (now env);
          funding' = concat (map fundingOf
                       (getElementsByTagName channel ''podcast:funding''
                        @ getElementsByTagName channel ''funding''));
          podroll' = concat (map (\<lambda>podrollEl.
                         concat (map podrollOf
                           (getElementsByTagName podrollEl ''podcast:remoteItem''
                            @ getElementsByTagName podrollEl ''remoteItem'')))
                       (getElementsByTagName channel ''podcast:podroll''
                        @ getElementsByTagName channel ''podroll''));
          publisher' = publisherOf channel
      in \<lparr>RSSAlbum.title = title',
          RSSAlbum.artist = artist',
          RSSAlbum.description = orDefault (cleanHtmlContent (Str description')) '''',
          RSSAlbum.coverArt = coverArt',
          RSSAlbum.tracks = tracks',
          RSSAlbum.releaseDate = releaseDate',
          RSSAlbum.duration = None,
          RSSAlbum.link = Some link',
          RSSAlbum.funding = nonEmptyList funding',
          RSSAlbum.subtitle = cleanHtmlContent (toContent subtitle'),
          RSSAlbum.summary = cleanHtmlContent (toContent summary'),
          RSSAlbum.keywords = nonEmptyList keywords',
          RSSAlbum.categories = nonEmptyList categories',
          RSSAlbum.explicit = Some explicit',
          RSSAlbum.language = language',
          RSSAlbum.copyright = copyright',
          RSSAlbum.owner = (case owner' of
                              None \<Rightarrow> None
                            | Some ow \<Rightarrow>
                                if truthy (RSSOwner.name ow) \<or> truthy (RSSOwner.email ow)
                                then Some ow else None),
          RSSAlbum.podroll = nonEmptyList podroll',
          RSSAlbum.publisher = publisher'\<rparr>)"

text \<open>
  One run of the operation passed to \<^verbatim>\<open>withRetry\<close> (the arrow function of lines 458
  to 748), as the attempt that follows \<open>attempt\<close> earlier ones.
\<close>

definition parseAlbumFeed_attempt :: "env \<Rightarrow> string \<Rightarrow> nat \<Rightarrow> error + RSSAlbum" where
  "parseAlbumFeed_attempt env feedUrl' attempt =
     (case acquireChannel env feedUrl' attempt of
        Inl e \<Rightarrow> Inl e
      | Inr (xmlDoc, channel) \<Rightarrow>
          (case extractCoverArt env channel (getElementsByTagName xmlDoc ''item'') of
             Inl e \<Rightarrow> Inl e
           | Inr coverArt' \<Rightarrow> Inr (albumOf env xmlDoc channel coverArt')))"

text \<open>
  A line of the diagnostic output. \<^verbatim>\<open>parseAlbumFeed\<close> wraps the operation in
  \<^verbatim>\<open>withRetry\<close> with 3 attempts and a base delay of 1000 ms, and turns a rejection
  into \<^verbatim>\<open>null\<close> with \<^verbatim>\<open>.catch\<close> (lines 748 to 757), so its promise always fulfils:
  with an album or with \<^verbatim>\<open>null\<close> (\<^const>\<open>None\<close>).
\<close>

datatype logLine = LogInfo string | LogWarn string | LogError string

definition parseAlbumFeed_options :: "string \<Rightarrow> logLine RetryOptions" where
  "parseAlbumFeed_options feedUrl' =
     \<lparr>maxRetries = Some 3, delay = Some 1000,
      onRetry = Some (\<lambda>attempt e.
        case errorMessage e of
          Inl thrown \<Rightarrow> Inl thrown
        | Inr m \<Rightarrow>
            Inr (LogWarn (''Retrying RSS feed parse (attempt '' @ numToString attempt @ '')'')))\<rparr>"

definition parseAlbumFeed :: "env \<Rightarrow> string \<Rightarrow> RSSAlbum option" where
  "parseAlbumFeed env feedUrl' =
     (case fst (withRetry (parseAlbumFeed_attempt env feedUrl') (parseAlbumFeed_options feedUrl')) of
        Inl e \<Rightarrow> None
      | Inr album \<Rightarrow> Some album)"

section \<open>The publisher-item listing: \<^verbatim>\<open>parsePublisherFeed\<close>\<close>

text \<open>
  \<^verbatim>\<open>parsePublisherFeedFromUrl\<close>, lines 787 to 848: an \<^verbatim>\<open>async\<close> method without
  \<^verbatim>\<open>try\<close>; whatever is thrown in it, or by the \<^verbatim>\<open>fetch\<close> and the parser it awaits,
  rejects its promise. It fetches once.
\<close>

definition publisherItemOf :: "node \<Rightarrow> RSSPublisherItem list" where
  "publisherItemOf element =
     (let medium' = getAttribute element ''medium'';
          feedGuid' = getAttribute element ''feedGuid'';
          feedUrl' = getAttribute element ''feedUrl'';
          title' = orElse (getAttribute element ''title'') (Some (trim (textContent element)))
      in if medium' = Some ''music'' \<and> truthy feedGuid' \<and> truthy feedUrl'
         then [\<lparr>RSSPublisherItem.feedGuid = the feedGuid',
                RSSPublisherItem.feedUrl = the feedUrl',
                RSSPublisherItem.medium = the medium',
                RSSPublisherItem.title = title'\<rparr>]
         else [])"

definition parsePublisherFeedFromUrl :: "env \<Rightarrow> string \<Rightarrow> error + RSSPublisherItem list" where
  "parsePublisherFeedFromUrl env feedUrl' =
     (case fetch env (requestUrl env feedUrl') 0 of
        Inl e \<Rightarrow> Inl e
      | Inr r \<Rightarrow>
          if \<not> ok r then
            Inl (Error (''Failed to fetch publisher feed: '' @ numToString (status r)))
          else
            (case parseFromString env (body r) of
               Inl e \<Rightarrow> Inl e
             | Inr xmlDoc \<Rightarrow>
                 (case first (getElementsByTagName xmlDoc ''parsererror'') of
                    Some parserError \<Rightarrow> Inl (Error ''Invalid XML format'')
                  | None \<Rightarrow>
                      (case getElementsByTagName xmlDoc ''channel'' of
                         [] \<Rightarrow> Inl (Error ''Invalid RSS feed: no channel found'')
                       | channel # _ \<Rightarrow>
                           Inr (concat (map publisherItemOf
                                  (getElementsByTagName channel ''podcast:remoteItem'')))))))"

text \<open>
  \<^verbatim>\<open>try\<close>/\<^verbatim>\<open>catch\<close> in an \<^verbatim>\<open>async\<close> function. The block of a \<^verbatim>\<open>try\<close> completes by a
  throw (\<^const>\<open>Inl\<close>) or by \<^verbatim>\<open>return\<close> of a value (\<^const>\<open>Inr\<close>); the handler runs on
  a throw only. A value returned by the block of \<^verbatim>\<open>parsePublisherFeed\<close> is the
  promise of \<^verbatim>\<open>parsePublisherFeedFromUrl\<close>, returned as it is (lines 769 and 777
  have no \<^verbatim>\<open>await\<close>): the block has completed normally before that promise
  settles, and the promise of the \<^verbatim>\<open>async\<close> function takes over the state of the
  promise it was resolved with. \<^verbatim>\<open>await p\<close> is what turns a rejection of \<open>p\<close>
  into a throw at that place.
\<close>

type_synonym 'a promise = "error + 'a"

definition tryCatch :: "error + 'b \<Rightarrow> (error \<Rightarrow> error + 'b) \<Rightarrow> error + 'b" where
  "tryCatch block handler = (case block of Inl e \<Rightarrow> handler e | Inr v \<Rightarrow> Inr v)"

definition await :: "'a promise \<Rightarrow> error + 'a" where
  "await p = p"

definition async :: "error + 'a promise \<Rightarrow> 'a promise" where
  \<comment> \<open>the promise of an \<^verbatim>\<open>async\<close> function whose body completes as given\<close>
  "async completion = (case completion of Inl e \<Rightarrow> Inl e | Inr p \<Rightarrow> p)"

text \<open>
  \<^verbatim>\<open>parsePublisherFeed\<close>, lines 763 to 782. The argument is a string, so the test
  \<^verbatim>\<open>typeof feedUrl !== 'string'\<close> of line 772, the only statement of the block
  that throws, is false.
\<close>

definition parsePublisherFeed :: "env \<Rightarrow> string \<Rightarrow> RSSPublisherItem list promise" where
  "parsePublisherFeed env feedUrl' =
     async (tryCatch
       (if feedUrl' = ''iroh-aggregated'' then
          Inr (parsePublisherFeedFromUrl env
                 ''https://wavlake.com/feed/artist/8a9c2e54-785a-4128-9412-737610f5d00a'')
        else Inr (parsePublisherFeedFromUrl env feedUrl'))
       (\<lambda>e. Inr (Inr [])))"

section \<open>The batch aggregator: \<^verbatim>\<open>parseMultipleFeedsInternal\<close>\<close>

text \<open>\<^verbatim>\<open>s.includes(sub)\<close>\<close>

fun "includes" :: "string \<Rightarrow> string \<Rightarrow> bool" where
  "includes [] sub = (sub = [])"
| "includes (c # cs) sub = (take (length sub) (c # cs) = sub \<or> includes cs sub)"

text \<open>
  The closure mapped over a window (lines 284 to 310). The operation retried is a
  fresh call of \<^verbatim>\<open>parseAlbumFeed\<close>, whose promise always fulfils. The closure
  awaits \<^verbatim>\<open>withRetry\<close> inside its \<^verbatim>\<open>try\<close>, so its own promise always fulfils too,
  with \<^verbatim>\<open>null\<close> after an error. With the promise come the lines the closure
  writes to the console. Of the console output, the lines written by
  \<^verbatim>\<open>parseMultipleFeedsInternal\<close> (lines 273 to 343) are modelled; those that
  \<^verbatim>\<open>parseAlbumFeed\<close> writes while it runs are not.
\<close>

definition memberOptions :: "logLine RetryOptions" where
  "memberOptions =
     \<lparr>maxRetries = Some 2, delay = Some 1000,
      onRetry = Some (\<lambda>attempt e.
        case errorMessage e of
          Inl thrown \<Rightarrow> Inl thrown
        | Inr m \<Rightarrow>
            Inr (LogWarn (''Retrying feed parse (attempt '' @ numToString attempt @ '')'')))\<rparr>"

definition notifications :: "'n event list \<Rightarrow> 'n list" where
  "notifications tr = concat (map (\<lambda>ev. case ev of Notified n \<Rightarrow> [n] | _ \<Rightarrow> []) tr)"

definition memberPromise :: "env \<Rightarrow> string \<Rightarrow> RSSAlbum option promise \<times> logLine list" where
  "memberPromise env url' =
     (case withRetry (\<lambda>calls. Inr (parseAlbumFeed env url')) memberOptions of
        (r, tr) \<Rightarrow>
          (case tryCatch (await r) (\<lambda>e. Inr None) of
             Inl e \<Rightarrow> (Inl e, notifications tr)
           | Inr v \<Rightarrow>
               (Inr v,
                notifications tr
                @ (case r of
                     Inr _ \<Rightarrow> []
                   | Inl e \<Rightarrow>
                       (case e of
                          TypeError m \<Rightarrow>
                            if includes m ''NetworkError''
                            then [LogError ''NetworkError when attempting to fetch resource.'',
                                  LogInfo ''Error details:'']
                            else [LogError (''Failed to parse feed '' @ url' @ '' after retries:'')]
                        | _ \<Rightarrow> [LogError (''Failed to parse feed '' @ url' @ '' after retries:'')])))))"

text \<open>
  \<^verbatim>\<open>Promise.allSettled\<close>: a result array with one slot per input promise; when
  the promise at index \<open>i\<close> settles, its outcome is written to slot \<open>i\<close>; when
  every slot has been written, the array is the result. The argument \<open>order\<close>
  lists the indices in the order in which the promises settle. \<^const>\<open>None\<close>
  means that the joined promise never settles.
\<close>

datatype 'a settled = Fulfilled 'a | Rejected error

definition settledOf :: "'a promise \<Rightarrow> 'a settled" where
  "settledOf p = (case p of Inl e \<Rightarrow> Rejected e | Inr v \<Rightarrow> Fulfilled v)"

definition allSettled :: "'a promise list \<Rightarrow> nat list \<Rightarrow> 'a settled list option" where
  "allSettled promises order =
     (let values = foldl (\<lambda>vs i. vs[i := Some (settledOf (promises ! i))])
                     (replicate (length promises) None) order
      in if None \<in> set values then None else Some (map the values))"

text \<open>
  The order in which the promises of a window settle is the environment's: each
  position of the input list has a time at which its promise settles (counted
  from the start of its window).
\<close>

record batchEnv = env +
  settleTime :: "nat \<Rightarrow> nat"

definition settleOrder :: "batchEnv \<Rightarrow> nat \<Rightarrow> nat \<Rightarrow> nat list" where
  "settleOrder benv i n = sort_key (\<lambda>j. settleTime benv (i + j)) [0..<n]"

definition batchSize :: nat where
  "batchSize = 20"

definition isSuccessful :: "RSSAlbum option settled \<Rightarrow> bool" where
  \<comment> \<open>\<^verbatim>\<open>result.status === 'fulfilled' && result.value !== null\<close>\<close>
  "isSuccessful r = (case r of Fulfilled (Some a) \<Rightarrow> True | _ \<Rightarrow> False)"

definition isFailed :: "RSSAlbum option settled \<Rightarrow> bool" where
  \<comment> \<open>\<^verbatim>\<open>result.status === 'rejected' || result.value === null\<close>\<close>
  "isFailed r = (case r of Rejected e \<Rightarrow> True | Fulfilled None \<Rightarrow> True | _ \<Rightarrow> False)"

definition valueOf :: "RSSAlbum option settled \<Rightarrow> RSSAlbum list" where
  "valueOf r = (case r of Fulfilled (Some a) \<Rightarrow> [a] | _ \<Rightarrow> [])"

definition ceilDiv :: "nat \<Rightarrow> nat \<Rightarrow> nat" where
  "ceilDiv a b = (a + b - 1) div b"

text \<open>
  The report of the failures of one window, lines 319 to 331. The URL printed
  for the \<open>index\<close>-th failure is \<^verbatim>\<open>batch[index]\<close>.
\<close>

definition failureLine :: "string list \<Rightarrow> nat \<times> RSSAlbum option settled \<Rightarrow> logLine list" where
  "failureLine batch ir =
     (case ir of
        (index, Rejected e) \<Rightarrow>
          [LogError (''Failed to parse feed '' @ batch ! index @ '': '' @ errorToString e)]
      | (index, Fulfilled None) \<Rightarrow> [LogError (''Feed '' @ batch ! index @ '' returned null'')]
      | (index, Fulfilled (Some a)) \<Rightarrow> [])"

definition failureReport :: "nat \<Rightarrow> string list \<Rightarrow> RSSAlbum option settled list \<Rightarrow> logLine list" where
  "failureReport batchNumber batch failed =
     (if length failed > 0 then
        LogWarn (''Failed to parse '' @ numToString (int (length failed)) @ '' feeds in batch ''
                 @ numToString (int batchNumber))
        # concat (map (failureLine batch) (zip [0..<length (take 3 failed)] (take 3 failed)))
        @ (if length failed > 3
           then [LogWarn (''... and '' @ numToString (int (length failed) - 3) @ '' more failures'')]
           else [])
      else [])"

text \<open>
  The body of the loop over the windows, lines 281 to 333, for the window that
  starts at index \<open>i\<close>: the albums it contributes and the console lines it
  writes (those of the closures in the order in which their promises settle).
\<close>

definition processBatch ::
  "batchEnv \<Rightarrow> string list \<Rightarrow> nat \<Rightarrow> (RSSAlbum list \<times> logLine list) option" where
  "processBatch benv feedUrls i =
     (let batch = take batchSize (drop i feedUrls);
          batchNumber = i div batchSize + 1;
          info = LogInfo (''Processing batch '' @ numToString (int batchNumber) @ ''/''
                   @ numToString (int (ceilDiv (length feedUrls) batchSize))
                   @ '' ('' @ numToString (int (length batch)) @ '' feeds)'');
          members = map (memberPromise (env.truncate benv)) batch;
          order = settleOrder benv i (length batch)
      in case allSettled (map fst members) order of
           None \<Rightarrow> None
         | Some batchResults \<Rightarrow>
             (let successful = filter isSuccessful batchResults;
                  failed = filter isFailed batchResults
              in Some (concat (map valueOf successful),
                       info # concat (map (\<lambda>j. snd (members ! j)) order)
                       @ failureReport batchNumber batch failed)))"

text \<open>
  The loop \<^verbatim>\<open>for (let i = 0; i < feedUrls.length; i += batchSize)\<close>, lines 280 to
  339, from the index \<open>i\<close> on, with the albums and the console lines collected so
  far. The wait of 50 ms between two windows does not change the result.
\<close>

function parseMultipleFeeds_loop ::
  "batchEnv \<Rightarrow> string list \<Rightarrow> nat \<Rightarrow> RSSAlbum list \<Rightarrow> logLine list
     \<Rightarrow> (RSSAlbum list \<times> logLine list) option" where
  "parseMultipleFeeds_loop benv feedUrls i results log =
     (if i < length feedUrls then
        (case processBatch benv feedUrls i of
           None \<Rightarrow> None
         | Some (albums, lines) \<Rightarrow>
             parseMultipleFeeds_loop benv feedUrls (i + batchSize) (results @ albums) (log @ lines))
      else Some (results, log))"
  by pat_completeness auto
termination
  by (relation "measure (\<lambda>(benv, feedUrls, i, results, log). length feedUrls - i)")
     (auto simp: batchSize_def)

definition parseMultipleFeedsInternal ::
  "batchEnv \<Rightarrow> string list \<Rightarrow> (RSSAlbum list \<times> logLine list) option" where
  "parseMultipleFeedsInternal benv feedUrls =
     (case parseMultipleFeeds_loop benv feedUrls 0 []
             [LogInfo (''Parsing '' @ numToString (int (length feedUrls)) @ '' RSS feeds...'')] of
        None \<Rightarrow> None
      | Some (results, log) \<Rightarrow>
          Some (results,
                log @ [LogInfo (''Successfully parsed '' @ numToString (int (length results))
                               @ '' albums from '' @ numToString (int (length feedUrls))
                               @ '' feeds'')]))"

section \<open>Notions used to state the properties\<close>

text \<open>
  The albums of the URLs that parse, in the order of the URLs; the number of URLs
  that do not; the windows of \<open>n\<close> consecutive elements of a list, the last one
  possibly shorter; error-level lines of the console.
\<close>

definition successes :: "env \<Rightarrow> string list \<Rightarrow> RSSAlbum list" where
  "successes env urls = List.map_filter (parseAlbumFeed env) urls"

definition failures :: "env \<Rightarrow> string list \<Rightarrow> nat" where
  "failures env urls = length (filter (\<lambda>u. parseAlbumFeed env u = None) urls)"

function windows :: "nat \<Rightarrow> 'a list \<Rightarrow> 'a list list" where
  "windows n xs = (if xs = [] \<or> n = 0 then [] else take n xs # windows n (drop n xs))"
  by pat_completeness auto
termination
  by (relation "measure (\<lambda>(n, xs). length xs)") auto

definition isErrorLine :: "logLine \<Rightarrow> bool" where
  "isErrorLine l = (case l of LogError m \<Rightarrow> True | _ \<Rightarrow> False)"

definition errorLines :: "logLine list \<Rightarrow> nat" where
  "errorLines log = length (filter isErrorLine log)"

text \<open>
  The reading of the specification in which the results of a window come in the
  order in which its promises settle: the successes of the window that starts
  at position \<open>i\<close>, taken in that order.
\<close>

definition spec_successes_in_completion_order :: "batchEnv \<Rightarrow> nat \<Rightarrow> string list \<Rightarrow> RSSAlbum list" where
  "spec_successes_in_completion_order benv i batch =
     List.map_filter (\<lambda>j. parseAlbumFeed (env.truncate benv) (batch ! j))
       (settleOrder benv i (length batch))"

text \<open>What \<^verbatim>\<open>Promise.allSettled\<close> delivers for a window: one result per URL, in the order of the URLs.\<close>

definition windowResults :: "env \<Rightarrow> string list \<Rightarrow> RSSAlbum option settled list" where
  "windowResults env batch = map (\<lambda>u. Fulfilled (parseAlbumFeed env u)) batch"


text \<open>
  The reading of the specification in which the publisher link is looked for
  among the children of the channel only: the remote items that are children of
  the channel itself.
\<close>

definition spec_directRemoteItems :: "node \<Rightarrow> node list" where
  "spec_directRemoteItems channel =
     filter (\<lambda>c. case c of Element t as cs \<Rightarrow> t = ''podcast:remoteItem'' | Text s \<Rightarrow> False)
       (children channel)"

text \<open>
  A field has no source when no element of its tag is below the node. What the
  code puts into the fields of a track and of an album whose sources are absent.
\<close>

definition absent :: "node \<Rightarrow> string \<Rightarrow> bool" where
  "absent n tag = (getElementsByTagName n tag = [])"

definition trackAbsentFields :: "nat \<Rightarrow> node \<Rightarrow> RSSTrack \<Rightarrow> bool" where
  "trackAbsentFields i item track =
     ((absent item ''title'' \<longrightarrow> RSSTrack.title track = ''Track '' @ numToString (int i + 1))
      \<and> (absent item ''itunes:duration'' \<and> absent item ''duration''
           \<longrightarrow> RSSTrack.duration track = ''0:00'')
      \<and> (absent item ''enclosure'' \<and> absent item ''link'' \<and> absent item ''media:content''
           \<longrightarrow> RSSTrack.url track = None)
      \<and> (absent item ''itunes:subtitle'' \<longrightarrow> RSSTrack.subtitle track = None)
      \<and> (absent item ''itunes:summary'' \<longrightarrow> RSSTrack.summary track = None)
      \<and> (absent item ''itunes:image'' \<longrightarrow> RSSTrack.image track = None)
      \<and> (absent item ''itunes:keywords'' \<longrightarrow> RSSTrack.keywords track = None)
      \<and> (absent item ''itunes:explicit'' \<longrightarrow> RSSTrack.explicit track = Some False))"

definition albumAbsentFields :: "env \<Rightarrow> node \<Rightarrow> node \<Rightarrow> RSSAlbum \<Rightarrow> bool" where
  "albumAbsentFields env xmlDoc channel album =
     ((absent channel ''title'' \<longrightarrow> RSSAlbum.title album = ''Unknown Album'')
      \<and> (absent channel ''itunes:author'' \<and> absent channel ''author'' \<and> absent channel ''title''
           \<longrightarrow> RSSAlbum.artist album = ''Unknown Artist'')
      \<and> (absent channel ''description'' \<longrightarrow> RSSAlbum.description album = [])
      \<and> (absent channel ''link'' \<longrightarrow> RSSAlbum.link album = Some [])
      \<and> (absent channel ''itunes:explicit'' \<longrightarrow> RSSAlbum.explicit album = Some False)
      \<and> (absent channel ''pubDate'' \<and> absent channel ''lastBuildDate''
           \<longrightarrow> RSSAlbum.releaseDate album = now env)
      \<and> (absent channel ''itunes:subtitle'' \<longrightarrow> RSSAlbum.subtitle album = None)
      \<and> (absent channel ''itunes:summary'' \<longrightarrow> RSSAlbum.summary album = None)
      \<and> (absent channel ''language'' \<longrightarrow> RSSAlbum.language album = None)
      \<and> (absent channel ''copyright'' \<longrightarrow> RSSAlbum.copyright album = None)
      \<and> (absent channel ''itunes:keywords'' \<longrightarrow> RSSAlbum.keywords album = None)
      \<and> (absent channel ''itunes:category'' \<longrightarrow> RSSAlbum.categories album = None)
      \<and> (absent channel ''itunes:owner'' \<longrightarrow> RSSAlbum.owner album = None)
      \<and> (absent channel ''podcast:funding'' \<and> absent channel ''funding''
           \<longrightarrow> RSSAlbum.funding album = None)
      \<and> (absent channel ''podcast:podroll'' \<and> absent channel ''podroll''
           \<longrightarrow> RSSAlbum.podroll album = None)
      \<and> (absent channel ''podcast:remoteItem'' \<longrightarrow> RSSAlbum.publisher album = None)
      \<and> RSSAlbum.duration album = None
      \<and> length (RSSAlbum.tracks album) = length (getElementsByTagName xmlDoc ''item'')
      \<and> (\<forall>i<length (getElementsByTagName xmlDoc ''item'').
            trackAbsentFields i (getElementsByTagName xmlDoc ''item'' ! i)
              (RSSAlbum.tracks album ! i)))"


text \<open>
  The texts that the duration normalizer of the specification converts: a number
  of seconds written in digits (rule 2), and the forms \<^verbatim>\<open>MM:SS\<close> and \<^verbatim>\<open>HH:MM:SS\<close> with
  valid components (rules 3 and 4), for which the minutes and the seconds of the
  result are given.
\<close>

definition secondsText :: "string \<Rightarrow> int option" where
  "secondsText s = (if s \<noteq> [] \<and> list_all isDigit s then parseInt s else None)"

definition colonText :: "string \<Rightarrow> (int \<times> int) option" where
  "colonText s =
     (case map parseInt (split s '':'') of
        [Some m, Some c] \<Rightarrow> if 0 \<le> m \<and> 0 \<le> c \<and> c < 60 then Some (m, c) else None
      | [Some h, Some m, Some c] \<Rightarrow>
          if 0 \<le> h \<and> 0 \<le> m \<and> m < 60 \<and> 0 \<le> c \<and> c < 60 then Some (h * 60 + m, c) else None
      | _ \<Rightarrow> None)"

text \<open>
  What the normalization rules say about the duration \<open>d\<close> made from the trimmed
  duration text \<open>s\<close>: \<^verbatim>\<open>0:00\<close> for an empty text; the conversion of a positive number
  of seconds and of a valid colon form; the text itself when it is neither a
  number in digits nor a valid colon form. For a text in digits with the value 0
  it says no more than that \<open>d\<close> is in the canonical form or is the text.
\<close>

definition durationRules :: "string \<Rightarrow> string \<Rightarrow> bool" where
  "durationRules s d =
     ((canonicalDuration d \<or> d = s)
      \<and> (if s = [] then d = ''0:00''
         else case secondsText s of
                Some n \<Rightarrow> 0 < n \<longrightarrow> d = minutesSeconds (n div 60) (n mod 60)
              | None \<Rightarrow>
                  (case colonText s of
                     Some (m, c) \<Rightarrow> d = minutesSeconds m c
                   | None \<Rightarrow> d = s)))"
section \<open>Example inputs\<close>

text \<open>
  An operation whose first two invocations fail and whose later ones succeed, an
  operation that always fails, a callback that records its arguments and returns,
  and a callback that throws.
\<close>

definition flaky :: "nat \<Rightarrow> error + nat" where
  "flaky calls = (if calls < 2 then Inl (Error ''down'') else Inr 42)"

definition failing :: "nat \<Rightarrow> error + nat" where
  "failing calls = Inl (Error ''down'')"

definition recording :: "int \<Rightarrow> error \<Rightarrow> int \<times> error" where
  "recording attempt e = (attempt, e)"

definition throwing :: "int \<Rightarrow> error \<Rightarrow> error + (int \<times> error)" where
  "throwing attempt e = Inl (Error ''callback failed'')"

text \<open>Two small feeds, as texts and as the documents a DOM parser makes of them.\<close>

definition xmlA :: string where
  "xmlA = ''<rss><channel><title>A</title></channel></rss>''"

definition docA :: node where
  "docA = Element ''#document'' []
            [Element ''rss'' [] [Element ''channel'' [] [Element ''title'' [] [Text ''A'']]]]"

definition xmlB :: string where
  "xmlB = ''<rss><channel><title>B</title></channel></rss>''"

definition docB :: node where
  "docB = Element ''#document'' []
            [Element ''rss'' [] [Element ''channel'' [] [Element ''title'' [] [Text ''B'']]]]"

text \<open>
  A feed with three items, the second without a title, the third with a duration
  that is no number; its only remote item with the medium \<^verbatim>\<open>publisher\<close> is inside
  the pod roll.
\<close>

definition xmlAlbum :: string where
  "xmlAlbum = ''<rss xmlns:itunes='' @ [CHR 0x22] @ ''http://www.itunes.com/dtds/podcast-1.0.dtd''
     @ [CHR 0x22] @ '' xmlns:podcast='' @ [CHR 0x22] @ ''https://podcastindex.org/namespace/1.0''
     @ [CHR 0x22] @ ''><channel><title>Nina - Tides</title>''
     @ ''<podcast:podroll><podcast:remoteItem medium='' @ [CHR 0x22] @ ''publisher'' @ [CHR 0x22]
     @ '' feedGuid='' @ [CHR 0x22] @ ''guid-7'' @ [CHR 0x22]
     @ '' feedUrl='' @ [CHR 0x22] @ ''https://feeds.example/p.xml'' @ [CHR 0x22]
     @ ''/></podcast:podroll>''
     @ ''<item><title>One</title><itunes:duration>125</itunes:duration></item>''
     @ ''<item><itunes:duration>1:02:03</itunes:duration></item>''
     @ ''<item><title>Three</title><itunes:duration>abc</itunes:duration></item>''
     @ ''</channel></rss>''"

definition channelAlbum :: node where
  "channelAlbum =
     Element ''channel'' []
       [Element ''title'' [] [Text ''Nina - Tides''],
        Element ''podcast:podroll'' []
          [Element ''podcast:remoteItem''
             [(''medium'', ''publisher''), (''feedGuid'', ''guid-7''),
              (''feedUrl'', ''https://feeds.example/p.xml'')] []],
        Element ''item'' []
          [Element ''title'' [] [Text ''One''], Element ''itunes:duration'' [] [Text ''125'']],
        Element ''item'' [] [Element ''itunes:duration'' [] [Text ''1:02:03'']],
        Element ''item'' []
          [Element ''title'' [] [Text ''Three''], Element ''itunes:duration'' [] [Text ''abc'']]]"

definition docAlbum :: node where
  "docAlbum =
     Element ''#document'' []
       [Element ''rss''
          [(''xmlns:itunes'', ''http://www.itunes.com/dtds/podcast-1.0.dtd''),
           (''xmlns:podcast'', ''https://podcastindex.org/namespace/1.0'')]
          [channelAlbum]]"

text \<open>
  The platform functions of the example environments. \<^verbatim>\<open>encodeURIComponent\<close> on
  code units below 256: the unreserved characters stay, every other one becomes
  the bytes of its UTF-8 encoding, each as \<^verbatim>\<open>%\<close> and two upper-case hexadecimal
  digits. \<^verbatim>\<open>querySelector\<close> of a browser for the three selectors the module uses,
  on a document parsed with namespaces: a type selector compares the local name
  of an element (its tag name without the prefix), so \<^verbatim>\<open>image\<close> matches an element
  with that local name in any namespace, \<^verbatim>\<open>image url\<close> an element \<^verbatim>\<open>url\<close> below such
  an element, and the selector of line 194, which asks for a local name with a
  colon, matches nothing. No example feed has a cover-art candidate or a duration text
  outside the exact range, so \<^verbatim>\<open>new URL\<close> and the double arithmetic of the example
  environments are never consulted.
\<close>

definition hexDigit :: "nat \<Rightarrow> char" where
  "hexDigit n = ''0123456789ABCDEF'' ! n"

definition percentByte :: "nat \<Rightarrow> string" where
  "percentByte n = [CHR ''%'', hexDigit (n div 16), hexDigit (n mod 16)]"

definition isUnreserved :: "char \<Rightarrow> bool" where
  "isUnreserved c =
     (let n = of_char c :: nat in
      (65 \<le> n \<and> n \<le> 90) \<or> (97 \<le> n \<and> n \<le> 122) \<or> (48 \<le> n \<and> n \<le> 57)
      \<or> c \<in> set ''-_.!~*()'' \<or> c = CHR 0x27)"

definition percentEncode :: "string \<Rightarrow> string" where
  "percentEncode s =
     concat (map (\<lambda>c. let n = of_char c :: nat in
                       if isUnreserved c then [c]
                       else if n < 128 then percentByte n
                       else percentByte (192 + n div 64) @ percentByte (128 + n mod 64)) s)"

definition localName :: "node \<Rightarrow> string" where
  "localName e =
     (let t = tagName e in
      if CHR '':'' \<in> set t then drop 1 (dropWhile (\<lambda>c. c \<noteq> CHR '':'') t) else t)"

definition descendants :: "node \<Rightarrow> node list" where
  "descendants n = concat (map elems (children n))"

definition browserQuerySelector :: "node \<Rightarrow> string \<Rightarrow> error + node option" where
  "browserQuerySelector n selector =
     (if selector = ''image'' then
        Inr (find (\<lambda>e. localName e = ''image'') (descendants n))
      else if selector = ''image url'' then
        Inr (find (\<lambda>e. localName e = ''url'')
               (concat (map descendants (filter (\<lambda>e. localName e = ''image'') (descendants n)))))
      else Inr None)"

definition xmldomQuerySelector :: "node \<Rightarrow> string \<Rightarrow> error + node option" where
  "xmldomQuerySelector n selector = Inl (TypeError ''channel.querySelector is not a function'')"

definition demoParser :: "string \<Rightarrow> error + node" where
  "demoParser t =
     (if t = xmlA then Inr docA
      else if t = xmlB then Inr docB
      else if t = xmlAlbum then Inr docAlbum
      else Inr (Element ''#document'' [] [Element ''parsererror'' [] [Text ''not well-formed'']]))"

text \<open>
  The feeds as the network serves them: \<^verbatim>\<open>https://feeds.example/a.xml\<close>,
  \<^verbatim>\<open>https://feeds.example/b.xml\<close> and \<^verbatim>\<open>https://feeds.example/album.xml\<close> answer with
  the three texts, every other URL answers 404. In the browser the module asks
  the proxy \<^verbatim>\<open>/api/fetch-rss\<close> of the application, which answers with what the URL in
  its query answers.
\<close>

definition demoFetch :: "string \<Rightarrow> nat \<Rightarrow> error + response" where
  "demoFetch u attempt =
     (if u = ''https://feeds.example/a.xml''
      then Inr \<lparr>ok = True, status = 200, statusText = ''OK'', body = xmlA\<rparr>
      else if u = ''https://feeds.example/b.xml''
      then Inr \<lparr>ok = True, status = 200, statusText = ''OK'', body = xmlB\<rparr>
      else if u = ''https://feeds.example/album.xml''
      then Inr \<lparr>ok = True, status = 200, statusText = ''OK'', body = xmlAlbum\<rparr>
      else Inr \<lparr>ok = False, status = 404, statusText = ''Not Found'', body = []\<rparr>)"

definition proxyFetch :: "string \<Rightarrow> nat \<Rightarrow> error + response" where
  "proxyFetch u attempt =
     (case find (\<lambda>direct. u = ''/api/fetch-rss?url='' @ percentEncode direct)
             [''https://feeds.example/a.xml'', ''https://feeds.example/b.xml'',
              ''https://feeds.example/album.xml''] of
        Some direct \<Rightarrow> demoFetch direct attempt
      | None \<Rightarrow> Inr \<lparr>ok = False, status = 404, statusText = ''Not Found'', body = []\<rparr>)"

text \<open>
  The module in a browser, and the module on the server, where the parser is that
  of \<^verbatim>\<open>@xmldom/xmldom\<close>.
\<close>

definition demoEnv :: env where
  "demoEnv = \<lparr>isServer = False, fetch = proxyFetch, encodeURIComponent = percentEncode,
              parseFromString = demoParser, querySelector = browserQuerySelector,
              newURL = (\<lambda>s. None), durationInDoubles = (\<lambda>s. s),
              now = ''2024-01-01T00:00:00.000Z''\<rparr>"

definition serverEnv :: env where
  "serverEnv = \<lparr>isServer = True, fetch = demoFetch, encodeURIComponent = percentEncode,
                parseFromString = demoParser, querySelector = xmldomQuerySelector,
                newURL = (\<lambda>s. None), durationInDoubles = (\<lambda>s. s),
                now = ''2024-01-01T00:00:00.000Z''\<rparr>"

text \<open>The same environment with the second promise of a window settling before the first.\<close>

definition demoBatchEnv :: batchEnv where
  "demoBatchEnv = env.extend demoEnv (batchEnv.fields (\<lambda>position. 100 - position))"

text \<open>The albums of the two feeds, and a list of 25 URLs whose 5th and 17th answer 404.\<close>

definition albumA :: RSSAlbum where
  "albumA = \<lparr>RSSAlbum.title = ''A'', artist = ''Unknown Artist'', description = [],
     coverArt = None, tracks = [],
     releaseDate = ''2024-01-01T00:00:00.000Z'', duration = None,
     link = Some [], funding = None, subtitle = None, summary = None,
     keywords = None, categories = None, explicit = Some False,
     language = None, copyright = None, owner = None, podroll = None,
     publisher = None\<rparr>"

definition albumB :: RSSAlbum where
  "albumB = albumA\<lparr>RSSAlbum.title := ''B''\<rparr>"

definition urls25 :: "string list" where
  "urls25 = replicate 4 ''https://feeds.example/a.xml'' @ [''https://feeds.example/gone-1.xml'']
            @ replicate 11 ''https://feeds.example/b.xml'' @ [''https://feeds.example/gone-2.xml'']
            @ replicate 8 ''https://feeds.example/a.xml''"

text \<open>The album of the feed with three items.\<close>

definition albumTides :: RSSAlbum where
  "albumTides =
     \<lparr>RSSAlbum.title = ''Nina - Tides'', artist = ''Nina'', description = [],
      coverArt = None,
      tracks =
        [\<lparr>RSSTrack.title = ''One'', duration = ''2:05'', url = None,
            trackNumber = Some 1, subtitle = None, summary = None,
            image = None, explicit = Some False, keywords = None\<rparr>,
         \<lparr>RSSTrack.title = ''Track 2'', duration = ''62:03'', url = None,
            trackNumber = Some 2, subtitle = None, summary = None,
            image = None, explicit = Some False, keywords = None\<rparr>,
         \<lparr>RSSTrack.title = ''Three'', duration = ''abc'', url = None,
            trackNumber = Some 3, subtitle = None, summary = None,
            image = None, explicit = Some False, keywords = None\<rparr>],
      releaseDate = ''2024-01-01T00:00:00.000Z'', duration = None,
      link = Some [], funding = None, subtitle = None, summary = None,
      keywords = None, categories = None, explicit = Some False,
      language = None, copyright = None, owner = None,
      podroll = Some [\<lparr>RSSPodRoll.url = ''https://feeds.example/p.xml'',
                        title = Some ''Feed guid-7...'', description = None\<rparr>],
      publisher = Some \<lparr>RSSPublisher.feedGuid = ''guid-7'',
                         feedUrl = ''https://feeds.example/p.xml'', medium = ''publisher''\<rparr>\<rparr>"

section \<open>Properties of the text cleaning\<close>

lemma removeTags_no_lt: "CHR ''<'' \<notin> set s \<Longrightarrow> removeTags s = s"
  by (induction s) auto

lemma replaceAll_no_head:
  assumes "pat \<noteq> []" and "hd pat \<notin> set s"
  shows "replaceAll pat rep s = s"
  using assms(2)
proof (induction s)
  case Nil
  then show ?case by simp
next
  case (Cons c cs)
  have "take (length pat) (c # cs) \<noteq> pat"
  proof
    assume "take (length pat) (c # cs) = pat"
    then have "hd pat = c" using assms(1) by (cases pat) auto
    with Cons.prems show False by simp
  qed
  with Cons show ?case by simp
qed

lemma trim_all_white: "list_all isWhiteSpace s \<Longrightarrow> trim s = []"
proof -
  assume "list_all isWhiteSpace s"
  then have d: "dropWhile isWhiteSpace s = []"
    by (induction s) auto
  show ?thesis unfolding trim_def d by simp
qed

lemma white_not_lt: "isWhiteSpace c \<Longrightarrow> c \<noteq> CHR ''<''"
  by (auto simp: isWhiteSpace_def)

lemma white_not_amp: "isWhiteSpace c \<Longrightarrow> c \<noteq> CHR ''&''"
  by (auto simp: isWhiteSpace_def)

lemma clean_white:
  assumes "s \<noteq> []" and "list_all isWhiteSpace s"
  shows "cleanHtmlContent (Str s) = Some []"
proof -
  have lt: "CHR ''<'' \<notin> set s" and amp: "CHR ''&'' \<notin> set s"
    using assms(2) white_not_lt white_not_amp by (auto simp: list_all_iff)
  have r: "\<And>pat rep. pat \<noteq> [] \<Longrightarrow> hd pat = CHR ''&'' \<Longrightarrow> replaceAll pat rep s = s"
    using amp by (simp add: replaceAll_no_head)
  show ?thesis
    using assms
    by (simp add: cleanHtmlContent_def stripAndDecode_def removeTags_no_lt [OF lt] r
        trim_all_white)
qed

text \<open>
  C9 (as the code behaves). The replacements are chained: the text produced by
  decoding \<^verbatim>\<open>&amp;\<close> is scanned by the later replacements, so \<^verbatim>\<open>&amp;lt;\<close> is
  first turned into \<^verbatim>\<open>&lt;\<close> and then into \<^verbatim>\<open><\<close>: the entity that arose from
  decoding another one is decoded again.
\<close>

theorem cleanHtmlContent_decodes_twice:
  "cleanHtmlContent (Str ''&amp;lt;'') = Some ''<''"
  by (simp add: cleanHtmlContent_def stripAndDecode_def trim_def isWhiteSpace_def)

text \<open>
  C10. \<^verbatim>\<open>undefined\<close> is returned exactly for \<^verbatim>\<open>null\<close>, \<^verbatim>\<open>undefined\<close> and the empty
  string. A non-empty string made of white space only, and any non-empty string
  that is empty after tag removal, entity decoding and trimming (for instance
  \<^verbatim>\<open><b></b>\<close>), gives the empty string, not \<^verbatim>\<open>undefined\<close>.
\<close>

theorem cleanHtmlContent_undefined_iff:
  "(cleanHtmlContent c = None \<longleftrightarrow> c = Null \<or> c = Undefined \<or> c = Str [])
   \<and> (s \<noteq> [] \<and> list_all isWhiteSpace s \<longrightarrow> cleanHtmlContent (Str s) = Some [])
   \<and> (t \<noteq> [] \<and> trim (stripAndDecode t) = [] \<longrightarrow> cleanHtmlContent (Str t) = Some [])
   \<and> cleanHtmlContent (Str ''<b></b>'') = Some []"
proof -
  have a: "cleanHtmlContent c = None \<longleftrightarrow> c = Null \<or> c = Undefined \<or> c = Str []"
    by (cases c) (simp_all add: cleanHtmlContent_def)
  have b: "s \<noteq> [] \<and> list_all isWhiteSpace s \<longrightarrow> cleanHtmlContent (Str s) = Some []"
    using clean_white by blast
  have c: "t \<noteq> [] \<and> trim (stripAndDecode t) = [] \<longrightarrow> cleanHtmlContent (Str t) = Some []"
    by (simp add: cleanHtmlContent_def)
  have d: "cleanHtmlContent (Str ''<b></b>'') = Some []"
    by (simp add: cleanHtmlContent_def stripAndDecode_def trim_def)
  from a b c d show ?thesis by blast
qed

theorem cleanHtmlContent_undefined_iff_witness:
  "cleanHtmlContent (Str ''x'') \<noteq> None
   \<and> cleanHtmlContent (Str [CHR 0x20, CHR 0x09]) = Some []
   \<and> cleanHtmlContent (Str ''<i> </i>'') = Some []"
proof -
  have w: "list_all isWhiteSpace [CHR 0x20, CHR 0x09]"
    by (simp add: isWhiteSpace_def)
  have e: "trim (stripAndDecode ''<i> </i>'') = []"
    by (simp add: stripAndDecode_def trim_def isWhiteSpace_def)
  show ?thesis
    using cleanHtmlContent_undefined_iff
      [of "Str ''x''" "[CHR 0x20, CHR 0x09]" "''<i> </i>''"] w e
    by simp
qed

section \<open>Properties of the retry wrapper\<close>

declare withRetry_loop.simps [simp del]

lemma finiteBackoff_mono:
  assumes "finiteBackoff dly b" and "a \<le> b"
  shows "finiteBackoff dly a"
proof -
  have "(2::int) ^ nat (a - 1) \<le> 2 ^ nat (b - 1)"
    using assms(2) by (intro power_increasing) simp_all
  then have "\<bar>dly\<bar> * 2 ^ nat (a - 1) \<le> \<bar>dly\<bar> * 2 ^ nat (b - 1)"
    by (intro mult_left_mono) simp_all
  with assms show ?thesis by (simp add: finiteBackoff_def)
qed

lemma withRetry_loop_step:
  assumes "fn c = Inl e" and "int c + 1 < maxR" and "finiteBackoff dly (maxR - 1)"
  shows "withRetry_loop fn maxR dly (returning cb) (int c + 1) c le
         = (fst (withRetry_loop fn maxR dly (returning cb) (int (Suc c) + 1) (Suc c) e),
            failed_attempt dly cb c e
            @ snd (withRetry_loop fn maxR dly (returning cb) (int (Suc c) + 1) (Suc c) e))"
proof -
  have "finiteBackoff dly (int c + 1)"
    using assms(2) by (intro finiteBackoff_mono [OF assms(3)]) simp
  with assms(1,2) show ?thesis
    by (subst withRetry_loop.simps, cases cb)
       (simp_all add: failed_attempt_def returning_def split: prod.splits
          add: add.commute add.left_commute)
qed

lemma withRetry_loop_success:
  assumes "\<forall>i<n. fn (c + i) = Inl (errs (c + i))"
    and "fn (c + n) = Inr v"
    and "int (c + n) + 1 \<le> maxR"
    and fin: "finiteBackoff dly (maxR - 1)"
  shows "withRetry_loop fn maxR dly (returning cb) (int c + 1) c le
         = (Inr v, concat (map (\<lambda>i. failed_attempt dly cb i (errs i)) [c..<c + n])
                   @ [Invoked (int (c + n) + 1)])"
  using assms
proof (induction n arbitrary: c le)
  case 0
  then show ?case
    by (subst withRetry_loop.simps) simp
next
  case (Suc n)
  have f0: "fn c = Inl (errs c)" using Suc.prems(1) [rule_format, of 0] by simp
  have lt: "int c + 1 < maxR" using Suc.prems(3) by simp
  have rest: "\<forall>i<n. fn (Suc c + i) = Inl (errs (Suc c + i))"
    using Suc.prems(1) by (metis Suc_less_eq add_Suc_right add_Suc_shift)
  have ih: "withRetry_loop fn maxR dly (returning cb) (int (Suc c) + 1) (Suc c) (errs c)
            = (Inr v, concat (map (\<lambda>i. failed_attempt dly cb i (errs i)) [Suc c..<Suc c + n])
                      @ [Invoked (int (Suc c + n) + 1)])"
    using Suc.IH [OF rest _ _ Suc.prems(4), of "errs c"] Suc.prems(2,3) by simp
  have up: "[c..<c + Suc n] = c # [Suc c..<Suc c + n]"
    by (simp add: upt_conv_Cons)
  show ?case
    unfolding withRetry_loop_step [of fn c "errs c" maxR, OF f0 lt Suc.prems(4)] ih up by simp
qed

lemma withRetry_loop_exhausted:
  assumes "\<forall>i\<le>n. fn (c + i) = Inl (errs (c + i))"
    and "int (c + n) + 1 = maxR"
    and fin: "finiteBackoff dly (maxR - 1)"
  shows "withRetry_loop fn maxR dly (returning cb) (int c + 1) c le
         = (Inl (errs (c + n)),
            concat (map (\<lambda>i. failed_attempt dly cb i (errs i)) [c..<c + n])
            @ [Invoked (int (c + n) + 1)])"
  using assms
proof (induction n arbitrary: c le)
  case 0
  then show ?case
    by (subst withRetry_loop.simps) simp
next
  case (Suc n)
  have f0: "fn c = Inl (errs c)" using Suc.prems(1) [rule_format, of 0] by simp
  have lt: "int c + 1 < maxR" using Suc.prems(2) by simp
  have rest: "\<forall>i\<le>n. fn (Suc c + i) = Inl (errs (Suc c + i))"
    using Suc.prems(1) by (metis Suc_le_mono add_Suc_right add_Suc_shift)
  have ih: "withRetry_loop fn maxR dly (returning cb) (int (Suc c) + 1) (Suc c) (errs c)
            = (Inl (errs (Suc c + n)),
               concat (map (\<lambda>i. failed_attempt dly cb i (errs i)) [Suc c..<Suc c + n])
               @ [Invoked (int (Suc c + n) + 1)])"
    using Suc.IH [OF rest _ Suc.prems(3), of "errs c"] Suc.prems(2) by simp
  have up: "[c..<c + Suc n] = c # [Suc c..<Suc c + n]"
    by (simp add: upt_conv_Cons)
  show ?case
    unfolding withRetry_loop_step [of fn c "errs c" maxR, OF f0 lt Suc.prems(3)] ih up by simp
qed

lemma withRetry_unfold:
  "withRetry fn options
   = withRetry_loop fn (attemptsOf options) (baseDelayOf options) (onRetry options)
       (int 0 + 1) 0 ThrownUndefined"
  by (simp add: withRetry_def attemptsOf_def baseDelayOf_def)

lemma withRetry_first_success:
  "1 \<le> attemptsOf options \<Longrightarrow> fn 0 = Inr v \<Longrightarrow> withRetry fn options = (Inr v, [Invoked 1])"
  unfolding withRetry_unfold by (subst withRetry_loop.simps) simp

lemma withRetry_single_attempt:
  "attemptsOf options = 1 \<Longrightarrow> fn 0 = Inl e \<Longrightarrow> withRetry fn options = (Inl e, [Invoked 1])"
  unfolding withRetry_unfold by (subst withRetry_loop.simps) simp

lemma withRetry_success:
  assumes "1 \<le> k" and "int k \<le> attemptsOf options"
    and "\<forall>i<k - 1. fn i = Inl (errs i)" and "fn (k - 1) = Inr v"
    and cb: "onRetry options = returning cb"
    and fin: "finiteDelays options"
  shows "withRetry fn options
         = (Inr v,
            concat (map (\<lambda>i. failed_attempt (baseDelayOf options) cb i (errs i))
                      [0..<k - 1])
            @ [Invoked (int k)])"
proof -
  have a: "\<forall>i<k - 1. fn (0 + i) = Inl (errs (0 + i))" using assms(3) by simp
  have b: "fn (0 + (k - 1)) = Inr v" using assms(4) by simp
  have c: "int (0 + (k - 1)) + 1 \<le> attemptsOf options" using assms(1,2) by simp
  have d: "int (0 + (k - 1)) + 1 = int k" using assms(1) by simp
  show ?thesis
    unfolding withRetry_unfold cb
      withRetry_loop_success [OF a b c fin [unfolded finiteDelays_def]] d by simp
qed

lemma withRetry_exhausted:
  assumes "1 \<le> attemptsOf options"
    and "\<forall>i<nat (attemptsOf options). fn i = Inl (errs i)"
    and cb: "onRetry options = returning cb"
    and fin: "finiteDelays options"
  shows "withRetry fn options
         = (Inl (errs (nat (attemptsOf options) - 1)),
            concat (map (\<lambda>i. failed_attempt (baseDelayOf options) cb i (errs i))
                      [0..<nat (attemptsOf options) - 1])
            @ [Invoked (attemptsOf options)])"
proof -
  define n where "n = nat (attemptsOf options) - 1"
  have a: "\<forall>i\<le>n. fn (0 + i) = Inl (errs (0 + i))"
    using assms(1,2) by (auto simp: n_def)
  have c: "int (0 + n) + 1 = attemptsOf options" using assms(1) by (simp add: n_def)
  show ?thesis
    unfolding withRetry_unfold cb
      withRetry_loop_exhausted [OF a c fin [unfolded finiteDelays_def]] n_def [symmetric]
    using c by simp
qed

declare spec_retry.simps [simp del]

lemma withRetry_loop_spec:
  "attempt \<le> maxR \<Longrightarrow> finiteBackoff dly (maxR - 1) \<Longrightarrow>
   withRetry_loop fn maxR dly (returning cb) attempt calls le
   = spec_retry fn maxR dly cb attempt calls"
proof (induction fn maxR dly cb attempt calls arbitrary: le rule: spec_retry.induct)
  case (1 fn maxR dly cb attempt calls)
  show ?case
  proof (cases "fn calls")
    case (Inr v)
    with "1.prems"(1) show ?thesis
      by (subst withRetry_loop.simps, subst spec_retry.simps) simp
  next
    case (Inl e)
    show ?thesis
    proof (cases "attempt < maxR")
      case True
      then have "attempt + 1 \<le> maxR" by simp
      from "1.IH" [OF Inl True this "1.prems"(2)]
      have "withRetry_loop fn maxR dly (returning cb) (attempt + 1) (Suc calls) e
            = spec_retry fn maxR dly cb (attempt + 1) (Suc calls)" .
      moreover have "finiteBackoff dly attempt"
        using True by (intro finiteBackoff_mono [OF "1.prems"(2)]) simp
      ultimately show ?thesis
        using Inl True
        by (subst withRetry_loop.simps, subst spec_retry.simps, cases cb)
           (simp_all add: Let_def returning_def)
    next
      case False
      with "1.prems"(1) have "attempt = maxR" by simp
      with Inl show ?thesis
        by (subst withRetry_loop.simps, subst spec_retry.simps) simp
    qed
  qed
qed

lemma withRetry_spec:
  "1 \<le> attemptsOf options \<Longrightarrow> onRetry options = returning cb \<Longrightarrow> finiteDelays options \<Longrightarrow>
   withRetry fn options
   = spec_retry fn (attemptsOf options) (baseDelayOf options) cb 1 0"
  unfolding withRetry_unfold by (simp add: withRetry_loop_spec finiteDelays_def)

lemma upt_0_2: "[0..<2] = [0, Suc 0]"
  by (simp add: numeral_2_eq_2)

lemma withRetry_twice_then_success:
  assumes "3 \<le> attemptsOf options" and "onRetry options = returning (Some f)"
    and "fn 0 = Inl e1" and "fn 1 = Inl e2" and "fn 2 = Inr v"
    and fin: "finiteDelays options"
  shows "withRetry fn options
         = (Inr v, [Invoked 1, Notified (f 1 e1), Waited (baseDelayOf options * 2 ^ 0),
                    Invoked 2, Notified (f 2 e2), Waited (baseDelayOf options * 2 ^ 1),
                    Invoked 3])"
proof -
  define errs where "errs = (\<lambda>i::nat. if i = 0 then e1 else e2)"
  have a: "\<forall>i<3 - 1. fn i = Inl (errs i)"
    using assms(3,4) by (auto simp: errs_def less_Suc_eq numeral_2_eq_2)
  have b: "fn (3 - 1) = Inr v" using assms(5) by simp
  have c: "int 3 \<le> attemptsOf options" using assms(1) by simp
  show ?thesis
    unfolding withRetry_success [of 3 options fn errs v "Some f", OF _ c a b assms(2) fin, simplified]
    by (simp add: failed_attempt_def errs_def upt_0_2)
qed

text \<open>
  C4, for a maximum attempt count of at least 1 and a callback that returns. Let
  \<open>m\<close> be the attempt count in force (\<^term>\<open>attemptsOf options\<close>) and \<open>d\<close> the base
  delay, with every delay of the run a finite number.
  \<^item> When \<open>1 \<le> m\<close> and the first invocation of the operation succeeds, its value is
    returned and nothing else is invoked, whatever the callback and the delay.
  \<^item> When the operation fails \<open>k - 1\<close> times and succeeds at its \<open>k\<close>-th invocation,
    with \<open>1 \<le> k \<le> m\<close>, the value of that invocation is returned and nothing is
    invoked after it; each of the failures before it is followed by the callback
    (when there is one) with the attempt number and the error, and by a wait of
    \<open>d * 2 ^ (attempt - 1)\<close> ms.
  \<^item> When \<open>1 \<le> m\<close> and the first \<open>m\<close> invocations fail, the error of the last of them
    is thrown; the callback and the wait follow the first \<open>m - 1\<close> failures only.
  \<^item> When \<open>1 \<le> m\<close> the run is that of the wrapper as the specification words it.
  \<^item> In particular an operation that fails twice and then succeeds gives its value,
    with the callback invoked exactly twice and the waits \<open>d * 2 ^ 0\<close>, \<open>d * 2 ^ 1\<close>.
\<close>

theorem withRetry_contract:
  "(1 \<le> attemptsOf options \<and> fn 0 = Inr v0
      \<longrightarrow> withRetry fn options = (Inr v0, [Invoked 1]))
   \<and> (1 \<le> k \<and> int k \<le> attemptsOf options \<and> onRetry options = returning cb
        \<and> finiteDelays options
        \<and> (\<forall>i<k - 1. fn i = Inl (errs i)) \<and> fn (k - 1) = Inr v
      \<longrightarrow> withRetry fn options
          = (Inr v,
             concat (map (\<lambda>i. failed_attempt (baseDelayOf options) cb i (errs i)) [0..<k - 1])
             @ [Invoked (int k)]))
   \<and> (1 \<le> attemptsOf options \<and> onRetry options = returning cb \<and> finiteDelays options
        \<and> (\<forall>i<nat (attemptsOf options). fn i = Inl (errs i))
      \<longrightarrow> withRetry fn options
          = (Inl (errs (nat (attemptsOf options) - 1)),
             concat (map (\<lambda>i. failed_attempt (baseDelayOf options) cb i (errs i))
                       [0..<nat (attemptsOf options) - 1])
             @ [Invoked (attemptsOf options)]))
   \<and> (1 \<le> attemptsOf options \<and> onRetry options = returning cb \<and> finiteDelays options
      \<longrightarrow> withRetry fn options
          = spec_retry fn (attemptsOf options) (baseDelayOf options) cb 1 0)
   \<and> (3 \<le> attemptsOf options \<and> onRetry options = returning (Some f) \<and> finiteDelays options
        \<and> fn 0 = Inl e1 \<and> fn 1 = Inl e2 \<and> fn 2 = Inr w
      \<longrightarrow> withRetry fn options
          = (Inr w, [Invoked 1, Notified (f 1 e1), Waited (baseDelayOf options * 2 ^ 0),
                     Invoked 2, Notified (f 2 e2), Waited (baseDelayOf options * 2 ^ 1),
                     Invoked 3]))"
  using withRetry_first_success [of options fn v0]
    withRetry_success [of k options fn errs v cb]
    withRetry_exhausted [of options fn errs cb]
    withRetry_spec [of options cb fn]
    withRetry_twice_then_success [of options f fn e1 e2 w]
  by blast

theorem withRetry_contract_witness:
  "withRetry flaky \<lparr>maxRetries = Some 3, delay = Some 1000, onRetry = returning (Some recording)\<rparr>
   = (Inr 42, [Invoked 1, Notified (1, Error ''down''), Waited 1000,
               Invoked 2, Notified (2, Error ''down''), Waited 2000, Invoked 3])
   \<and> withRetry failing \<lparr>maxRetries = Some 2, delay = Some 500, onRetry = returning (Some recording)\<rparr>
     = (Inl (Error ''down''), [Invoked 1, Notified (1, Error ''down''), Waited 500, Invoked 2])
   \<and> withRetry failing \<lparr>maxRetries = Some 2, delay = Some 500, onRetry = returning (Some recording)\<rparr>
     = spec_retry failing 2 500 (Some recording) 1 0
   \<and> withRetry (flaky \<circ> (+) 2) \<lparr>maxRetries = Some 1, delay = None, onRetry = Some throwing\<rparr>
     = (Inr 42, [Invoked 1])"
proof -
  let ?o = "\<lparr>maxRetries = Some 3, delay = Some 1000, onRetry = returning (Some recording)\<rparr>"
  let ?o2 = "\<lparr>maxRetries = Some 2, delay = Some 500, onRetry = returning (Some recording)\<rparr>"
  let ?o1 = "\<lparr>maxRetries = Some 1, delay = None, onRetry = Some throwing\<rparr>"
  have f: "finiteDelays ?o" and f2: "finiteDelays ?o2"
    by (simp_all add: finiteDelays_def finiteBackoff_def attemptsOf_def baseDelayOf_def)
  have a: "withRetry flaky ?o
           = (Inr 42, [Invoked 1, Notified (1, Error ''down''), Waited 1000,
               Invoked 2, Notified (2, Error ''down''), Waited 2000, Invoked 3])"
    using withRetry_contract [of ?o flaky 0 3 "Some recording" "\<lambda>_. Error ''down''" 42 recording
        "Error ''down''" "Error ''down''" 42,
        THEN conjunct2, THEN conjunct2, THEN conjunct2, THEN conjunct2] f
    by (simp add: attemptsOf_def baseDelayOf_def flaky_def recording_def)
  have b: "withRetry failing ?o2
           = (Inl (Error ''down''), [Invoked 1, Notified (1, Error ''down''), Waited 500, Invoked 2])"
    using withRetry_contract [of ?o2 failing 0 1 "Some recording" "\<lambda>_. Error ''down''" 0 recording
        "Error ''down''" "Error ''down''" 0,
        THEN conjunct2, THEN conjunct2, THEN conjunct1] f2
    by (simp add: attemptsOf_def baseDelayOf_def failing_def failed_attempt_def recording_def)
  have c: "withRetry failing ?o2 = spec_retry failing 2 500 (Some recording) 1 0"
    using withRetry_contract [of ?o2 failing 0 1 "Some recording" "\<lambda>_. Error ''down''" 0 recording
        "Error ''down''" "Error ''down''" 0,
        THEN conjunct2, THEN conjunct2, THEN conjunct2, THEN conjunct1] f2
    by (simp add: attemptsOf_def baseDelayOf_def)
  have d: "withRetry (flaky \<circ> (+) 2) ?o1 = (Inr 42, [Invoked 1])"
    using withRetry_contract [of ?o1 "flaky \<circ> (+) 2" 42 1 None "\<lambda>_. Error ''down''" 0 recording
        "Error ''down''" "Error ''down''" 0, THEN conjunct1]
    by (simp add: attemptsOf_def flaky_def)
  from a b c d show ?thesis by blast
qed

text \<open>
  C4 as stated covers every callback, every maximum attempt count and every base
  delay. The call of the callback has no \<^verbatim>\<open>try\<close> around it (line 104): with a
  callback that throws, the operation that would succeed at its third invocation
  is invoked once, the promise rejects with what the callback has thrown, and
  there is no wait and no second attempt. With the count 0 an operation that
  would succeed at its first invocation is never invoked, while the wrapper as
  the specification words it executes the operation and returns its value. With
  the base delay \<open>2 ^ 1023\<close> the second wait is not one of \<open>2 ^ 1023 * 2 ^ 1\<close> ms: the
  product is not a finite number.
\<close>

theorem withRetry_contract_counterexample:
  "withRetry flaky \<lparr>maxRetries = Some 3, delay = Some 1000, onRetry = Some throwing\<rparr>
   = (Inl (Error ''callback failed''), [Invoked 1, CallbackThrew (Error ''callback failed'')])
   \<and> flaky 0 = Inl (Error ''down'') \<and> flaky 1 = Inl (Error ''down'') \<and> flaky 2 = Inr 42
   \<and> isl (fst (withRetry (flaky \<circ> (+) 2)
                  \<lparr>maxRetries = Some 0, delay = Some 1000, onRetry = returning (Some recording)\<rparr>))
   \<and> snd (withRetry (flaky \<circ> (+) 2)
             \<lparr>maxRetries = Some 0, delay = Some 1000, onRetry = returning (Some recording)\<rparr>)
     = []
   \<and> spec_retry (flaky \<circ> (+) 2) 0 1000 (Some recording) 1 0 = (Inr 42, [Invoked 1])
   \<and> snd (withRetry flaky
             \<lparr>maxRetries = Some 3, delay = Some (2 ^ 1023), onRetry = returning (Some recording)\<rparr>)
     = [Invoked 1, Notified (1, Error ''down''), Waited (2 ^ 1023),
        Invoked 2, Notified (2, Error ''down''), WaitedNotFinite, Invoked 3]"
  by code_simp
section \<open>The retry inside \<^verbatim>\<open>parseAlbumFeed\<close>\<close>

lemma parseAlbumFeed_first_success:
  assumes "parseAlbumFeed_attempt env u 0 = Inr a"
  shows "parseAlbumFeed env u = Some a"
proof -
  have m: "1 \<le> attemptsOf (parseAlbumFeed_options u)"
    by (simp add: attemptsOf_def parseAlbumFeed_options_def)
  show ?thesis
    by (simp add: parseAlbumFeed_def
          withRetry_first_success [of "parseAlbumFeed_options u" "parseAlbumFeed_attempt env u" a,
            OF m assms])
qed

lemma withRetry_loop_fails:
  "\<forall>n. isl (fn n) \<Longrightarrow> isl (fst (withRetry_loop fn maxR dly cb attempt calls le))"
proof (induction fn maxR dly cb attempt calls le rule: withRetry_loop.induct)
  case (1 fn maxR dly cb attempt calls lastError)
  from "1.prems" obtain e where e: "fn calls = Inl e"
    by (metis isl_def)
  show ?case
  proof (cases "attempt \<le> maxR \<and> attempt \<noteq> maxR")
    case False
    with e show ?thesis by (subst withRetry_loop.simps) auto
  next
    case True
    then have le: "attempt \<le> maxR" and ne: "attempt \<noteq> maxR" by simp_all
    show ?thesis
    proof (cases "case cb of None \<Rightarrow> Inr []
                  | Some f \<Rightarrow> (case f attempt e of Inl thrown \<Rightarrow> Inl thrown
                               | Inr n \<Rightarrow> Inr [Notified n])")
      case (Inl thrown)
      with e le ne show ?thesis by (subst withRetry_loop.simps) simp
    next
      case (Inr notified)
      have "isl (fst (withRetry_loop fn maxR dly cb (attempt + 1) (Suc calls) e))"
        by (rule "1.IH" [OF le e ne Inr refl refl "1.prems"])
      with e le ne Inr show ?thesis
        by (subst withRetry_loop.simps) (auto simp: Let_def split: prod.splits)
    qed
  qed
qed

lemma parseAlbumFeed_always_fails:
  assumes "\<forall>n. isl (parseAlbumFeed_attempt env u n)"
  shows "parseAlbumFeed env u = None"
proof -
  have "isl (fst (withRetry (parseAlbumFeed_attempt env u) (parseAlbumFeed_options u)))"
    unfolding withRetry_def by (rule withRetry_loop_fails [OF assms])
  then show ?thesis by (auto simp: parseAlbumFeed_def isl_def)
qed
section \<open>Properties of the batch aggregator\<close>

declare parseMultipleFeeds_loop.simps [simp del]
declare windows.simps [simp del]

lemma slots_length:
  "length (foldl (\<lambda>vs i. vs[i := Some (g i)]) vs order) = length vs"
  by (induction order arbitrary: vs) auto

lemma slots_nth:
  "j < length vs \<Longrightarrow>
   foldl (\<lambda>vs i. vs[i := Some (g i)]) vs order ! j
   = (if j \<in> set order then Some (g j) else vs ! j)"
proof (induction order arbitrary: vs)
  case Nil
  then show ?case by simp
next
  case (Cons i order)
  have "j < length (vs[i := Some (g i)])" using Cons.prems by simp
  from Cons.IH [OF this] show ?case
    using Cons.prems by (auto simp: nth_list_update)
qed

lemma allSettled_all:
  assumes "set order = {0..<length ps}"
  shows "allSettled ps order = Some (map settledOf ps)"
proof -
  let ?vs = "foldl (\<lambda>vs i. vs[i := Some (settledOf (ps ! i))]) (replicate (length ps) None) order"
  have len: "length ?vs = length ps" by (simp add: slots_length)
  have nth: "?vs ! j = Some (settledOf (ps ! j))" if "j < length ps" for j
    using that assms slots_nth [of j "replicate (length ps) None" "\<lambda>i. settledOf (ps ! i)" order]
    by simp
  have eq: "?vs = map (\<lambda>p. Some (settledOf p)) ps"
    by (rule nth_equalityI) (simp_all add: len nth)
  show ?thesis
    unfolding allSettled_def Let_def eq by (auto simp: comp_def)
qed

lemma set_settleOrder: "set (settleOrder benv i n) = {0..<n}"
  by (simp add: settleOrder_def)

lemma withRetry_member:
  "withRetry (\<lambda>calls. Inr v) memberOptions = (Inr v, [Invoked 1])"
  by (simp add: withRetry_def memberOptions_def withRetry_loop.simps)

lemma memberPromise_eq: "memberPromise env u = (Inr (parseAlbumFeed env u), [])"
  by (simp add: memberPromise_def withRetry_member tryCatch_def await_def notifications_def)

lemma successful_values:
  "concat (map valueOf (filter isSuccessful (windowResults env batch))) = successes env batch"
  by (induction batch)
     (auto simp: windowResults_def successes_def valueOf_def isSuccessful_def
        List.map_filter_simps split: option.splits)

lemma failed_count:
  "length (filter isFailed (windowResults env batch)) = failures env batch"
  by (induction batch)
     (auto simp: windowResults_def failures_def isFailed_def split: option.splits)

lemma failureLines_count:
  assumes "\<forall>r \<in> set fs. isFailed r"
  shows "errorLines (concat (map (failureLine batch) (zip ks fs))) = min (length ks) (length fs)"
  using assms
proof (induction fs arbitrary: ks)
  case Nil
  then show ?case by (simp add: errorLines_def)
next
  case (Cons r fs)
  show ?case
  proof (cases ks)
    case Nil
    then show ?thesis by (simp add: errorLines_def)
  next
    case (Cons k ks')
    have "isFailed r" using Cons.prems by simp
    then obtain x where x: "failureLine batch (k, r) = [LogError x]"
      by (auto simp: isFailed_def failureLine_def split: settled.splits option.splits)
    have ih: "errorLines (concat (map (failureLine batch) (zip ks' fs))) = min (length ks') (length fs)"
      using Cons.IH Cons.prems by simp
    show ?thesis
      using ih by (simp add: Cons x errorLines_def isErrorLine_def)
  qed
qed

lemma errorLines_append: "errorLines (xs @ ys) = errorLines xs + errorLines ys"
  by (simp add: errorLines_def)

lemma failureReport_errorLines:
  assumes "\<forall>r \<in> set fs. isFailed r"
  shows "errorLines (failureReport bn batch fs) = min 3 (length fs)"
proof -
  define X where "X = concat (map (failureLine batch) (zip [0..<length (take 3 fs)] (take 3 fs)))"
  have "\<forall>r \<in> set (take 3 fs). isFailed r" using assms by (meson in_set_takeD)
  from failureLines_count [OF this, of batch "[0..<length (take 3 fs)]"]
  have x: "errorLines X = min 3 (length fs)" by (simp add: X_def)
  have r: "failureReport bn batch fs
           = (if length fs > 0 then
                LogWarn (''Failed to parse '' @ numToString (int (length fs)) @ '' feeds in batch ''
                         @ numToString (int bn))
                # X
                @ (if length fs > 3
                   then [LogWarn (''... and '' @ numToString (int (length fs) - 3) @ '' more failures'')]
                   else [])
              else [])"
    unfolding failureReport_def X_def ..
  have w: "errorLines (LogWarn m # ys) = errorLines ys" for m ys
    by (simp add: errorLines_def isErrorLine_def)
  have n: "errorLines [] = 0" by (simp add: errorLines_def)
  show ?thesis
    unfolding r using x by (auto simp: errorLines_append w n)
qed

lemma processBatch_eq:
  "\<exists>info. processBatch benv feedUrls i
     = Some (successes (env.truncate benv) (take batchSize (drop i feedUrls)),
             LogInfo info
             # failureReport (i div batchSize + 1) (take batchSize (drop i feedUrls))
                 (filter isFailed
                    (windowResults (env.truncate benv) (take batchSize (drop i feedUrls)))))"
proof -
  let ?e = "env.truncate benv"
  let ?batch = "take batchSize (drop i feedUrls)"
  let ?members = "map (memberPromise ?e) ?batch"
  have fsts: "map fst ?members = map (\<lambda>u. Inr (parseAlbumFeed ?e u)) ?batch"
    by (simp add: memberPromise_eq)
  have ord: "set (settleOrder benv i (length ?batch)) = {0..<length (map fst ?members)}"
    by (simp add: set_settleOrder)
  have "allSettled (map fst ?members) (settleOrder benv i (length ?batch))
        = Some (map settledOf (map fst ?members))"
    by (rule allSettled_all) (rule ord)
  then have settled: "allSettled (map fst ?members) (settleOrder benv i (length ?batch))
                 = Some (windowResults ?e ?batch)"
    unfolding fsts by (simp add: windowResults_def settledOf_def comp_def)
  have nolog: "concat (map (\<lambda>j. snd (?members ! j)) (settleOrder benv i (length ?batch))) = []"
  proof -
    have "\<forall>j \<in> set (settleOrder benv i (length ?batch)). snd (?members ! j) = []"
      by (simp add: set_settleOrder memberPromise_eq)
    then show ?thesis by (induction "settleOrder benv i (length ?batch)") auto
  qed
  show ?thesis
    unfolding processBatch_def Let_def settled nolog successful_values option.case
    by simp
qed

lemma loop_step:
  assumes "i < length feedUrls"
  shows "\<exists>info. parseMultipleFeeds_loop benv feedUrls i results log
           = parseMultipleFeeds_loop benv feedUrls (i + batchSize)
               (results @ successes (env.truncate benv) (take batchSize (drop i feedUrls)))
               (log @ LogInfo info
                  # failureReport (i div batchSize + 1) (take batchSize (drop i feedUrls))
                      (filter isFailed
                         (windowResults (env.truncate benv) (take batchSize (drop i feedUrls)))))"
proof -
  let ?e = "env.truncate benv"
  let ?batch = "take batchSize (drop i feedUrls)"
  let ?failed = "filter isFailed (windowResults ?e ?batch)"
  obtain info where p: "processBatch benv feedUrls i
     = Some (successes ?e ?batch, LogInfo info # failureReport (i div batchSize + 1) ?batch ?failed)"
    using processBatch_eq by blast
  have "parseMultipleFeeds_loop benv feedUrls i results log
        = parseMultipleFeeds_loop benv feedUrls (i + batchSize)
            (results @ successes ?e ?batch)
            (log @ LogInfo info # failureReport (i div batchSize + 1) ?batch ?failed)"
    using assms by (subst parseMultipleFeeds_loop.simps) (simp add: p)
  then show ?thesis by blast
qed

lemma window_lines_count:
  "errorLines (LogInfo info
                 # failureReport bn batch (filter isFailed (windowResults e batch)))
   = min 3 (failures e batch)"
  using failureReport_errorLines [of "filter isFailed (windowResults e batch)" bn batch]
  by (simp add: errorLines_def isErrorLine_def failed_count)

lemma loop_done:
  "\<not> i < length feedUrls \<Longrightarrow> parseMultipleFeeds_loop benv feedUrls i results log = Some (results, log)"
  by (subst parseMultipleFeeds_loop.simps) simp

lemma windows_step:
  "xs \<noteq> [] \<Longrightarrow> windows batchSize xs = take batchSize xs # windows batchSize (drop batchSize xs)"
  by (subst windows.simps) (simp add: batchSize_def)

lemma windows_Nil: "windows n [] = []"
  by (subst windows.simps) simp

lemma successes_append: "successes env (xs @ ys) = successes env xs @ successes env ys"
  by (induction xs) (auto simp: successes_def List.map_filter_simps split: option.splits)

lemma successes_take_drop:
  "successes env (take n xs) @ successes env (drop n xs) = successes env xs"
  by (metis append_take_drop_id successes_append)

lemma loop_result:
  "\<exists>suffix. parseMultipleFeeds_loop benv feedUrls i results log
           = Some (results
                   @ concat (map (successes (env.truncate benv)) (windows batchSize (drop i feedUrls))),
                   log @ suffix)
         \<and> errorLines suffix
           = sum_list (map (\<lambda>w. min 3 (failures (env.truncate benv) w))
                        (windows batchSize (drop i feedUrls)))
         \<and> (i < length feedUrls \<longrightarrow>
              (\<exists>info rest. suffix
                 = LogInfo info
                   # failureReport (i div batchSize + 1) (take batchSize (drop i feedUrls))
                       (filter isFailed
                          (windowResults (env.truncate benv) (take batchSize (drop i feedUrls))))
                   @ rest))"
proof (induction "length feedUrls - i" arbitrary: i results log rule: less_induct)
  case less
  let ?e = "env.truncate benv"
  show ?case
  proof (cases "i < length feedUrls")
    case False
    then have "drop i feedUrls = []" by simp
    then show ?thesis
      using False by (simp add: loop_done windows_Nil errorLines_def)
  next
    case True
    let ?batch = "take batchSize (drop i feedUrls)"
    let ?report = "failureReport (i div batchSize + 1) ?batch (filter isFailed (windowResults ?e ?batch))"
    obtain info where
      step: "parseMultipleFeeds_loop benv feedUrls i results log
             = parseMultipleFeeds_loop benv feedUrls (i + batchSize)
                 (results @ successes ?e ?batch) (log @ LogInfo info # ?report)"
      using loop_step [OF True] by blast
    have cnt: "errorLines (LogInfo info # ?report) = min 3 (failures ?e ?batch)"
      by (rule window_lines_count)
    have smaller: "length feedUrls - (i + batchSize) < length feedUrls - i"
      using True by (simp add: batchSize_def)
    from less [OF smaller, of "results @ successes ?e ?batch" "log @ LogInfo info # ?report"]
    obtain rest where
      r: "parseMultipleFeeds_loop benv feedUrls (i + batchSize)
            (results @ successes ?e ?batch) (log @ LogInfo info # ?report)
          = Some ((results @ successes ?e ?batch)
                  @ concat (map (successes ?e) (windows batchSize (drop (i + batchSize) feedUrls))),
                  (log @ LogInfo info # ?report) @ rest)"
      and c: "errorLines rest
          = sum_list (map (\<lambda>w. min 3 (failures ?e w))
                       (windows batchSize (drop (i + batchSize) feedUrls)))"
      by blast
    have ne: "drop i feedUrls \<noteq> []" using True by simp
    have d: "drop (i + batchSize) feedUrls = drop batchSize (drop i feedUrls)"
      by (simp add: add.commute)
    have w: "windows batchSize (drop i feedUrls)
             = ?batch # windows batchSize (drop (i + batchSize) feedUrls)"
      unfolding d by (rule windows_step [OF ne])
    let ?suffix = "LogInfo info # ?report @ rest"
    have a: "parseMultipleFeeds_loop benv feedUrls i results log
             = Some (results @ concat (map (successes ?e) (windows batchSize (drop i feedUrls))),
                     log @ ?suffix)"
      unfolding step r w by simp
    have b: "errorLines ?suffix
             = sum_list (map (\<lambda>w. min 3 (failures ?e w)) (windows batchSize (drop i feedUrls)))"
    proof -
      have "errorLines ?suffix = errorLines (LogInfo info # ?report) + errorLines rest"
        using errorLines_append [of "LogInfo info # ?report" rest] by simp
      then show ?thesis unfolding w using c cnt by simp
    qed
    have "\<exists>info' rest'. ?suffix = LogInfo info' # ?report @ rest'" by blast
    with a b show ?thesis by blast
  qed
qed

lemma concat_windows: "concat (map (successes env) (windows batchSize xs)) = successes env xs"
proof (induction "length xs" arbitrary: xs rule: less_induct)
  case less
  show ?case
  proof (cases "xs = []")
    case True
    then show ?thesis by (simp add: windows_Nil successes_def List.map_filter_simps)
  next
    case False
    have "length (drop batchSize xs) < length xs" using False by (simp add: batchSize_def)
    from less [OF this] show ?thesis
      unfolding windows_step [OF False] by (simp add: successes_take_drop)
  qed
qed

lemma parseMultipleFeedsInternal_result:
  "\<exists>log. parseMultipleFeedsInternal benv feedUrls
           = Some (successes (env.truncate benv) feedUrls, log)
         \<and> errorLines log
           = sum_list (map (\<lambda>w. min 3 (failures (env.truncate benv) w))
                        (windows batchSize feedUrls))
         \<and> (feedUrls \<noteq> [] \<longrightarrow>
              set (failureReport 1 (take batchSize feedUrls)
                     (filter isFailed
                        (windowResults (env.truncate benv) (take batchSize feedUrls))))
              \<subseteq> set log)"
proof -
  let ?e = "env.truncate benv"
  let ?start = "[LogInfo (''Parsing '' @ numToString (int (length feedUrls)) @ '' RSS feeds...'')]"
  obtain suffix where
    r: "parseMultipleFeeds_loop benv feedUrls 0 [] ?start
        = Some ([] @ concat (map (successes ?e) (windows batchSize (drop 0 feedUrls))),
                ?start @ suffix)"
    and c: "errorLines suffix
        = sum_list (map (\<lambda>w. min 3 (failures ?e w)) (windows batchSize (drop 0 feedUrls)))"
    and f: "0 < length feedUrls \<longrightarrow>
              (\<exists>info rest. suffix
                 = LogInfo info
                   # failureReport (0 div batchSize + 1) (take batchSize (drop 0 feedUrls))
                       (filter isFailed (windowResults ?e (take batchSize (drop 0 feedUrls))))
                   @ rest)"
    using loop_result [of benv feedUrls 0 "[]" ?start] by blast
  let ?final = "LogInfo (''Successfully parsed '' @ numToString (int (length (successes ?e feedUrls)))
                         @ '' albums from '' @ numToString (int (length feedUrls)) @ '' feeds'')"
  let ?log = "(?start @ suffix) @ [?final]"
  have a: "parseMultipleFeedsInternal benv feedUrls = Some (successes ?e feedUrls, ?log)"
    unfolding parseMultipleFeedsInternal_def r by (simp add: concat_windows)
  have z: "errorLines ?log = errorLines suffix"
    by (simp add: errorLines_def isErrorLine_def)
  have b: "errorLines ?log
           = sum_list (map (\<lambda>w. min 3 (failures ?e w)) (windows batchSize feedUrls))"
    unfolding z using c by simp
  have s: "set (failureReport 1 (take batchSize feedUrls)
                  (filter isFailed (windowResults ?e (take batchSize feedUrls))))
           \<subseteq> set ?log" if "feedUrls \<noteq> []"
  proof -
    from that f obtain info rest where
      "suffix = LogInfo info
                # failureReport 1 (take batchSize feedUrls)
                    (filter isFailed (windowResults ?e (take batchSize feedUrls)))
                @ rest"
      by auto
    then show ?thesis by auto
  qed
  from a b s show ?thesis by blast
qed

lemma successes_length: "length (successes e urls) + failures e urls = length urls"
  by (induction urls)
     (auto simp: successes_def failures_def List.map_filter_simps split: option.splits)

lemma failures_append: "failures e (xs @ ys) = failures e xs + failures e ys"
  by (simp add: failures_def)

lemma failures_card:
  "failures e urls = card {k. k < length urls \<and> parseAlbumFeed e (urls ! k) = None}"
  unfolding failures_def by (rule length_filter_conv_card)

lemma two_failures_in_first_window:
  assumes len: "length feedUrls = 25" and pq: "p < q" "q < 20"
    and fp: "\<forall>n. isl (parseAlbumFeed_attempt e (feedUrls ! p) n)"
    and fq: "\<forall>n. isl (parseAlbumFeed_attempt e (feedUrls ! q) n)"
    and ok: "\<forall>k<25. k \<noteq> p \<and> k \<noteq> q \<longrightarrow> parseAlbumFeed e (feedUrls ! k) \<noteq> None"
  shows "failures e (take batchSize feedUrls) = 2"
    and "failures e (drop batchSize feedUrls) = 0"
    and "windows batchSize feedUrls = [take batchSize feedUrls, drop batchSize feedUrls]"
proof -
  have np: "parseAlbumFeed e (feedUrls ! p) = None" and nq: "parseAlbumFeed e (feedUrls ! q) = None"
    using fp fq by (simp_all add: parseAlbumFeed_always_fails)
  have A: "k = p \<or> k = q" if "k < 20" and "parseAlbumFeed e (feedUrls ! k) = None" for k
  proof -
    from that(1) have "k < 25" by simp
    with ok that(2) show ?thesis by blast
  qed
  have B: "parseAlbumFeed e (feedUrls ! (20 + k)) \<noteq> None" if "k < 5" for k
  proof -
    from that pq have "20 + k < 25" and "20 + k \<noteq> p" and "20 + k \<noteq> q" by simp_all
    with ok show ?thesis by blast
  qed
  have "{k. k < length (take batchSize feedUrls)
            \<and> parseAlbumFeed e (take batchSize feedUrls ! k) = None} = {p, q}"
    using len pq np nq by (auto simp: batchSize_def dest: A)
  then show "failures e (take batchSize feedUrls) = 2"
    using pq by (simp add: failures_card)
  have "{k. k < length (drop batchSize feedUrls)
            \<and> parseAlbumFeed e (drop batchSize feedUrls ! k) = None} = {}"
    using len B by (auto simp: batchSize_def)
  then show "failures e (drop batchSize feedUrls) = 0"
    by (simp add: failures_card)
  have ne: "feedUrls \<noteq> []" and ne2: "drop batchSize feedUrls \<noteq> []"
    using len by (auto simp: batchSize_def)
  have e3: "drop batchSize (drop batchSize feedUrls) = []"
    using len by (simp add: batchSize_def)
  show "windows batchSize feedUrls = [take batchSize feedUrls, drop batchSize feedUrls]"
    unfolding windows_step [OF ne] windows_step [OF ne2] e3 windows_Nil
    using len by (simp add: batchSize_def)
qed

text \<open>
  C3. For every list of URLs and every environment the call returns (it neither
  throws nor hangs), and what it returns is the albums of the URLs that parse,
  one per such URL; the others are only missing. In particular, with 25 URLs of
  which two always fail (both in the first window, as the 5th and the 17th are
  whether positions are counted from 0 or from 1) and the others parse, it
  returns 23 albums, and the console has exactly 2 error lines, after the
  warning that 2 feeds of batch 1 failed.
\<close>

theorem parseMultipleFeedsInternal_partial:
  "(\<exists>log. parseMultipleFeedsInternal benv feedUrls
            = Some (successes (env.truncate benv) feedUrls, log))
   \<and> length (successes (env.truncate benv) feedUrls) + failures (env.truncate benv) feedUrls
     = length feedUrls
   \<and> (length feedUrls = 25 \<and> p < q \<and> q < 20
       \<and> (\<forall>n. isl (parseAlbumFeed_attempt (env.truncate benv) (feedUrls ! p) n))
       \<and> (\<forall>n. isl (parseAlbumFeed_attempt (env.truncate benv) (feedUrls ! q) n))
       \<and> (\<forall>k<25. k \<noteq> p \<and> k \<noteq> q \<longrightarrow> parseAlbumFeed (env.truncate benv) (feedUrls ! k) \<noteq> None)
      \<longrightarrow> (\<exists>albums log. parseMultipleFeedsInternal benv feedUrls = Some (albums, log)
             \<and> length albums = 23 \<and> errorLines log = 2
             \<and> LogWarn ''Failed to parse 2 feeds in batch 1'' \<in> set log))"
proof -
  let ?e = "env.truncate benv"
  obtain log where
    r: "parseMultipleFeedsInternal benv feedUrls = Some (successes ?e feedUrls, log)"
    and c: "errorLines log
            = sum_list (map (\<lambda>w. min 3 (failures ?e w)) (windows batchSize feedUrls))"
    and rep: "feedUrls \<noteq> [] \<longrightarrow>
              set (failureReport 1 (take batchSize feedUrls)
                     (filter isFailed (windowResults ?e (take batchSize feedUrls))))
              \<subseteq> set log"
    using parseMultipleFeedsInternal_result by blast
  have a: "\<exists>log. parseMultipleFeedsInternal benv feedUrls = Some (successes ?e feedUrls, log)"
    using r by blast
  have b: "length (successes ?e feedUrls) + failures ?e feedUrls = length feedUrls"
    by (rule successes_length)
  have s: "\<exists>albums log. parseMultipleFeedsInternal benv feedUrls = Some (albums, log)
             \<and> length albums = 23 \<and> errorLines log = 2
             \<and> LogWarn ''Failed to parse 2 feeds in batch 1'' \<in> set log"
    if h: "length feedUrls = 25 \<and> p < q \<and> q < 20
       \<and> (\<forall>n. isl (parseAlbumFeed_attempt ?e (feedUrls ! p) n))
       \<and> (\<forall>n. isl (parseAlbumFeed_attempt ?e (feedUrls ! q) n))
       \<and> (\<forall>k<25. k \<noteq> p \<and> k \<noteq> q \<longrightarrow> parseAlbumFeed ?e (feedUrls ! k) \<noteq> None)"
  proof -
    note t = two_failures_in_first_window [of feedUrls p q ?e]
    have f1: "failures ?e (take batchSize feedUrls) = 2"
      and f2: "failures ?e (drop batchSize feedUrls) = 0"
      and w: "windows batchSize feedUrls = [take batchSize feedUrls, drop batchSize feedUrls]"
      using h t by blast+
    have "failures ?e feedUrls = 2"
    proof -
      have "failures ?e feedUrls
            = failures ?e (take batchSize feedUrls) + failures ?e (drop batchSize feedUrls)"
        using failures_append [of ?e "take batchSize feedUrls" "drop batchSize feedUrls"]
        by simp
      then show ?thesis using f1 f2 by simp
    qed
    with b h have "length (successes ?e feedUrls) = 23" by simp
    moreover have "errorLines log = 2" using c w f1 f2 by simp
    moreover have "LogWarn ''Failed to parse 2 feeds in batch 1'' \<in> set log"
    proof -
      let ?failed = "filter isFailed (windowResults ?e (take batchSize feedUrls))"
      have n: "length ?failed = 2" using f1 by (simp add: failed_count)
      have two: "numToString (int 2) = ''2''" and one: "numToString (int 1) = ''1''"
        by code_simp+
      have "LogWarn (''Failed to parse '' @ numToString (int (length ?failed))
                     @ '' feeds in batch '' @ numToString (int 1))
            \<in> set (failureReport 1 (take batchSize feedUrls) ?failed)"
        using n by (simp add: failureReport_def)
      then have "LogWarn ''Failed to parse 2 feeds in batch 1''
                 \<in> set (failureReport 1 (take batchSize feedUrls) ?failed)"
        unfolding n two one by simp
      moreover have "feedUrls \<noteq> []" using h by auto
      ultimately show ?thesis using rep by blast
    qed
    ultimately show ?thesis using r by blast
  qed
  from a b s show ?thesis by blast
qed

lemma not_found_fails:
  "fetch env (requestUrl env u) n
   = Inr \<lparr>ok = False, status = 404, statusText = ''Not Found'', body = []\<rparr>
   \<Longrightarrow> isl (parseAlbumFeed_attempt env u n)"
  by (simp add: parseAlbumFeed_attempt_def acquireChannel_def)

lemma demo_gone:
  "fetch demoEnv (requestUrl demoEnv ''https://feeds.example/gone-1.xml'') n
   = Inr \<lparr>ok = False, status = 404, statusText = ''Not Found'', body = []\<rparr>"
  "fetch demoEnv (requestUrl demoEnv ''https://feeds.example/gone-2.xml'') n
   = Inr \<lparr>ok = False, status = 404, statusText = ''Not Found'', body = []\<rparr>"
  by code_simp+

lemma demo_fails:
  "isl (parseAlbumFeed_attempt demoEnv ''https://feeds.example/gone-1.xml'' n)"
  "isl (parseAlbumFeed_attempt demoEnv ''https://feeds.example/gone-2.xml'' n)"
  by (rule not_found_fails, rule demo_gone)+

lemma demo_truncate: "env.truncate demoBatchEnv = demoEnv"
  by (simp add: demoBatchEnv_def env.truncate_def env.extend_def demoEnv_def)

theorem parseMultipleFeedsInternal_partial_witness:
  "length urls25 = 25
   \<and> (\<exists>albums log. parseMultipleFeedsInternal demoBatchEnv urls25 = Some (albums, log)
        \<and> length albums = 23 \<and> errorLines log = 2
        \<and> LogWarn ''Failed to parse 2 feeds in batch 1'' \<in> set log)"
proof -
  have l: "length urls25 = 25" by (simp add: urls25_def)
  have p: "urls25 ! 4 = ''https://feeds.example/gone-1.xml''" by code_simp
  have q: "urls25 ! 16 = ''https://feeds.example/gone-2.xml''" by code_simp
  have fp: "\<forall>n. isl (parseAlbumFeed_attempt (env.truncate demoBatchEnv) (urls25 ! 4) n)"
    unfolding p demo_truncate by (simp add: demo_fails)
  have fq: "\<forall>n. isl (parseAlbumFeed_attempt (env.truncate demoBatchEnv) (urls25 ! 16) n)"
    unfolding q demo_truncate by (simp add: demo_fails)
  have "list_all (\<lambda>k. k \<noteq> 4 \<and> k \<noteq> 16 \<longrightarrow> parseAlbumFeed demoEnv (urls25 ! k) \<noteq> None) [0..<25]"
    by code_simp
  then have ok: "\<forall>k<25. k \<noteq> 4 \<and> k \<noteq> 16
                  \<longrightarrow> parseAlbumFeed (env.truncate demoBatchEnv) (urls25 ! k) \<noteq> None"
    unfolding demo_truncate by (simp add: list_all_iff)
  show ?thesis
    using parseMultipleFeedsInternal_partial [of demoBatchEnv urls25 4 16] l fp fq ok
    by simp
qed

text \<open>
  C2, as the code has it. The albums returned are those of the windows, window
  after window; within a window they come in the order of the URLs, whatever the
  order in which the promises settle: \<^verbatim>\<open>Promise.allSettled\<close> files each outcome
  under the index of its promise. So the whole result is in the order of the
  input list.
\<close>

theorem parseMultipleFeedsInternal_input_order:
  "(\<exists>log. parseMultipleFeedsInternal benv feedUrls
            = Some (concat (map (successes (env.truncate benv)) (windows batchSize feedUrls)), log))
   \<and> concat (map (successes (env.truncate benv)) (windows batchSize feedUrls))
     = successes (env.truncate benv) feedUrls
   \<and> (set order = {0..<length promises}
        \<longrightarrow> allSettled promises order = Some (map settledOf promises))"
proof -
  obtain log where
    "parseMultipleFeedsInternal benv feedUrls = Some (successes (env.truncate benv) feedUrls, log)"
    using parseMultipleFeedsInternal_result [of benv feedUrls] by blast
  then show ?thesis
    using concat_windows [of "env.truncate benv" feedUrls] allSettled_all [of order promises]
    by auto
qed

theorem parseMultipleFeedsInternal_input_order_witness:
  "(\<exists>log. parseMultipleFeedsInternal demoBatchEnv
             [''https://feeds.example/a.xml'', ''https://feeds.example/b.xml'']
            = Some ([albumA, albumB], log))
   \<and> allSettled [Inr (Some albumA), Inl (Error ''late''), Inr None] [2, 0, 1]
     = Some [Fulfilled (Some albumA), Rejected (Error ''late''), Fulfilled None]"
proof -
  have s: "concat (map (successes (env.truncate demoBatchEnv))
             (windows batchSize [''https://feeds.example/a.xml'', ''https://feeds.example/b.xml'']))
           = [albumA, albumB]"
    by code_simp
  have o: "set [2, 0, 1] = {0..<length [Inr (Some albumA), Inl (Error ''late''), Inr None]}"
    by auto
  note t = parseMultipleFeedsInternal_input_order
      [of demoBatchEnv "[''https://feeds.example/a.xml'', ''https://feeds.example/b.xml'']"
          "[2, 0, 1]" "[Inr (Some albumA), Inl (Error ''late''), Inr None]"]
  have a: "\<exists>log. parseMultipleFeedsInternal demoBatchEnv
             [''https://feeds.example/a.xml'', ''https://feeds.example/b.xml'']
            = Some ([albumA, albumB], log)"
    using t unfolding s by blast
  have b: "allSettled [Inr (Some albumA), Inl (Error ''late''), Inr None] [2, 0, 1]
           = Some (map settledOf [Inr (Some albumA), Inl (Error ''late''), Inr None])"
    using t o by blast
  show ?thesis
    using a b by (simp add: settledOf_def)
qed

text \<open>
  C2 as stated has the results of a window in the order in which its promises
  settle. In the example environment the promise of the second URL settles
  before that of the first, and the album of the first URL still comes first.
\<close>

theorem parseMultipleFeedsInternal_completion_order_counterexample:
  "settleOrder demoBatchEnv 0 2 = [1, 0]
   \<and> spec_successes_in_completion_order demoBatchEnv 0
        [''https://feeds.example/a.xml'', ''https://feeds.example/b.xml'']
     = [albumB, albumA]
   \<and> map_option fst (parseMultipleFeedsInternal demoBatchEnv
        [''https://feeds.example/a.xml'', ''https://feeds.example/b.xml''])
     = Some [albumA, albumB]
   \<and> [albumA, albumB] \<noteq> [albumB, albumA]"
  by code_simp

lemma parsePublisherFeed_never_catches:
  "parsePublisherFeed env u
   = parsePublisherFeedFromUrl env
       (if u = ''iroh-aggregated''
        then ''https://wavlake.com/feed/artist/8a9c2e54-785a-4128-9412-737610f5d00a'' else u)"
  by (simp add: parsePublisherFeed_def async_def tryCatch_def)

text \<open>
  C1 (as the code behaves). A feed URL that answers 404: the promise of
  \<^verbatim>\<open>parsePublisherFeed\<close> rejects with the error of the status check, it does not
  fulfil with the empty list.
\<close>

theorem parsePublisherFeed_rejects:
  "parsePublisherFeed demoEnv ''https://feeds.example/gone-1.xml''
   = Inl (Error ''Failed to fetch publisher feed: 404'')"
  by code_simp

section \<open>The example environments\<close>

text \<open>
  The example feeds have no cover-art candidate and no duration text outside the
  exact range: what the module makes of them is the same whatever \<^verbatim>\<open>new URL\<close> and
  the double arithmetic of the platform do.
\<close>

lemma demoEnv_platform_unused:
  "map (parseAlbumFeed (demoEnv\<lparr>newURL := f, durationInDoubles := g\<rparr>))
     [''https://feeds.example/a.xml'', ''https://feeds.example/b.xml'',
      ''https://feeds.example/album.xml'']
   = [Some albumA, Some albumB, Some albumTides]"
  by code_simp

lemma serverEnv_platform_unused:
  "parseAlbumFeed (serverEnv\<lparr>newURL := f, durationInDoubles := g\<rparr>)
     ''https://feeds.example/album.xml'' = None"
  by code_simp

section \<open>Properties of the single-feed extractor\<close>

lemma withRetry_loop_value:
  "fst (withRetry_loop fn maxR dly cb attempt calls le) = Inr v \<Longrightarrow> \<exists>k. fn k = Inr v"
proof (induction fn maxR dly cb attempt calls le rule: withRetry_loop.induct)
  case (1 fn maxR dly cb attempt calls lastError)
  show ?case
  proof (cases "attempt \<le> maxR")
    case False
    with "1.prems" show ?thesis by (subst (asm) withRetry_loop.simps) simp
  next
    case le: True
    show ?thesis
    proof (cases "fn calls")
      case (Inr w)
      with "1.prems" le have "w = v" by (subst (asm) withRetry_loop.simps) simp
      with Inr show ?thesis by blast
    next
      case (Inl e)
      show ?thesis
      proof (cases "attempt = maxR")
        case True
        with "1.prems" le Inl show ?thesis by (subst (asm) withRetry_loop.simps) simp
      next
        case ne: False
        show ?thesis
        proof (cases "case cb of None \<Rightarrow> Inr []
                      | Some f \<Rightarrow> (case f attempt e of Inl thrown \<Rightarrow> Inl thrown
                                   | Inr n \<Rightarrow> Inr [Notified n])")
          case thrown: (Inl thrown)
          with "1.prems" le Inl ne show ?thesis
            by (subst (asm) withRetry_loop.simps) simp
        next
          case notified: (Inr notified)
          have "fst (withRetry_loop fn maxR dly cb (attempt + 1) (Suc calls) e) = Inr v"
            using "1.prems" le Inl ne notified
            by (subst (asm) withRetry_loop.simps) (simp add: Let_def split: prod.splits)
          from "1.IH" [OF le Inl ne notified refl refl this] show ?thesis .
        qed
      qed
    qed
  qed
qed

lemma parseAlbumFeed_Some:
  assumes "parseAlbumFeed env u = Some album"
  shows "\<exists>k xmlDoc channel cover. acquireChannel env u k = Inr (xmlDoc, channel)
           \<and> album = albumOf env xmlDoc channel cover"
proof -
  have "fst (withRetry (parseAlbumFeed_attempt env u) (parseAlbumFeed_options u)) = Inr album"
    using assms by (simp add: parseAlbumFeed_def split: sum.splits)
  then obtain k where "parseAlbumFeed_attempt env u k = Inr album"
    unfolding withRetry_def using withRetry_loop_value by fast
  then show ?thesis
    by (auto simp: parseAlbumFeed_attempt_def split: sum.splits) blast
qed

lemma parseAlbumFeed_acquired:
  assumes "acquireChannel env u 0 = Inr (xmlDoc, channel)"
    and "extractCoverArt env channel (getElementsByTagName xmlDoc ''item'') = Inr cover"
  shows "parseAlbumFeed env u = Some (albumOf env xmlDoc channel cover)"
  by (rule parseAlbumFeed_first_success) (simp add: parseAlbumFeed_attempt_def assms)

lemma tracksFrom_length: "length (tracksFrom env k items) = length items"
  by (induction items arbitrary: k) auto

lemma tracksFrom_nth: "i < length items \<Longrightarrow> tracksFrom env k items ! i = trackOfItem env (k + i) (items ! i)"
proof (induction items arbitrary: k i)
  case Nil
  then show ?case by simp
next
  case (Cons item rest)
  then show ?case by (cases i) auto
qed

lemma albumOf_tracks:
  "RSSAlbum.tracks (albumOf env xmlDoc channel cover)
   = tracksFrom env 0 (getElementsByTagName xmlDoc ''item'')"
  by (simp add: albumOf_def Let_def)

lemma trackOfItem_number: "RSSTrack.trackNumber (trackOfItem env i item) = Some (i + 1)"
  by (simp add: trackOfItem_def Let_def)

lemma trackOfItem_title:
  "RSSTrack.title (trackOfItem env i item)
   = orDefault (firstText item ''title'') (''Track '' @ numToString (int i + 1))"
  by (simp add: trackOfItem_def Let_def)

lemma trackOfItem_duration:
  "RSSTrack.duration (trackOfItem env i item)
   = normalizeDuration (durationInDoubles env) (durationText item)
       (Some (orDefault (firstText item ''title'') (''Track '' @ numToString (int i + 1))))"
  by (simp add: trackOfItem_def Let_def)

lemma tracksFrom_three:
  "length items = 3 \<Longrightarrow> map RSSTrack.trackNumber (tracksFrom env 0 items) = [Some 1, Some 2, Some 3]"
proof -
  assume "length items = 3"
  then obtain a b c where "items = [a, b, c]"
    by (auto simp: length_Suc_conv numeral_3_eq_3)
  then show ?thesis by (simp add: trackOfItem_number)
qed

lemma orDefault_falsy: "\<not> truthy a \<Longrightarrow> orDefault a d = d"
  by (auto simp: truthy_def orDefault_def split: option.splits)

lemma orDefault_truthy: "a = Some t \<Longrightarrow> t \<noteq> [] \<Longrightarrow> orDefault a d = t"
  by (simp add: orDefault_def)

lemma firstText_absent: "getElementsByTagName n nm = [] \<Longrightarrow> firstText n nm = None"
  by (simp add: firstText_def first_def)

text \<open>
  Whenever an album is returned, it has one track per \<^verbatim>\<open>item\<close> element of the
  document, the track at index \<open>i\<close> made from the \<open>i\<close>-th item in document order and
  numbered \<open>i + 1\<close>; its title is the item's title when that is not blank and
  \<^verbatim>\<open>Track N\<close> with \<open>N = i + 1\<close> otherwise.
\<close>

lemma parseAlbumFeed_tracks_of_items:
  assumes "parseAlbumFeed env u = Some album"
  shows "\<exists>k xmlDoc channel. acquireChannel env u k = Inr (xmlDoc, channel)
      \<and> length (RSSAlbum.tracks album) = length (getElementsByTagName xmlDoc ''item'')
      \<and> (\<forall>i<length (getElementsByTagName xmlDoc ''item'').
            RSSAlbum.tracks album ! i = trackOfItem env i (getElementsByTagName xmlDoc ''item'' ! i)
          \<and> RSSTrack.trackNumber (RSSAlbum.tracks album ! i) = Some (i + 1)
          \<and> (\<not> truthy (firstText (getElementsByTagName xmlDoc ''item'' ! i) ''title'')
               \<longrightarrow> RSSTrack.title (RSSAlbum.tracks album ! i) = ''Track '' @ numToString (int i + 1))
          \<and> (\<forall>t. firstText (getElementsByTagName xmlDoc ''item'' ! i) ''title'' = Some t \<and> t \<noteq> []
               \<longrightarrow> RSSTrack.title (RSSAlbum.tracks album ! i) = t))"
proof -
  from assms obtain k xmlDoc channel cover
    where acq: "acquireChannel env u k = Inr (xmlDoc, channel)"
      and alb: "album = albumOf env xmlDoc channel cover"
    using parseAlbumFeed_Some by blast
  let ?items = "getElementsByTagName xmlDoc ''item''"
  have l: "length (RSSAlbum.tracks album) = length ?items"
    by (simp add: alb albumOf_tracks tracksFrom_length)
  have per: "\<forall>i<length ?items.
            RSSAlbum.tracks album ! i = trackOfItem env i (?items ! i)
          \<and> RSSTrack.trackNumber (RSSAlbum.tracks album ! i) = Some (i + 1)
          \<and> (\<not> truthy (firstText (?items ! i) ''title'')
               \<longrightarrow> RSSTrack.title (RSSAlbum.tracks album ! i) = ''Track '' @ numToString (int i + 1))
          \<and> (\<forall>t. firstText (?items ! i) ''title'' = Some t \<and> t \<noteq> []
               \<longrightarrow> RSSTrack.title (RSSAlbum.tracks album ! i) = t)"
  proof (intro allI impI)
    fix i
    assume lt: "i < length ?items"
    have n: "RSSAlbum.tracks album ! i = trackOfItem env i (?items ! i)"
      using lt by (simp add: alb albumOf_tracks tracksFrom_nth)
    show "RSSAlbum.tracks album ! i = trackOfItem env i (?items ! i)
          \<and> RSSTrack.trackNumber (RSSAlbum.tracks album ! i) = Some (i + 1)
          \<and> (\<not> truthy (firstText (?items ! i) ''title'')
               \<longrightarrow> RSSTrack.title (RSSAlbum.tracks album ! i) = ''Track '' @ numToString (int i + 1))
          \<and> (\<forall>t. firstText (?items ! i) ''title'' = Some t \<and> t \<noteq> []
               \<longrightarrow> RSSTrack.title (RSSAlbum.tracks album ! i) = t)"
      unfolding n
      by (simp add: trackOfItem_number trackOfItem_title orDefault_falsy orDefault_truthy)
  qed
  show ?thesis
    by (rule exI [of _ k], rule exI [of _ xmlDoc], rule exI [of _ channel])
       (intro conjI acq l per)
qed

text \<open>
  C7 (as the code behaves). On the server the example feed with three items is
  fetched and parsed into its document, whose channel has no \<^verbatim>\<open>itunes:image\<close>
  element; the cover-art resolver then calls \<^verbatim>\<open>channel.querySelector\<close>, which the
  elements of \<^verbatim>\<open>@xmldom/xmldom\<close> do not have, and the \<^verbatim>\<open>TypeError\<close> fails each of the
  three attempts: the result is \<^verbatim>\<open>null\<close>, not an album with three tracks. In a
  browser the same feed gives the tracks numbered 1, 2, 3 with the titles
  \<^verbatim>\<open>One\<close>, \<^verbatim>\<open>Track 2\<close> and \<^verbatim>\<open>Three\<close>.
\<close>

theorem parseAlbumFeed_server_without_image:
  "fetch serverEnv (requestUrl serverEnv ''https://feeds.example/album.xml'') 0
   = Inr \<lparr>ok = True, status = 200, statusText = ''OK'', body = xmlAlbum\<rparr>
   \<and> parseFromString serverEnv xmlAlbum = Inr docAlbum
   \<and> length (getElementsByTagName docAlbum ''item'') = 3
   \<and> getElementsByTagName channelAlbum ''itunes:image'' = []
   \<and> extractCoverArt serverEnv channelAlbum (getElementsByTagName docAlbum ''item'')
     = Inl (TypeError ''channel.querySelector is not a function'')
   \<and> map (parseAlbumFeed_attempt serverEnv ''https://feeds.example/album.xml'') [0, 1, 2]
     = replicate 3 (Inl (TypeError ''channel.querySelector is not a function''))
   \<and> parseAlbumFeed serverEnv ''https://feeds.example/album.xml'' = None
   \<and> map_option (map RSSTrack.trackNumber \<circ> RSSAlbum.tracks)
       (parseAlbumFeed demoEnv ''https://feeds.example/album.xml'')
     = Some [Some 1, Some 2, Some 3]
   \<and> map_option (map RSSTrack.title \<circ> RSSAlbum.tracks)
       (parseAlbumFeed demoEnv ''https://feeds.example/album.xml'')
     = Some [''One'', ''Track 2'', ''Three'']"
  by code_simp
section \<open>Properties of the duration normalizer\<close>

declare natToString.simps [simp del]

lemma digitChar_digit: "n < 10 \<Longrightarrow> isDigit (digitChar n)"
proof -
  assume a: "n < 10"
  have "list_all (\<lambda>k. isDigit (digitChar k)) [0..<10]" by code_simp
  then have "\<forall>k \<in> set [0..<10]. isDigit (digitChar k)" by (simp only: list_all_iff)
  with a show ?thesis by simp
qed

lemma natToString_small: "n < 10 \<Longrightarrow> natToString n = [digitChar n]"
  by (subst natToString.simps) simp

lemma natToString_big: "\<not> n < 10 \<Longrightarrow> natToString n = natToString (n div 10) @ [digitChar (n mod 10)]"
  by (subst natToString.simps) simp

lemma natToString_digits: "list_all isDigit (natToString n) \<and> natToString n \<noteq> []"
proof (induction n rule: natToString.induct)
  case (1 n)
  show ?case
  proof (cases "n < 10")
    case True
    then show ?thesis by (simp add: natToString_small digitChar_digit)
  next
    case False
    with 1 show ?thesis
      by (simp add: natToString_big digitChar_digit)
  qed
qed

lemma natToString_length: "n < 100 \<Longrightarrow> length (natToString n) \<le> 2"
proof -
  assume a: "n < 100"
  show ?thesis
  proof (cases "n < 10")
    case True
    then show ?thesis by (simp add: natToString_small)
  next
    case False
    have "n div 10 < 10" using a by simp
    then have "natToString (n div 10) = [digitChar (n div 10)]"
      by (rule natToString_small)
    with False show ?thesis by (simp add: natToString_big)
  qed
qed
lemma colon_not_digit: "\<not> isDigit (CHR '':'')"
  by (simp add: isDigit_def)

lemma takeWhile_digits:
  "list_all isDigit ds \<Longrightarrow> takeWhile isDigit (ds @ CHR '':'' # r) = ds"
  by (induction ds) (auto simp: colon_not_digit)

lemma dropWhile_digits:
  "list_all isDigit ds \<Longrightarrow> dropWhile isDigit (ds @ CHR '':'' # r) = CHR '':'' # r"
  by (induction ds) (auto simp: colon_not_digit)

lemma canonical_minutesSeconds:
  assumes "0 \<le> m" and "0 \<le> s" and "s < 60"
  shows "canonicalDuration (minutesSeconds m s)"
proof -
  have m: "numToString m = natToString (nat m)" using assms(1) by (simp add: numToString_def)
  have s: "numToString s = natToString (nat s)" using assms(2) by (simp add: numToString_def)
  have md: "list_all isDigit (natToString (nat m))" and mn: "natToString (nat m) \<noteq> []"
    using natToString_digits by blast+
  have sd: "list_all isDigit (natToString (nat s))" and sn: "natToString (nat s) \<noteq> []"
    using natToString_digits by blast+
  have sl: "length (natToString (nat s)) \<le> 2"
    using assms(3) by (intro natToString_length) simp
  have pl: "length (padStart2 (natToString (nat s))) = 2"
    using sl by (simp add: padStart2_def)
  have z: "isDigit (CHR ''0'')" by (simp add: isDigit_def)
  have pd: "list_all isDigit (padStart2 (natToString (nat s)))"
    using sd z by (auto simp: padStart2_def list_all_iff)
  show ?thesis
    unfolding canonicalDuration_def minutesSeconds_def m s Let_def
    using md mn pl pd by (simp add: takeWhile_digits dropWhile_digits)
qed

lemma canonical_zero: "canonicalDuration ''0:00''"
  by code_simp

lemma normalizeDuration_result:
  assumes x: "exactRange (trim d)"
  shows "canonicalDuration (normalizeDuration P d t)
         \<or> (normalizeDuration P d t = trim d \<and> trim d \<noteq> [])"
proof (cases "d = [] \<or> trim d = []")
  case True
  then show ?thesis by (auto simp: normalizeDuration_def canonical_zero)
next
  case False
  then have ne: "trim d \<noteq> []" by simp
  show ?thesis
  proof (cases "list_all isDigit (trim d)")
    case True
    show ?thesis
    proof (cases "parseInt (trim d)")
      case None
      with False True x show ?thesis by (simp add: normalizeDuration_def)
    next
      case (Some seconds)
      show ?thesis
      proof (cases "seconds > 0")
        case sp: True
        have "canonicalDuration (minutesSeconds (seconds div 60) (seconds mod 60))"
          using sp by (intro canonical_minutesSeconds) (simp_all add: pos_imp_zdiv_nonneg_iff)
        with False True Some sp x show ?thesis by (simp add: normalizeDuration_def)
      next
        case sn: False
        with False True Some x show ?thesis by (simp add: normalizeDuration_def)
      qed
    qed
  next
    case nd: False
    show ?thesis
    proof (cases "CHR '':'' \<in> set (trim d)")
      case nc: False
      with False nd x show ?thesis by (simp add: normalizeDuration_def)
    next
      case c: True
      let ?parts = "split (trim d) '':''"
      consider (two) "length ?parts = 2" | (three) "length ?parts = 3"
        | (other) "length ?parts \<noteq> 2 \<and> length ?parts \<noteq> 3" by blast
      then show ?thesis
      proof cases
        case two
        show ?thesis
        proof (cases "\<exists>mins secs. parseInt (?parts ! 0) = Some mins \<and> parseInt (?parts ! 1) = Some secs
                        \<and> mins \<ge> 0 \<and> secs \<ge> 0 \<and> secs < 60")
          case True
          then obtain mins secs where p: "parseInt (?parts ! 0) = Some mins"
            "parseInt (?parts ! 1) = Some secs" "mins \<ge> 0" "secs \<ge> 0" "secs < 60" by blast
          have "canonicalDuration (minutesSeconds mins secs)"
            using p by (intro canonical_minutesSeconds)
          with False nd c two p x show ?thesis by (simp add: normalizeDuration_def)
        next
          case no: False
          with False nd c two x show ?thesis
            by (auto simp: normalizeDuration_def Let_def split: option.splits)
        qed
      next
        case three
        show ?thesis
        proof (cases "\<exists>hours mins secs. parseInt (?parts ! 0) = Some hours
                        \<and> parseInt (?parts ! 1) = Some mins \<and> parseInt (?parts ! 2) = Some secs
                        \<and> hours \<ge> 0 \<and> mins \<ge> 0 \<and> mins < 60 \<and> secs \<ge> 0 \<and> secs < 60")
          case True
          then obtain hours mins secs where p: "parseInt (?parts ! 0) = Some hours"
            "parseInt (?parts ! 1) = Some mins" "parseInt (?parts ! 2) = Some secs"
            "hours \<ge> 0" "mins \<ge> 0" "mins < 60" "secs \<ge> 0" "secs < 60" by blast
          have "canonicalDuration (minutesSeconds (hours * 60 + mins) secs)"
            using p by (intro canonical_minutesSeconds) simp_all
          with False nd c three p x show ?thesis by (simp add: normalizeDuration_def)
        next
          case no: False
          with False nd c three x show ?thesis
            by (auto simp: normalizeDuration_def Let_def split: option.splits)
        qed
      next
        case other
        with False nd c x show ?thesis by (simp add: normalizeDuration_def)
      qed
    qed
  qed
qed

lemma split_from_no_separator:
  "c \<notin> set s \<Longrightarrow> split_from [c] cur s = [cur @ s]"
  by (induction s arbitrary: cur) auto

lemma split_no_colon: "CHR '':'' \<notin> set s \<Longrightarrow> split s '':'' = [s]"
  by (simp add: split_def split_from_no_separator)

lemma digits_no_colon: "list_all isDigit s \<Longrightarrow> CHR '':'' \<notin> set s"
  using colon_not_digit by (auto simp: list_all_iff)

lemma colonText_colon:
  assumes "colonText s = Some mc"
  shows "CHR '':'' \<in> set s" and "\<not> list_all isDigit s"
proof -
  show c: "CHR '':'' \<in> set s"
  proof (rule ccontr)
    assume "CHR '':'' \<notin> set s"
    then have "split s '':'' = [s]" by (rule split_no_colon)
    with assms show False by (simp add: colonText_def split: option.splits)
  qed
  then show "\<not> list_all isDigit s" using digits_no_colon by blast
qed

lemma list2: "length xs = 2 \<Longrightarrow> xs = [xs ! 0, xs ! 1]"
  by (cases xs; cases "tl xs"; cases "tl (tl xs)") auto

lemma list3: "length xs = 3 \<Longrightarrow> xs = [xs ! 0, xs ! 1, xs ! 2]"
  by (cases xs; cases "tl xs"; cases "tl (tl xs)"; cases "tl (tl (tl xs))") auto

lemma colonText_two:
  assumes "length (split s '':'') = 2"
  shows "colonText s
         = (case (parseInt (split s '':'' ! 0), parseInt (split s '':'' ! 1)) of
              (Some m, Some c) \<Rightarrow> if 0 \<le> m \<and> 0 \<le> c \<and> c < 60 then Some (m, c) else None
            | _ \<Rightarrow> None)"
proof -
  have "map parseInt (split s '':'')
        = [parseInt (split s '':'' ! 0), parseInt (split s '':'' ! 1)]"
    by (subst list2 [OF assms]) simp
  then show ?thesis
    by (simp add: colonText_def split: option.splits)
qed

lemma colonText_three:
  assumes "length (split s '':'') = 3"
  shows "colonText s
         = (case (parseInt (split s '':'' ! 0), parseInt (split s '':'' ! 1),
                  parseInt (split s '':'' ! 2)) of
              (Some h, Some m, Some c) \<Rightarrow>
                if 0 \<le> h \<and> 0 \<le> m \<and> m < 60 \<and> 0 \<le> c \<and> c < 60 then Some (h * 60 + m, c)
                else None
            | _ \<Rightarrow> None)"
proof -
  have "map parseInt (split s '':'')
        = [parseInt (split s '':'' ! 0), parseInt (split s '':'' ! 1),
           parseInt (split s '':'' ! 2)]"
    by (subst list3 [OF assms]) simp
  then show ?thesis
    by (simp add: colonText_def split: option.splits)
qed

lemma colonText_other:
  assumes "length (split s '':'') \<noteq> 2" and "length (split s '':'') \<noteq> 3"
  shows "colonText s = None"
proof -
  have "length (map parseInt (split s '':'')) \<noteq> 2"
    and "length (map parseInt (split s '':'')) \<noteq> 3"
    using assms by simp_all
  then show ?thesis
    unfolding colonText_def
    by (auto split: list.splits option.splits)
qed

lemma trim_Nil: "trim [] = []"
  by (simp add: trim_def)

lemma normalizeDuration_digits:
  assumes "exactRange s" and "s \<noteq> []" and "list_all isDigit s" and "trim d = s"
  shows "normalizeDuration P d t
         = (case parseInt s of
              Some n \<Rightarrow> if 0 < n then minutesSeconds (n div 60) (n mod 60) else s
            | None \<Rightarrow> s)"
  using assms by (cases "d = []") (auto simp: normalizeDuration_def trim_Nil)

lemma normalizeDuration_colon:
  assumes "exactRange s" and "s \<noteq> []" and "\<not> list_all isDigit s" and "trim d = s"
  shows "normalizeDuration P d t
         = (case colonText s of Some (m, c) \<Rightarrow> minutesSeconds m c | None \<Rightarrow> s)"
proof (cases "CHR '':'' \<in> set s")
  case False
  then have "colonText s = None"
    using colonText_colon(1) by (cases "colonText s") auto
  with assms False show ?thesis
    by (cases "d = []") (auto simp: normalizeDuration_def trim_Nil)
next
  case c: True
  have dn: "d \<noteq> []" using assms(2,4) by (auto simp: trim_Nil)
  consider (two) "length (split s '':'') = 2" | (three) "length (split s '':'') = 3"
    | (other) "length (split s '':'') \<noteq> 2 \<and> length (split s '':'') \<noteq> 3" by blast
  then show ?thesis
  proof cases
    case two
    with assms c dn show ?thesis
      by (auto simp: normalizeDuration_def Let_def colonText_two split: option.splits)
  next
    case three
    with assms c dn show ?thesis
      by (auto simp: normalizeDuration_def Let_def colonText_three split: option.splits)
  next
    case other
    with assms c dn show ?thesis
      by (auto simp: normalizeDuration_def Let_def colonText_other)
  qed
qed

lemma normalizeDuration_rules:
  assumes x: "exactRange (trim d)"
  shows "durationRules (trim d) (normalizeDuration P d t)"
proof -
  have a: "canonicalDuration (normalizeDuration P d t) \<or> normalizeDuration P d t = trim d"
    using normalizeDuration_result [OF x] by blast
  have b: "if trim d = [] then normalizeDuration P d t = ''0:00''
           else case secondsText (trim d) of
                  Some n \<Rightarrow> 0 < n \<longrightarrow> normalizeDuration P d t = minutesSeconds (n div 60) (n mod 60)
                | None \<Rightarrow>
                    (case colonText (trim d) of
                       Some (m, c) \<Rightarrow> normalizeDuration P d t = minutesSeconds m c
                     | None \<Rightarrow> normalizeDuration P d t = trim d)"
  proof (cases "trim d = []")
    case True
    then show ?thesis by (simp add: normalizeDuration_def)
  next
    case ne: False
    show ?thesis
    proof (cases "list_all isDigit (trim d)")
      case True
      have "normalizeDuration P d t
            = (case parseInt (trim d) of
                 Some n \<Rightarrow> if 0 < n then minutesSeconds (n div 60) (n mod 60) else trim d
               | None \<Rightarrow> trim d)"
        by (rule normalizeDuration_digits [OF x ne True refl])
      moreover have "colonText (trim d) = None"
        using colonText_colon(2) [of "trim d"] True by (cases "colonText (trim d)") auto
      ultimately show ?thesis
        using ne True by (simp add: secondsText_def split: option.splits)
    next
      case False
      have "normalizeDuration P d t
            = (case colonText (trim d) of Some (m, c) \<Rightarrow> minutesSeconds m c | None \<Rightarrow> trim d)"
        by (rule normalizeDuration_colon [OF x ne False refl])
      then show ?thesis
        using ne False by (simp add: secondsText_def split: option.splits prod.splits)
    qed
  qed
  from a b show ?thesis by (simp add: durationRules_def)
qed
lemma parse_tides: "parseAlbumFeed demoEnv ''https://feeds.example/album.xml'' = Some albumTides"
  by code_simp

lemma parseAlbumFeed_unique_source:
  assumes "parseAlbumFeed env u = Some album"
  obtains k xmlDoc channel cover where "acquireChannel env u k = Inr (xmlDoc, channel)"
    and "album = albumOf env xmlDoc channel cover"
  using parseAlbumFeed_Some [OF assms] by blast

text \<open>
  C5, as the code has it. In a returned album the duration of a track follows the
  normalization rules: for an item whose duration text is in the exact range of
  the numbers, it is the conversion of the text to the form \<^verbatim>\<open>M:SS\<close> when the text
  is a positive number of seconds in digits, a valid \<^verbatim>\<open>MM:SS\<close> or a valid
  \<^verbatim>\<open>HH:MM:SS\<close>, and it is the text itself, trimmed and otherwise unchanged, when the
  text is neither in digits nor a valid colon form: the normalizer hands back
  what it cannot parse. In every case it is in the form \<^verbatim>\<open>M:SS\<close> or is the text.
\<close>

theorem parseAlbumFeed_durations:
  "parseAlbumFeed env u = Some album \<longrightarrow>
   (\<exists>k xmlDoc channel. acquireChannel env u k = Inr (xmlDoc, channel)
      \<and> length (RSSAlbum.tracks album) = length (getElementsByTagName xmlDoc ''item'')
      \<and> (\<forall>i<length (getElementsByTagName xmlDoc ''item'').
            exactRange (trim (durationText (getElementsByTagName xmlDoc ''item'' ! i)))
            \<longrightarrow> durationRules (trim (durationText (getElementsByTagName xmlDoc ''item'' ! i)))
                  (RSSTrack.duration (RSSAlbum.tracks album ! i))))"
proof
  assume "parseAlbumFeed env u = Some album"
  then obtain k xmlDoc channel cover where acq: "acquireChannel env u k = Inr (xmlDoc, channel)"
    and alb: "album = albumOf env xmlDoc channel cover"
    by (rule parseAlbumFeed_unique_source)
  let ?items = "getElementsByTagName xmlDoc ''item''"
  have l: "length (RSSAlbum.tracks album) = length ?items"
    by (simp add: alb albumOf_tracks tracksFrom_length)
  have d: "\<forall>i<length ?items.
            exactRange (trim (durationText (?items ! i)))
            \<longrightarrow> durationRules (trim (durationText (?items ! i)))
                  (RSSTrack.duration (RSSAlbum.tracks album ! i))"
  proof (intro allI impI)
    fix i
    assume lt: "i < length ?items"
      and x: "exactRange (trim (durationText (?items ! i)))"
    have "RSSAlbum.tracks album ! i = trackOfItem env i (?items ! i)"
      using lt by (simp add: alb albumOf_tracks tracksFrom_nth)
    then show "durationRules (trim (durationText (?items ! i)))
                 (RSSTrack.duration (RSSAlbum.tracks album ! i))"
      by (simp only: trackOfItem_duration) (rule normalizeDuration_rules [OF x])
  qed
  show "\<exists>k xmlDoc channel. acquireChannel env u k = Inr (xmlDoc, channel)
      \<and> length (RSSAlbum.tracks album) = length (getElementsByTagName xmlDoc ''item'')
      \<and> (\<forall>i<length (getElementsByTagName xmlDoc ''item'').
            exactRange (trim (durationText (getElementsByTagName xmlDoc ''item'' ! i)))
            \<longrightarrow> durationRules (trim (durationText (getElementsByTagName xmlDoc ''item'' ! i)))
                  (RSSTrack.duration (RSSAlbum.tracks album ! i)))"
    by (rule exI [of _ k], rule exI [of _ xmlDoc], rule exI [of _ channel])
       (intro conjI acq l d)
qed

lemma acquire_tides:
  "acquireChannel demoEnv ''https://feeds.example/album.xml'' k = Inr (docAlbum, channelAlbum)"
  by code_simp

theorem parseAlbumFeed_durations_witness:
  "parseAlbumFeed demoEnv ''https://feeds.example/album.xml'' = Some albumTides
   \<and> map (trim \<circ> durationText) (getElementsByTagName docAlbum ''item'')
     = [''125'', ''1:02:03'', ''abc'']
   \<and> exactRange ''125'' \<and> exactRange ''1:02:03'' \<and> exactRange ''abc''
   \<and> secondsText ''125'' = Some 125 \<and> colonText ''1:02:03'' = Some (62, 3)
   \<and> secondsText ''abc'' = None \<and> colonText ''abc'' = None
   \<and> durationRules ''125'' (RSSTrack.duration (RSSAlbum.tracks albumTides ! 0))
   \<and> durationRules ''1:02:03'' (RSSTrack.duration (RSSAlbum.tracks albumTides ! 1))
   \<and> durationRules ''abc'' (RSSTrack.duration (RSSAlbum.tracks albumTides ! 2))
   \<and> map RSSTrack.duration (RSSAlbum.tracks albumTides)
     = [minutesSeconds 2 5, minutesSeconds 62 3, ''abc'']"
proof -
  let ?u = "''https://feeds.example/album.xml''"
  let ?items = "getElementsByTagName docAlbum ''item''"
  from parseAlbumFeed_durations [of demoEnv ?u albumTides, THEN mp, OF parse_tides]
  obtain k xmlDoc channel where acq: "acquireChannel demoEnv ?u k = Inr (xmlDoc, channel)"
    and r: "\<forall>i<length (getElementsByTagName xmlDoc ''item'').
            exactRange (trim (durationText (getElementsByTagName xmlDoc ''item'' ! i)))
            \<longrightarrow> durationRules (trim (durationText (getElementsByTagName xmlDoc ''item'' ! i)))
                  (RSSTrack.duration (RSSAlbum.tracks albumTides ! i))"
    by (elim exE conjE)
  have doc: "xmlDoc = docAlbum" using acq by (simp add: acquire_tides)
  have l: "length ?items = 3" by code_simp
  have t: "map (trim \<circ> durationText) ?items = [''125'', ''1:02:03'', ''abc'']" by code_simp
  have t0: "trim (durationText (?items ! 0)) = ''125''"
    and t1: "trim (durationText (?items ! 1)) = ''1:02:03''"
    and t2: "trim (durationText (?items ! 2)) = ''abc''"
    by code_simp+
  have x0: "exactRange ''125''" and x1: "exactRange ''1:02:03''" and x2: "exactRange ''abc''"
    by code_simp+
  note rule = r [unfolded doc, rule_format]
  have d0: "durationRules ''125'' (RSSTrack.duration (RSSAlbum.tracks albumTides ! 0))"
    using rule [of 0] l x0 by (simp only: t0)
  have d1: "durationRules ''1:02:03'' (RSSTrack.duration (RSSAlbum.tracks albumTides ! 1))"
    using rule [of 1] l x1 by (simp only: t1)
  have d2: "durationRules ''abc'' (RSSTrack.duration (RSSAlbum.tracks albumTides ! 2))"
    using rule [of 2] l x2 by (simp only: t2)
  have s: "secondsText ''125'' = Some 125" "colonText ''1:02:03'' = Some (62, 3)"
    "secondsText ''abc'' = None" "colonText ''abc'' = None"
    by code_simp+
  have m: "map RSSTrack.duration (RSSAlbum.tracks albumTides)
           = [minutesSeconds 2 5, minutesSeconds 62 3, ''abc'']"
    by code_simp
  show ?thesis
    by (intro conjI parse_tides t x0 x1 x2 s d0 d1 d2 m)
qed

text \<open>
  C5 as stated has every duration in the form \<^verbatim>\<open>M:SS\<close>. The third item of the
  example feed has the duration text \<^verbatim>\<open>abc\<close>, and so has its track.
\<close>

theorem parseAlbumFeed_raw_duration_counterexample:
  "map_option (map RSSTrack.duration \<circ> RSSAlbum.tracks)
     (parseAlbumFeed demoEnv ''https://feeds.example/album.xml'')
   = Some [''2:05'', ''62:03'', ''abc'']
   \<and> \<not> canonicalDuration ''abc''"
  by code_simp
section \<open>Fields without a source\<close>

lemma clean_absent: "cleanHtmlContent (toContent None) = None"
  by (simp add: cleanHtmlContent_def toContent_def)

lemma first_Nil: "first [] = None"
  by (simp add: first_def)

lemma keywordList_absent: "getElementsByTagName n ''itunes:keywords'' = [] \<Longrightarrow> keywordList n = []"
  by (simp add: keywordList_def firstText_absent)

lemma explicitFlag_absent: "getElementsByTagName n ''itunes:explicit'' = [] \<Longrightarrow> \<not> explicitFlag n"
  by (simp add: explicitFlag_def firstText_absent)

lemma nonEmptyList_Nil: "nonEmptyList [] = None"
  by (simp add: nonEmptyList_def)

lemma albumOf_fields:
  "RSSAlbum.title (albumOf env d c cover) = orDefault (firstText c ''title'') ''Unknown Album''"
  "RSSAlbum.description (albumOf env d c cover)
   = orDefault (cleanHtmlContent (Str (orDefault (firstText c ''description'') ''''))) ''''"
  "RSSAlbum.link (albumOf env d c cover) = Some (orDefault (firstText c ''link'') '''')"
  "RSSAlbum.subtitle (albumOf env d c cover) = cleanHtmlContent (toContent (firstText c ''itunes:subtitle''))"
  "RSSAlbum.summary (albumOf env d c cover) = cleanHtmlContent (toContent (firstText c ''itunes:summary''))"
  "RSSAlbum.language (albumOf env d c cover) = firstText c ''language''"
  "RSSAlbum.copyright (albumOf env d c cover) = firstText c ''copyright''"
  "RSSAlbum.keywords (albumOf env d c cover) = nonEmptyList (keywordList c)"
  "RSSAlbum.explicit (albumOf env d c cover) = Some (explicitFlag c)"
  "RSSAlbum.duration (albumOf env d c cover) = None"
  "RSSAlbum.publisher (albumOf env d c cover) = publisherOf c"
  "RSSAlbum.coverArt (albumOf env d c cover) = cover"
  by (simp_all add: albumOf_def Let_def)

lemma albumOf_categories:
  "getElementsByTagName c ''itunes:category'' = [] \<Longrightarrow> RSSAlbum.categories (albumOf env d c cover) = None"
  by (simp add: albumOf_def Let_def nonEmptyList_Nil)

lemma albumOf_owner:
  "getElementsByTagName c ''itunes:owner'' = [] \<Longrightarrow> RSSAlbum.owner (albumOf env d c cover) = None"
  by (simp add: albumOf_def Let_def first_Nil)

lemma albumOf_funding:
  "getElementsByTagName c ''podcast:funding'' = [] \<Longrightarrow> getElementsByTagName c ''funding'' = []
   \<Longrightarrow> RSSAlbum.funding (albumOf env d c cover) = None"
  by (simp add: albumOf_def Let_def nonEmptyList_Nil)

lemma albumOf_podroll:
  "getElementsByTagName c ''podcast:podroll'' = [] \<Longrightarrow> getElementsByTagName c ''podroll'' = []
   \<Longrightarrow> RSSAlbum.podroll (albumOf env d c cover) = None"
  by (simp add: albumOf_def Let_def nonEmptyList_Nil)

lemma albumOf_artist:
  "getElementsByTagName c ''itunes:author'' = [] \<Longrightarrow> getElementsByTagName c ''author'' = []
   \<Longrightarrow> getElementsByTagName c ''title'' = []
   \<Longrightarrow> RSSAlbum.artist (albumOf env d c cover) = ''Unknown Artist''"
  by (simp add: albumOf_def Let_def first_Nil firstText_absent orDefault_def split_def)

lemma albumOf_releaseDate:
  "getElementsByTagName c ''pubDate'' = [] \<Longrightarrow> getElementsByTagName c ''lastBuildDate'' = []
   \<Longrightarrow> RSSAlbum.releaseDate (albumOf env d c cover) = now env"
  by (simp add: albumOf_def Let_def first_Nil orDefault_def)

lemma publisherOf_absent:
  "getElementsByTagName c ''podcast:remoteItem'' = [] \<Longrightarrow> publisherOf c = None"
  by (simp add: publisherOf_def Let_def)

lemma trackOfItem_fields:
  "RSSTrack.subtitle (trackOfItem env i item) = cleanHtmlContent (toContent (firstText item ''itunes:subtitle''))"
  "RSSTrack.summary (trackOfItem env i item) = cleanHtmlContent (toContent (firstText item ''itunes:summary''))"
  "RSSTrack.explicit (trackOfItem env i item) = Some (explicitFlag item)"
  "RSSTrack.keywords (trackOfItem env i item) = nonEmptyList (keywordList item)"
  by (simp_all add: trackOfItem_def Let_def)

lemma trackOfItem_url_absent:
  "getElementsByTagName item ''enclosure'' = [] \<Longrightarrow> getElementsByTagName item ''link'' = []
   \<Longrightarrow> getElementsByTagName item ''media:content'' = []
   \<Longrightarrow> RSSTrack.url (trackOfItem env i item) = None"
  by (simp add: trackOfItem_def Let_def first_Nil truthy_def)

lemma trackOfItem_image_absent:
  "getElementsByTagName item ''itunes:image'' = [] \<Longrightarrow> RSSTrack.image (trackOfItem env i item) = None"
  by (simp add: trackOfItem_def Let_def first_Nil orElse_def truthy_def)

lemma trackOfItem_duration_absent:
  "getElementsByTagName item ''itunes:duration'' = [] \<Longrightarrow> getElementsByTagName item ''duration'' = []
   \<Longrightarrow> RSSTrack.duration (trackOfItem env i item) = ''0:00''"
proof -
  assume a: "getElementsByTagName item ''itunes:duration'' = []"
    and b: "getElementsByTagName item ''duration'' = []"
  have t: "durationText item = ''0:00''"
    by (simp add: durationText_def Let_def firstText_absent a b truthy_def)
  have n: "normalizeDuration P ''0:00'' x = ''0:00''" for P x
  proof -
    have r: "exactRange (trim ''0:00'')" by code_simp
    have c: "trim ''0:00'' = ''0:00''" "secondsText ''0:00'' = None"
      "colonText ''0:00'' = Some (0, 0)" "minutesSeconds 0 0 = ''0:00''"
      by code_simp+
    from normalizeDuration_rules [OF r, of P x] show ?thesis
      by (simp add: durationRules_def c)
  qed
  show ?thesis by (simp add: trackOfItem_duration t n)
qed

lemma trackOfItem_absent: "trackAbsentFields i item (trackOfItem env i item)"
  unfolding trackAbsentFields_def absent_def
  by (intro conjI impI)
     (simp_all add: trackOfItem_title trackOfItem_fields firstText_absent orDefault_def
        clean_absent trackOfItem_url_absent trackOfItem_image_absent trackOfItem_duration_absent
        keywordList_absent nonEmptyList_Nil explicitFlag_absent)

lemma albumOf_absent: "albumAbsentFields env xmlDoc channel (albumOf env xmlDoc channel cover)"
  unfolding albumAbsentFields_def absent_def
proof (intro conjI impI allI)
  show "RSSAlbum.description (albumOf env xmlDoc channel cover) = []"
    if "getElementsByTagName channel ''description'' = []"
    using that
    by (simp add: albumOf_fields firstText_absent orDefault_def cleanHtmlContent_def)
qed (simp_all add: albumOf_fields firstText_absent orDefault_def clean_absent
        keywordList_absent nonEmptyList_Nil explicitFlag_absent albumOf_categories albumOf_owner
        albumOf_funding albumOf_podroll albumOf_artist albumOf_releaseDate publisherOf_absent
        albumOf_tracks tracksFrom_length tracksFrom_nth trackOfItem_absent)

text \<open>
  C6, as the code has it. In a returned album a field whose source element is
  absent is left undefined, with these exceptions: the title, the artist, the
  title of a track and its duration take the defaults \<^verbatim>\<open>Unknown Album\<close>,
  \<^verbatim>\<open>Unknown Artist\<close>, \<^verbatim>\<open>Track N\<close> and \<^verbatim>\<open>0:00\<close>; the description and the link are
  the empty string; the explicit flags are \<^verbatim>\<open>false\<close>; the release date is the
  current time.
\<close>

theorem parseAlbumFeed_absent_fields:
  "parseAlbumFeed env u = Some album \<longrightarrow>
   (\<exists>k xmlDoc channel. acquireChannel env u k = Inr (xmlDoc, channel)
      \<and> albumAbsentFields env xmlDoc channel album)"
proof
  assume "parseAlbumFeed env u = Some album"
  then obtain k xmlDoc channel cover where acq: "acquireChannel env u k = Inr (xmlDoc, channel)"
    and alb: "album = albumOf env xmlDoc channel cover"
    by (rule parseAlbumFeed_unique_source)
  have "albumAbsentFields env xmlDoc channel album"
    unfolding alb by (rule albumOf_absent)
  with acq show "\<exists>k xmlDoc channel. acquireChannel env u k = Inr (xmlDoc, channel)
      \<and> albumAbsentFields env xmlDoc channel album"
    by blast
qed

lemma parse_A: "parseAlbumFeed demoEnv ''https://feeds.example/a.xml'' = Some albumA"
  by code_simp

theorem parseAlbumFeed_absent_fields_witness:
  "parseAlbumFeed demoEnv ''https://feeds.example/a.xml'' = Some albumA
   \<and> (\<exists>k xmlDoc channel.
         acquireChannel demoEnv ''https://feeds.example/a.xml'' k = Inr (xmlDoc, channel)
       \<and> albumAbsentFields demoEnv xmlDoc channel albumA)
   \<and> RSSAlbum.subtitle albumA = None \<and> RSSAlbum.language albumA = None
   \<and> RSSAlbum.description albumA = [] \<and> RSSAlbum.link albumA = Some []"
proof -
  have f: "RSSAlbum.subtitle albumA = None \<and> RSSAlbum.language albumA = None
           \<and> RSSAlbum.description albumA = [] \<and> RSSAlbum.link albumA = Some []"
    by (simp add: albumA_def)
  show ?thesis
    using parse_A f
      parseAlbumFeed_absent_fields [of demoEnv "''https://feeds.example/a.xml''" albumA,
        THEN mp, OF parse_A]
    by (intro conjI) simp_all
qed

text \<open>
  C6 as stated has no absent field defaulted to the empty string. The first
  example feed has neither a description nor a link, and both fields of its album
  are the empty string.
\<close>

theorem parseAlbumFeed_empty_string_counterexample:
  "absent docA ''description'' \<and> absent docA ''link''
   \<and> map_option RSSAlbum.description (parseAlbumFeed demoEnv ''https://feeds.example/a.xml'')
     = Some []
   \<and> map_option RSSAlbum.link (parseAlbumFeed demoEnv ''https://feeds.example/a.xml'')
     = Some (Some [])"
  by code_simp

lemma nested_elements:
  assumes "c \<in> set (children n)" and "e \<in> set (getElementsByTagName c tag)"
  shows "e \<in> set (getElementsByTagName n tag)"
proof (cases c)
  case (Text s)
  with assms(2) show ?thesis by (simp add: getElementsByTagName_def)
next
  case (Element t as cs)
  have "e \<in> set (elems c)" and "tagName e = tag"
    using assms(2) by (auto simp: getElementsByTagName_def Element)
  then show ?thesis
    using assms(1) by (auto simp: getElementsByTagName_def)
qed

lemma publisherOf_Some_iff:
  "publisherOf channel = Some p \<longleftrightarrow>
   (\<exists>i<length (getElementsByTagName channel ''podcast:remoteItem'').
      getAttribute (getElementsByTagName channel ''podcast:remoteItem'' ! i) ''medium''
        = Some ''publisher''
      \<and> (\<forall>j<i. getAttribute (getElementsByTagName channel ''podcast:remoteItem'' ! j) ''medium''
                 \<noteq> Some ''publisher'')
      \<and> getAttribute (getElementsByTagName channel ''podcast:remoteItem'' ! i) ''feedGuid''
        = Some (RSSPublisher.feedGuid p)
      \<and> RSSPublisher.feedGuid p \<noteq> []
      \<and> getAttribute (getElementsByTagName channel ''podcast:remoteItem'' ! i) ''feedUrl''
        = Some (RSSPublisher.feedUrl p)
      \<and> RSSPublisher.feedUrl p \<noteq> []
      \<and> RSSPublisher.medium p = ''publisher'')"
  (is "?lhs \<longleftrightarrow> ?rhs")
proof
  let ?rs = "getElementsByTagName channel ''podcast:remoteItem''"
  let ?P = "\<lambda>element. getAttribute element ''medium'' = Some ''publisher''"
  assume l: ?lhs
  then obtain e where f: "find ?P ?rs = Some e"
    by (auto simp: publisherOf_def Let_def split: option.splits)
  then obtain i where i: "i < length ?rs" "?P (?rs ! i)" "e = ?rs ! i" "\<forall>j<i. \<not> ?P (?rs ! j)"
    by (auto simp: find_Some_iff)
  have "truthy (getAttribute e ''feedGuid'') \<and> truthy (getAttribute e ''feedUrl'')
        \<and> p = \<lparr>RSSPublisher.feedGuid = the (getAttribute e ''feedGuid''),
                 RSSPublisher.feedUrl = the (getAttribute e ''feedUrl''),
                 RSSPublisher.medium = the (getAttribute e ''medium'')\<rparr>"
    using l f by (auto simp: publisherOf_def Let_def split: if_splits)
  then show ?rhs
    using i by (intro exI [of _ i]) (auto simp: truthy_def)
next
  let ?rs = "getElementsByTagName channel ''podcast:remoteItem''"
  let ?P = "\<lambda>element. getAttribute element ''medium'' = Some ''publisher''"
  assume ?rhs
  then obtain i where i: "i < length ?rs" "?P (?rs ! i)" "\<forall>j<i. \<not> ?P (?rs ! j)"
    and g: "getAttribute (?rs ! i) ''feedGuid'' = Some (RSSPublisher.feedGuid p)"
      "RSSPublisher.feedGuid p \<noteq> []"
    and u: "getAttribute (?rs ! i) ''feedUrl'' = Some (RSSPublisher.feedUrl p)"
      "RSSPublisher.feedUrl p \<noteq> []"
    and m: "RSSPublisher.medium p = ''publisher''"
    by blast
  have f: "find ?P ?rs = Some (?rs ! i)"
    using i by (auto simp: find_Some_iff)
  show ?lhs
    using i(2) g u m by (simp add: publisherOf_def Let_def f truthy_def)
qed

text \<open>
  C8, as the code has it. The publisher link of a returned album comes from the
  first element with the tag \<^verbatim>\<open>podcast:remoteItem\<close> and the medium \<^verbatim>\<open>publisher\<close>
  among all such elements below the channel in document order, those inside a
  pod roll or any other child of the channel included; it is set exactly when
  that element has a non-empty \<^verbatim>\<open>feedGuid\<close> and a non-empty \<^verbatim>\<open>feedUrl\<close>.
\<close>

theorem parseAlbumFeed_publisher:
  "parseAlbumFeed env u = Some album \<longrightarrow>
   (\<exists>k xmlDoc channel. acquireChannel env u k = Inr (xmlDoc, channel)
      \<and> (\<forall>p. RSSAlbum.publisher album = Some p \<longleftrightarrow>
            (\<exists>i<length (getElementsByTagName channel ''podcast:remoteItem'').
               getAttribute (getElementsByTagName channel ''podcast:remoteItem'' ! i) ''medium''
                 = Some ''publisher''
               \<and> (\<forall>j<i. getAttribute (getElementsByTagName channel ''podcast:remoteItem'' ! j)
                           ''medium'' \<noteq> Some ''publisher'')
               \<and> getAttribute (getElementsByTagName channel ''podcast:remoteItem'' ! i) ''feedGuid''
                 = Some (RSSPublisher.feedGuid p)
               \<and> RSSPublisher.feedGuid p \<noteq> []
               \<and> getAttribute (getElementsByTagName channel ''podcast:remoteItem'' ! i) ''feedUrl''
                 = Some (RSSPublisher.feedUrl p)
               \<and> RSSPublisher.feedUrl p \<noteq> []
               \<and> RSSPublisher.medium p = ''publisher''))
      \<and> (\<forall>c e. c \<in> set (children channel)
               \<and> e \<in> set (getElementsByTagName c ''podcast:remoteItem'')
             \<longrightarrow> e \<in> set (getElementsByTagName channel ''podcast:remoteItem'')))"
proof
  assume "parseAlbumFeed env u = Some album"
  then obtain k xmlDoc channel cover where acq: "acquireChannel env u k = Inr (xmlDoc, channel)"
    and alb: "album = albumOf env xmlDoc channel cover"
    by (rule parseAlbumFeed_unique_source)
  have pub: "RSSAlbum.publisher album = publisherOf channel"
    by (simp add: alb albumOf_fields)
  have a: "\<forall>p. RSSAlbum.publisher album = Some p \<longleftrightarrow>
            (\<exists>i<length (getElementsByTagName channel ''podcast:remoteItem'').
               getAttribute (getElementsByTagName channel ''podcast:remoteItem'' ! i) ''medium''
                 = Some ''publisher''
               \<and> (\<forall>j<i. getAttribute (getElementsByTagName channel ''podcast:remoteItem'' ! j)
                           ''medium'' \<noteq> Some ''publisher'')
               \<and> getAttribute (getElementsByTagName channel ''podcast:remoteItem'' ! i) ''feedGuid''
                 = Some (RSSPublisher.feedGuid p)
               \<and> RSSPublisher.feedGuid p \<noteq> []
               \<and> getAttribute (getElementsByTagName channel ''podcast:remoteItem'' ! i) ''feedUrl''
                 = Some (RSSPublisher.feedUrl p)
               \<and> RSSPublisher.feedUrl p \<noteq> []
               \<and> RSSPublisher.medium p = ''publisher'')"
    unfolding pub by (intro allI publisherOf_Some_iff)
  have b: "\<forall>c e. c \<in> set (children channel)
               \<and> e \<in> set (getElementsByTagName c ''podcast:remoteItem'')
             \<longrightarrow> e \<in> set (getElementsByTagName channel ''podcast:remoteItem'')"
    using nested_elements by blast
  show "\<exists>k xmlDoc channel. acquireChannel env u k = Inr (xmlDoc, channel)
      \<and> (\<forall>p. RSSAlbum.publisher album = Some p \<longleftrightarrow>
            (\<exists>i<length (getElementsByTagName channel ''podcast:remoteItem'').
               getAttribute (getElementsByTagName channel ''podcast:remoteItem'' ! i) ''medium''
                 = Some ''publisher''
               \<and> (\<forall>j<i. getAttribute (getElementsByTagName channel ''podcast:remoteItem'' ! j)
                           ''medium'' \<noteq> Some ''publisher'')
               \<and> getAttribute (getElementsByTagName channel ''podcast:remoteItem'' ! i) ''feedGuid''
                 = Some (RSSPublisher.feedGuid p)
               \<and> RSSPublisher.feedGuid p \<noteq> []
               \<and> getAttribute (getElementsByTagName channel ''podcast:remoteItem'' ! i) ''feedUrl''
                 = Some (RSSPublisher.feedUrl p)
               \<and> RSSPublisher.feedUrl p \<noteq> []
               \<and> RSSPublisher.medium p = ''publisher''))
      \<and> (\<forall>c e. c \<in> set (children channel)
               \<and> e \<in> set (getElementsByTagName c ''podcast:remoteItem'')
             \<longrightarrow> e \<in> set (getElementsByTagName channel ''podcast:remoteItem''))"
    by (rule exI [of _ k], rule exI [of _ xmlDoc], rule exI [of _ channel])
       (intro conjI acq a b)
qed

theorem parseAlbumFeed_publisher_witness:
  "parseAlbumFeed demoEnv ''https://feeds.example/album.xml'' = Some albumTides
   \<and> RSSAlbum.publisher albumTides
     = Some \<lparr>RSSPublisher.feedGuid = ''guid-7'', feedUrl = ''https://feeds.example/p.xml'',
             medium = ''publisher''\<rparr>
   \<and> (\<exists>k xmlDoc channel.
         acquireChannel demoEnv ''https://feeds.example/album.xml'' k = Inr (xmlDoc, channel)
       \<and> (\<exists>i<length (getElementsByTagName channel ''podcast:remoteItem'').
             getAttribute (getElementsByTagName channel ''podcast:remoteItem'' ! i) ''medium''
               = Some ''publisher''
           \<and> getAttribute (getElementsByTagName channel ''podcast:remoteItem'' ! i) ''feedGuid''
               = Some ''guid-7''
           \<and> getAttribute (getElementsByTagName channel ''podcast:remoteItem'' ! i) ''feedUrl''
               = Some ''https://feeds.example/p.xml''))"
proof -
  let ?p = "\<lparr>RSSPublisher.feedGuid = ''guid-7'', feedUrl = ''https://feeds.example/p.xml'',
             medium = ''publisher''\<rparr>"
  have pa: "parseAlbumFeed demoEnv ''https://feeds.example/album.xml'' = Some albumTides"
    by code_simp
  have pt: "RSSAlbum.publisher albumTides = Some ?p" by (simp add: albumTides_def)
  from parseAlbumFeed_publisher
    [of demoEnv "''https://feeds.example/album.xml''" albumTides, THEN mp, OF pa]
  obtain k xmlDoc channel where
    acq: "acquireChannel demoEnv ''https://feeds.example/album.xml'' k = Inr (xmlDoc, channel)"
    and iff: "\<forall>p. RSSAlbum.publisher albumTides = Some p \<longleftrightarrow>
            (\<exists>i<length (getElementsByTagName channel ''podcast:remoteItem'').
               getAttribute (getElementsByTagName channel ''podcast:remoteItem'' ! i) ''medium''
                 = Some ''publisher''
               \<and> (\<forall>j<i. getAttribute (getElementsByTagName channel ''podcast:remoteItem'' ! j)
                           ''medium'' \<noteq> Some ''publisher'')
               \<and> getAttribute (getElementsByTagName channel ''podcast:remoteItem'' ! i) ''feedGuid''
                 = Some (RSSPublisher.feedGuid p)
               \<and> RSSPublisher.feedGuid p \<noteq> []
               \<and> getAttribute (getElementsByTagName channel ''podcast:remoteItem'' ! i) ''feedUrl''
                 = Some (RSSPublisher.feedUrl p)
               \<and> RSSPublisher.feedUrl p \<noteq> []
               \<and> RSSPublisher.medium p = ''publisher'')"
    by (elim exE conjE)
  from iff [rule_format, of ?p, THEN iffD1, OF pt]
  obtain i where "i < length (getElementsByTagName channel ''podcast:remoteItem'')"
    "getAttribute (getElementsByTagName channel ''podcast:remoteItem'' ! i) ''medium''
       = Some ''publisher''"
    "getAttribute (getElementsByTagName channel ''podcast:remoteItem'' ! i) ''feedGuid''
       = Some ''guid-7''"
    "getAttribute (getElementsByTagName channel ''podcast:remoteItem'' ! i) ''feedUrl''
       = Some ''https://feeds.example/p.xml''"
    by auto
  with acq pa pt show ?thesis by blast
qed

text \<open>
  C8 as stated looks at the remote items that are children of the channel only.
  In the example feed no child of the channel is a remote item; the one inside
  the pod roll, with the medium \<^verbatim>\<open>publisher\<close>, becomes the publisher link.
\<close>

theorem parseAlbumFeed_nested_publisher_counterexample:
  "acquireChannel demoEnv ''https://feeds.example/album.xml'' 0 = Inr (docAlbum, channelAlbum)
   \<and> spec_directRemoteItems channelAlbum = []
   \<and> map_option RSSAlbum.publisher (parseAlbumFeed demoEnv ''https://feeds.example/album.xml'')
     = Some (Some \<lparr>RSSPublisher.feedGuid = ''guid-7'',
                    feedUrl = ''https://feeds.example/p.xml'', medium = ''publisher''\<rparr>)"
  by code_simp

end
